(* ===== verification/Prelude.thy ===== *)
theory Prelude
  imports
    Main
    "HOL-Library.Word"
    "HOL-Library.Sublist"
    "HOL-Library.Char_ord"
    "HOL-Library.List_Lexorder"
    "HOL-Library.AList"
    "HOL-Library.Multiset"
    "HOL-Library.Code_Target_Numeral"
begin

section \<open>Prelude: the part of Go that the sources use\<close>

text \<open>
  Shared types and the Go standard-library routines the sources call, with the lemmas the
  component theories rely on.

  \<^item> A Go string is a list of bytes, modelled as \<open>string\<close> (a list of 8-bit characters).
  \<^item> Go's \<open>int32\<close>, \<open>int64\<close> and \<open>int\<close> (64 bits on the supported platforms) are words read as
    two's complement.
  \<^item> A Go error is its text, \<open>Err msg\<close>; a run-time panic (index out of range, nil
    dereference) is \<open>Panic msg\<close>, so that it is never confused with a returned error.
    A fallible routine returns \<open>go_err + 'a\<close>.
  \<^item> A routine that talks to the outside world (the SDK, the event recorder, the clock) takes
    the state \<open>'s\<close> of that world and returns the new one.

  Case mapping (\<open>ToLower\<close>, \<open>EqualFold\<close>) is that of ASCII, other bytes are left alone; the
  white-space scanners (\<open>Fields\<close>, \<open>TrimSpace\<close>) know the UTF-8 encoding of every rune that
  \<open>unicode.IsSpace\<close> accepts.
\<close>

named_theorems go_simps "unfolding equations of the modelled Go library routines"
named_theorems res_simps "equations of the result and state-result combinators"

subsection \<open>Integers, errors, results\<close>

type_synonym int32 = "32 word"
type_synonym int64 = "64 word"

text \<open>The conversions \<open>int(x)\<close> and \<open>int64(x)\<close> of an \<open>int32\<close> extend the sign.\<close>

definition toInt :: "int32 \<Rightarrow> int64" where
  "toInt x = scast x"

datatype go_err = Err string | Panic string

type_synonym 'a res = "go_err + 'a"
type_synonym ('s, 'a) io = "'s \<Rightarrow> 'a res \<times> 's"

definition bindR :: "'a res \<Rightarrow> ('a \<Rightarrow> 'b res) \<Rightarrow> 'b res" where
  "bindR r f = (case r of Inl e \<Rightarrow> Inl e | Inr x \<Rightarrow> f x)"

definition bindM :: "('s, 'a) io \<Rightarrow> ('a \<Rightarrow> ('s, 'b) io) \<Rightarrow> ('s, 'b) io" where
  "bindM m f s = (case m s of (r, s') \<Rightarrow> (case r of Inl e \<Rightarrow> (Inl e, s') | Inr x \<Rightarrow> f x s'))"

definition returnM :: "'a \<Rightarrow> ('s, 'a) io" where
  "returnM x s = (Inr x, s)"

definition raiseM :: "go_err \<Rightarrow> ('s, 'a) io" where
  "raiseM e s = (Inl e, s)"

definition liftM :: "'a res \<Rightarrow> ('s, 'a) io" where
  "liftM r s = (r, s)"

text \<open>\<open>x, err := m(); if err != nil { handler } else { f(x) }\<close>: an error is handled, a panic goes on.\<close>

definition tryM :: "('s, 'a) io \<Rightarrow> (string \<Rightarrow> ('s, 'b) io) \<Rightarrow> ('a \<Rightarrow> ('s, 'b) io) \<Rightarrow> ('s, 'b) io" where
  "tryM m handler f s = (case m s of (r, s') \<Rightarrow>
     (case r of
        Inl e \<Rightarrow> (case e of Err msg \<Rightarrow> handler msg s' | Panic p \<Rightarrow> (Inl (Panic p), s'))
      | Inr x \<Rightarrow> f x s'))"

text \<open>A loop whose body has effects only.\<close>

fun forM :: "('a \<Rightarrow> ('s, unit) io) \<Rightarrow> 'a list \<Rightarrow> ('s, unit) io" where
  "forM f [] = returnM ()"
| "forM f (x # xs) = bindM (f x) (\<lambda>_. forM f xs)"

text \<open>A loop \<open>for _, x := range xs { acc, err = f(acc, x); if err != nil { return err } }\<close>.\<close>

fun foldR :: "('b \<Rightarrow> 'a \<Rightarrow> 'b res) \<Rightarrow> 'b \<Rightarrow> 'a list \<Rightarrow> 'b res" where
  "foldR f acc [] = Inr acc"
| "foldR f acc (x # xs) = bindR (f acc x) (\<lambda>acc'. foldR f acc' xs)"

text \<open>Reading \<open>xs[i]\<close>: out of range panics.\<close>

definition index :: "'a list \<Rightarrow> nat \<Rightarrow> 'a res" where
  "index xs i = (if i < length xs then Inr (xs ! i) else Inl (Panic ''index out of range''))"

text \<open>Reading \<open>m[k]\<close> of a \<open>map[string]string\<close>: a missing key gives the zero value.\<close>

definition map_get :: "('k \<rightharpoonup> string) \<Rightarrow> 'k \<Rightarrow> string" where
  "map_get m k = (case m k of None \<Rightarrow> [] | Some v \<Rightarrow> v)"

definition map_get_int :: "('k \<rightharpoonup> nat) \<Rightarrow> 'k \<Rightarrow> nat" where
  "map_get_int m k = (case m k of None \<Rightarrow> 0 | Some v \<Rightarrow> v)"

lemma sint_toInt [simp]: "sint (toInt x) = sint x"
  unfolding toInt_def by (rule sint_up_scast) (simp add: is_up)

lemma toInt_inject [simp]: "toInt x = toInt y \<longleftrightarrow> x = y"
  by (metis sint_toInt signed_word_eqI)

lemma word_of_int_sint_toInt: "word_of_int (sint x) = toInt x"
  by (simp add: toInt_def)

lemma sint32_bounds: "- (2 ^ 63) \<le> sint (x :: int32)" "sint (x :: int32) < 2 ^ 63"
  using sint_greater_eq[of x] sint_less[of x] by simp_all

lemma bindR_simps [simp, res_simps]:
  "bindR (Inl e) f = Inl e"
  "bindR (Inr x) f = f x"
  by (simp_all add: bindR_def)

lemma bindR_assoc: "bindR (bindR m f) g = bindR m (\<lambda>x. bindR (f x) g)"
  by (cases m) simp_all

lemma bindR_eq_Inr [simp]: "bindR m f = Inr y \<longleftrightarrow> (\<exists>x. m = Inr x \<and> f x = Inr y)"
  by (cases m) simp_all

lemma bindR_eq_Inl: "bindR m f = Inl e \<longleftrightarrow> m = Inl e \<or> (\<exists>x. m = Inr x \<and> f x = Inl e)"
  by (cases m) simp_all

lemma bindR_cong [fundef_cong]:
  "m = m' \<Longrightarrow> (\<And>x. m' = Inr x \<Longrightarrow> f x = f' x) \<Longrightarrow> bindR m f = bindR m' f'"
  by (cases m') simp_all

lemma io_simps [simp, res_simps]:
  "returnM x s = (Inr x, s)"
  "raiseM e s = (Inl e, s)"
  "liftM r s = (r, s)"
  by (simp_all add: returnM_def raiseM_def liftM_def)

lemma bindM_return [simp]: "bindM (returnM x) f = f x"
  by (rule ext) (simp add: bindM_def)

lemma bindM_raise [simp]: "bindM (raiseM e) f = raiseM e"
  by (rule ext) (simp add: bindM_def)

lemma bindM_Inl: "m s = (Inl e, s') \<Longrightarrow> bindM m f s = (Inl e, s')"
  by (simp add: bindM_def)

lemma bindM_Inr: "m s = (Inr x, s') \<Longrightarrow> bindM m f s = f x s'"
  by (simp add: bindM_def)

lemma bindM_eq_InrE:
  assumes "bindM m f s = (Inr y, s'')"
  obtains x s' where "m s = (Inr x, s')" "f x s' = (Inr y, s'')"
  using assms by (auto simp: bindM_def split: prod.splits sum.splits)

lemma foldR_append: "foldR f acc (xs @ ys) = bindR (foldR f acc xs) (\<lambda>acc'. foldR f acc' ys)"
  by (induction xs arbitrary: acc) (simp_all add: bindR_assoc)

lemma index_simps [simp]:
  "i < length xs \<Longrightarrow> index xs i = Inr (xs ! i)"
  "\<not> i < length xs \<Longrightarrow> index xs i = Inl (Panic ''index out of range'')"
  by (simp_all add: index_def)

lemma map_get_simps [simp]:
  "m k = None \<Longrightarrow> map_get m k = []"
  "m k = Some v \<Longrightarrow> map_get m k = v"
  by (simp_all add: map_get_def)

subsection \<open>A program logic for stateful routines\<close>

text \<open>
  \<open>safe Inv post m\<close>: from every state that satisfies \<open>Inv\<close>, \<open>m\<close> ends in one that satisfies \<open>Inv\<close> again, it does not panic,
  and if it returns a value, the value satisfies \<open>post\<close>.
\<close>

definition okR :: "('a \<Rightarrow> bool) \<Rightarrow> 'a res \<Rightarrow> bool" where
  "okR post r = (case r of Inl e \<Rightarrow> (case e of Err _ \<Rightarrow> True | Panic _ \<Rightarrow> False) | Inr x \<Rightarrow> post x)"

definition safe :: "('s \<Rightarrow> bool) \<Rightarrow> ('a \<Rightarrow> bool) \<Rightarrow> ('s, 'a) io \<Rightarrow> bool" where
  "safe Inv post m \<longleftrightarrow> (\<forall>s. Inv s \<longrightarrow> Inv (snd (m s)) \<and> okR post (fst (m s)))"

named_theorems safe_rules "structural rules of the program logic"

lemma okR_simps [simp]:
  "okR post (Inl (Err e))" "\<not> okR post (Inl (Panic e))" "okR post (Inr x) \<longleftrightarrow> post x"
  by (simp_all add: okR_def)

lemma okR_bind: "okR Q r \<Longrightarrow> (\<And>x. Q x \<Longrightarrow> okR post (f x)) \<Longrightarrow> okR post (bindR r f)"
  by (cases r) (auto simp: okR_def)

lemma okR_weaken: "okR P r \<Longrightarrow> (\<And>x. P x \<Longrightarrow> Q x) \<Longrightarrow> okR Q r"
  by (auto simp: okR_def split: sum.splits)

lemma okR_foldR:
  "(\<And>acc x. I acc \<Longrightarrow> x \<in> set xs \<Longrightarrow> okR I (f acc x)) \<Longrightarrow> I acc \<Longrightarrow> okR I (foldR f acc xs)"
  by (induction xs arbitrary: acc) (auto intro: okR_bind)

lemma safe_return [safe_rules]: "post x \<Longrightarrow> safe Inv post (returnM x)"
  and safe_raise [safe_rules]: "safe Inv post (raiseM (Err e))"
  and safe_lift [safe_rules]: "okR post r \<Longrightarrow> safe Inv post (liftM r)"
  by (simp_all add: safe_def)

lemma safe_bind: "safe Inv Q m \<Longrightarrow> (\<And>x. Q x \<Longrightarrow> safe Inv post (f x)) \<Longrightarrow> safe Inv post (bindM m f)"
  unfolding safe_def
proof (intro allI impI)
  fix s assume m: "\<forall>s. Inv s \<longrightarrow> Inv (snd (m s)) \<and> okR Q (fst (m s))" and "Inv s"
    and f: "\<And>x. Q x \<Longrightarrow> \<forall>s. Inv s \<longrightarrow> Inv (snd (f x s)) \<and> okR post (fst (f x s))"
  obtain r s' where r: "m s = (r, s')" by (cases "m s")
  with m \<open>Inv s\<close> have "Inv s'" "okR Q r" by fastforce+
  with f r show "Inv (snd (bindM m f s)) \<and> okR post (fst (bindM m f s))"
    by (cases r) (auto simp: bindM_def okR_def split: go_err.splits)
qed

text \<open>The usual case: nothing needs to be known of the intermediate value.\<close>

lemma safe_seq [safe_rules]:
  "safe Inv (\<lambda>_. True) m \<Longrightarrow> (\<And>x. safe Inv post (f x)) \<Longrightarrow> safe Inv post (bindM m f)"
  by (rule safe_bind[where Q = "\<lambda>_. True"])

lemma safe_try:
  assumes "safe Inv Q m" "\<And>msg. safe Inv post (handler msg)" "\<And>x. Q x \<Longrightarrow> safe Inv post (f x)"
  shows "safe Inv post (tryM m handler f)"
  unfolding safe_def
proof (intro allI impI)
  fix s assume "Inv s"
  obtain r s' where r: "m s = (r, s')" by (cases "m s")
  with assms(1) \<open>Inv s\<close> have "Inv s'" "okR Q r" by (fastforce simp: safe_def)+
  consider msg where "r = Inl (Err msg)" | p where "r = Inl (Panic p)" | x where "r = Inr x"
    by (metis go_err.exhaust sum.exhaust)
  then show "Inv (snd (tryM m handler f s)) \<and> okR post (fst (tryM m handler f s))"
  proof cases
    case 1
    with assms(2)[of msg] \<open>Inv s'\<close> r show ?thesis by (simp add: safe_def tryM_def)
  next
    case 2
    with \<open>okR Q r\<close> show ?thesis by simp
  next
    case 3
    with assms(3)[of x] \<open>Inv s'\<close> \<open>okR Q r\<close> r show ?thesis by (simp add: safe_def tryM_def)
  qed
qed

lemma safe_for: "(\<And>x. x \<in> set xs \<Longrightarrow> safe Inv (\<lambda>_. True) (f x)) \<Longrightarrow> safe Inv (\<lambda>_. True) (forM f xs)"
  by (induction xs) (auto intro!: safe_rules simp del: io_simps)

lemma safe_if [safe_rules]:
  "(b \<Longrightarrow> safe Inv post m) \<Longrightarrow> (\<not> b \<Longrightarrow> safe Inv post m') \<Longrightarrow> safe Inv post (if b then m else m')"
  by simp

lemma safe_weaken: "safe Inv P m \<Longrightarrow> (\<And>x. P x \<Longrightarrow> Q x) \<Longrightarrow> safe Inv Q m"
  by (auto simp: safe_def intro: okR_weaken)

lemma safe_state: "(\<And>s. safe Inv post (f s)) \<Longrightarrow> safe Inv post (\<lambda>s. f s s)"
  by (auto simp: safe_def)

lemma safe_update: "(\<And>s. Inv s \<Longrightarrow> Inv (g s)) \<Longrightarrow> safe Inv post m \<Longrightarrow> safe Inv post (\<lambda>s. m (g s))"
  by (auto simp: safe_def)

lemma safeD: "safe Inv post m \<Longrightarrow> Inv s \<Longrightarrow> Inv (snd (m s)) \<and> fst (m s) \<noteq> Inl (Panic e)"
  by (force simp: safe_def okR_def)

end
