(* ===== verification/Go_Strings.thy ===== *)
theory Go_Strings
  imports Prelude
begin

section \<open>Go's string routines\<close>

text \<open>
  The routines of the packages \<open>strings\<close>, \<open>strconv\<close>, \<open>sort\<close> and \<open>fmt\<close> that the sources call.
  Separators are single bytes everywhere in the sources, so \<open>Split\<close> takes a character and
  \<open>ReplaceAll (s, c, "")\<close> is \<open>RemoveAll c s\<close>.
\<close>

subsection \<open>Definitions\<close>

definition lower_char :: "char \<Rightarrow> char" where
  "lower_char c = (if 65 \<le> (of_char c :: nat) \<and> (of_char c :: nat) \<le> 90
     then char_of ((of_char c :: nat) + 32) else c)"

definition ToLower :: "string \<Rightarrow> string" where
  "ToLower s = map lower_char s"

definition EqualFold :: "string \<Rightarrow> string \<Rightarrow> bool" where
  "EqualFold s t \<longleftrightarrow> ToLower s = ToLower t"

definition RemoveAll :: "char \<Rightarrow> string \<Rightarrow> string" where
  "RemoveAll c s = filter (\<lambda>x. x \<noteq> c) s"

fun Split :: "char \<Rightarrow> string \<Rightarrow> string list" where
  "Split c [] = [[]]"
| "Split c (x # xs) =
     (if x = c then [] # Split c xs
      else (case Split c xs of [] \<Rightarrow> [[x]] | p # ps \<Rightarrow> (x # p) # ps))"

fun Join :: "string \<Rightarrow> string list \<Rightarrow> string" where
  "Join sep [] = []"
| "Join sep [x] = x"
| "Join sep (x # y # zs) = x @ sep @ Join sep (y # zs)"

fun HasPrefix :: "string \<Rightarrow> string \<Rightarrow> bool" where
  "HasPrefix s [] = True"
| "HasPrefix [] (p # ps) = False"
| "HasPrefix (c # s) (p # ps) = (c = p \<and> HasPrefix s ps)"

definition HasSuffix :: "string \<Rightarrow> string \<Rightarrow> bool" where
  "HasSuffix s p = HasPrefix (rev s) (rev p)"

definition TrimPrefix :: "string \<Rightarrow> string \<Rightarrow> string" where
  "TrimPrefix s p = (if HasPrefix s p then drop (length p) s else s)"

fun Contains :: "string \<Rightarrow> string \<Rightarrow> bool" where
  "Contains [] sub = (sub = [])"
| "Contains (c # s) sub = (HasPrefix (c # s) sub \<or> Contains s sub)"

text \<open>
  The UTF-8 encodings of the runes for which \<open>unicode.IsSpace\<close> holds. A multi-byte encoding
  starts with a lead byte, so it can only be met at a rune boundary.
\<close>

definition space_runes :: "string list" where
  "space_runes =
     [[CHR 0x20], [CHR 0x09], [CHR 0x0A], [CHR 0x0B], [CHR 0x0C], [CHR 0x0D],
      [CHR 0xC2, CHR 0x85], [CHR 0xC2, CHR 0xA0], [CHR 0xE1, CHR 0x9A, CHR 0x80],
      [CHR 0xE2, CHR 0x80, CHR 0x80], [CHR 0xE2, CHR 0x80, CHR 0x81],
      [CHR 0xE2, CHR 0x80, CHR 0x82], [CHR 0xE2, CHR 0x80, CHR 0x83],
      [CHR 0xE2, CHR 0x80, CHR 0x84], [CHR 0xE2, CHR 0x80, CHR 0x85],
      [CHR 0xE2, CHR 0x80, CHR 0x86], [CHR 0xE2, CHR 0x80, CHR 0x87],
      [CHR 0xE2, CHR 0x80, CHR 0x88], [CHR 0xE2, CHR 0x80, CHR 0x89],
      [CHR 0xE2, CHR 0x80, CHR 0x8A], [CHR 0xE2, CHR 0x80, CHR 0xA8],
      [CHR 0xE2, CHR 0x80, CHR 0xA9], [CHR 0xE2, CHR 0x80, CHR 0xAF],
      [CHR 0xE2, CHR 0x81, CHR 0x9F], [CHR 0xE3, CHR 0x80, CHR 0x80]]"

text \<open>Number of bytes of the white-space rune at the head of a string, 0 if there is none.\<close>

definition space_len :: "string \<Rightarrow> nat" where
  "space_len s = (case find (HasPrefix s) space_runes of None \<Rightarrow> 0 | Some r \<Rightarrow> length r)"

definition emit :: "string \<Rightarrow> string list" where
  "emit w = (if w = [] then [] else [w])"

function Fields_from :: "string \<Rightarrow> string \<Rightarrow> string list" where
  "Fields_from w [] = emit w"
| "Fields_from w (c # cs) =
     (if space_len (c # cs) = 0 then Fields_from (w @ [c]) cs
      else emit w @ Fields_from [] (drop (space_len (c # cs)) (c # cs)))"
  by pat_completeness auto
termination
  by (relation "measure (\<lambda>(w, s). length s)") auto

definition Fields :: "string \<Rightarrow> string list" where
  "Fields s = Fields_from [] s"

function TrimLeftSpace :: "string \<Rightarrow> string" where
  "TrimLeftSpace [] = []"
| "TrimLeftSpace (c # cs) =
     (if space_len (c # cs) = 0 then c # cs
      else TrimLeftSpace (drop (space_len (c # cs)) (c # cs)))"
  by pat_completeness auto
termination
  by (relation "measure length") auto

text \<open>The same scan from the right: the string and the encodings are reversed.\<close>

definition rev_space_len :: "string \<Rightarrow> nat" where
  "rev_space_len s = (case find (\<lambda>r. HasPrefix s (rev r)) space_runes of None \<Rightarrow> 0 | Some r \<Rightarrow> length r)"

function TrimRevSpace :: "string \<Rightarrow> string" where
  "TrimRevSpace [] = []"
| "TrimRevSpace (c # cs) =
     (if rev_space_len (c # cs) = 0 then c # cs
      else TrimRevSpace (drop (rev_space_len (c # cs)) (c # cs)))"
  by pat_completeness auto
termination
  by (relation "measure length") auto

definition TrimSpace :: "string \<Rightarrow> string" where
  "TrimSpace s = rev (TrimRevSpace (rev (TrimLeftSpace s)))"

text \<open>\<open>sort.Strings\<close>: byte-wise lexicographic order.\<close>

definition sort_Strings :: "string list \<Rightarrow> string list" where
  "sort_Strings xs = sort xs"

subsubsection \<open>Decimal printing and \<open>strconv.Atoi\<close>\<close>

definition digit_char :: "nat \<Rightarrow> char" where
  "digit_char d = char_of (48 + d)"

fun show_nat :: "nat \<Rightarrow> string" where
  "show_nat n = (if n < 10 then [digit_char n] else show_nat (n div 10) @ [digit_char (n mod 10)])"

declare show_nat.simps [simp del]

definition show_int :: "int \<Rightarrow> string" where
  "show_int i = (if i < 0 then CHR ''-'' # show_nat (nat (- i)) else show_nat (nat i))"

definition digit_val :: "char \<Rightarrow> nat option" where
  "digit_val c = (if 48 \<le> (of_char c :: nat) \<and> (of_char c :: nat) \<le> 57
     then Some ((of_char c :: nat) - 48) else None)"

datatype num_error = ErrSyntax | ErrRange

text \<open>The digit loop of \<open>strconv.ParseUint\<close> (base 10, 64 bits).\<close>

fun parse_uint :: "nat \<Rightarrow> string \<Rightarrow> num_error + nat" where
  "parse_uint n [] = Inr n"
| "parse_uint n (c # cs) =
     (case digit_val c of
        None \<Rightarrow> Inl ErrSyntax
      | Some d \<Rightarrow> if 2 ^ 64 \<le> 10 * n + d then Inl ErrRange else parse_uint (10 * n + d) cs)"

definition parse_int :: "string \<Rightarrow> num_error + int" where
  "parse_int s =
     (let neg = (case s of c # _ \<Rightarrow> c = CHR ''-'' | [] \<Rightarrow> False);
          body = (case s of c # cs \<Rightarrow> if c = CHR ''-'' \<or> c = CHR ''+'' then cs else s | [] \<Rightarrow> [])
      in if body = [] then Inl ErrSyntax
         else (case parse_uint 0 body of
             Inl e \<Rightarrow> Inl e
           | Inr un \<Rightarrow>
               if \<not> neg \<and> 2 ^ 63 \<le> un then Inl ErrRange
               else if neg \<and> 2 ^ 63 < un then Inl ErrRange
               else Inr (if neg then - int un else int un)))"

definition hex_digit :: "nat \<Rightarrow> char" where
  "hex_digit d = (if d < 10 then char_of (48 + d) else char_of (87 + d))"

definition quote_char :: "char \<Rightarrow> string" where
  "quote_char c =
     (let n = (of_char c :: nat) in
      if n = 34 then [CHR 0x5C, CHR 0x22] else if n = 92 then [CHR 0x5C, CHR 0x5C]
      else if n = 7 then [CHR 0x5C, CHR ''a''] else if n = 8 then [CHR 0x5C, CHR ''b'']
      else if n = 9 then [CHR 0x5C, CHR ''t''] else if n = 10 then [CHR 0x5C, CHR ''n'']
      else if n = 11 then [CHR 0x5C, CHR ''v''] else if n = 12 then [CHR 0x5C, CHR ''f'']
      else if n = 13 then [CHR 0x5C, CHR ''r'']
      else if n < 32 \<or> n = 127 then [CHR 0x5C, CHR ''x'', hex_digit (n div 16), hex_digit (n mod 16)]
      else [c])"

definition Quote :: "string \<Rightarrow> string" where
  "Quote s = [CHR 0x22] @ concat (map quote_char s) @ [CHR 0x22]"

definition num_error_text :: "string \<Rightarrow> num_error \<Rightarrow> string" where
  "num_error_text s e = ''strconv.Atoi: parsing '' @ Quote s @ '': '' @
     (case e of ErrSyntax \<Rightarrow> ''invalid syntax'' | ErrRange \<Rightarrow> ''value out of range'')"

definition Atoi :: "string \<Rightarrow> int64 res" where
  "Atoi s = (case parse_int s of Inl e \<Rightarrow> Inl (Err (num_error_text s e)) | Inr i \<Rightarrow> Inr (word_of_int i))"


subsection \<open>Prefixes, substrings, joins\<close>

lemma HasPrefix_iff: "HasPrefix s p \<longleftrightarrow> (\<exists>t. s = p @ t)"
  by (induction s p rule: HasPrefix.induct) auto

lemma HasPrefix_append [simp]: "HasPrefix (p @ t) p"
  by (simp add: HasPrefix_iff)

lemma Contains_iff: "Contains s sub \<longleftrightarrow> (\<exists>a b. s = a @ sub @ b)"
proof (induction s)
  case Nil
  then show ?case by simp
next
  case (Cons c s)
  show ?case
  proof
    assume "Contains (c # s) sub"
    then consider "HasPrefix (c # s) sub" | "Contains s sub" by auto
    then show "\<exists>a b. c # s = a @ sub @ b"
    proof cases
      case 1
      then show ?thesis unfolding HasPrefix_iff by (metis append_Nil)
    next
      case 2
      with Cons.IH show ?thesis by (metis append_Cons)
    qed
  next
    assume "\<exists>a b. c # s = a @ sub @ b"
    then obtain a b where ab: "c # s = a @ sub @ b" by blast
    show "Contains (c # s) sub"
    proof (cases a)
      case Nil
      with ab have "HasPrefix (c # s) sub" by (auto simp: HasPrefix_iff)
      then show ?thesis by simp
    next
      case (Cons d a')
      with ab have "Contains s sub" using Cons.IH by auto
      then show ?thesis by simp
    qed
  qed
qed

lemma Contains_infix [simp]: "Contains (a @ sub @ b) sub"
  by (auto simp: Contains_iff)

lemma TrimPrefix_append [simp]: "TrimPrefix (p @ t) p = t"
  by (simp add: TrimPrefix_def)

lemma Join_Cons: "xs \<noteq> [] \<Longrightarrow> Join sep (x # xs) = x @ sep @ Join sep xs"
  by (cases xs) simp_all

lemma RemoveAll_notin [simp]: "c \<notin> set (RemoveAll c s)"
  by (simp add: RemoveAll_def)

lemma RemoveAll_id: "c \<notin> set s \<Longrightarrow> RemoveAll c s = s"
  by (simp add: RemoveAll_def filter_id_conv) metis

lemma length_RemoveAll: "length (RemoveAll c s) \<le> length s"
  by (simp add: RemoveAll_def)

text \<open>
  Membership by substring search: a blank-delimited list is searched for a blank-delimited
  element. The search decides membership as long as neither the elements nor the searched
  word hold a blank.
\<close>

lemma blank_word_split:
  assumes "a @ CHR '' '' # w @ CHR '' '' # b = CHR '' '' # x @ CHR '' '' # r"
    and "CHR '' '' \<notin> set x" "CHR '' '' \<notin> set w"
  shows "w = x \<or> (\<exists>a'. a' @ CHR '' '' # w @ CHR '' '' # b = CHR '' '' # r)"
proof (cases a)
  case Nil
  with assms(1) have "w @ CHR '' '' # b = x @ CHR '' '' # r" by simp
  with assms(2,3) show ?thesis by (auto simp: append_eq_append_conv2 append_eq_Cons_conv Cons_eq_append_conv)
next
  case (Cons d a1)
  with assms(1) have *: "a1 @ CHR '' '' # w @ CHR '' '' # b = x @ CHR '' '' # r" by simp
  from * assms(2) obtain u where "a1 = x @ u" "u @ CHR '' '' # w @ CHR '' '' # b = CHR '' '' # r"
    by (auto simp: append_eq_append_conv2 append_eq_Cons_conv Cons_eq_append_conv)
  then show ?thesis by blast
qed

lemma Contains_blank_step:
  assumes "CHR '' '' \<notin> set x" "CHR '' '' \<notin> set w"
  shows "Contains (CHR '' '' # x @ CHR '' '' # r) (CHR '' '' # w @ '' '') \<longleftrightarrow>
    w = x \<or> Contains (CHR '' '' # r) (CHR '' '' # w @ '' '')" (is "?L \<longleftrightarrow> ?R")
proof
  assume ?L
  then obtain a b where "a @ CHR '' '' # w @ CHR '' '' # b = CHR '' '' # x @ CHR '' '' # r"
    by (auto simp: Contains_iff)
  from blank_word_split[OF this assms] show ?R
    unfolding Contains_iff by (metis append_Cons append_Nil append_assoc)
next
  assume ?R
  then show ?L
  proof
    assume "w = x"
    then show ?L using Contains_infix[of "[]" "'' '' @ x @ '' ''" r] by simp
  next
    assume "Contains (CHR '' '' # r) (CHR '' '' # w @ '' '')"
    then obtain a b where "CHR '' '' # r = a @ (CHR '' '' # w @ '' '') @ b"
      unfolding Contains_iff by blast
    then have "CHR '' '' # x @ CHR '' '' # r = (CHR '' '' # x @ a) @ (CHR '' '' # w @ '' '') @ b"
      by simp
    then show ?L unfolding Contains_iff by blast
  qed
qed

lemma Contains_blank_list:
  assumes "\<forall>x \<in> set xs. CHR '' '' \<notin> set x" and "CHR '' '' \<notin> set w" and "w \<noteq> []"
  shows "Contains ('' '' @ Join '' '' xs @ '' '') ('' '' @ w @ '' '') \<longleftrightarrow> w \<in> set xs"
  using assms(1)
proof (induction xs)
  case Nil
  with assms(3) show ?case
    by (auto simp: Contains_iff append_eq_Cons_conv Cons_eq_append_conv append_eq_append_conv2)
next
  case (Cons x xs)
  have none: "\<not> Contains '' '' (CHR '' '' # w @ '' '')"
    by (auto simp: Contains_iff append_eq_Cons_conv Cons_eq_append_conv)
  show ?case
    using Cons none Contains_blank_step[of x w "[]"] Contains_blank_step[of x w "Join '' '' xs @ '' ''"] assms(2)
    by (cases "xs = []") (auto simp: Join_Cons)
qed

subsection \<open>Splitting\<close>

lemma Split_ne [simp]: "Split c s \<noteq> []"
  by (induction s) (auto split: list.splits)

lemma Split_append: "c \<notin> set a \<Longrightarrow> Split c (a @ c # b) = a # Split c b"
  by (induction a) auto

lemma Split_single: "c \<notin> set a \<Longrightarrow> Split c a = [a]"
  by (induction a) auto

lemma Split_no_sep: "p \<in> set (Split c s) \<Longrightarrow> c \<notin> set p"
  by (induction s arbitrary: p) (auto split: if_splits list.splits)

lemma Join_Split: "Join [c] (Split c s) = s"
proof (induction s)
  case Nil
  then show ?case by simp
next
  case (Cons x xs)
  then show ?case
    by (cases "Split c xs"; cases "tl (Split c xs)") (auto simp: Join_Cons)
qed

lemma Split_Join: "xs \<noteq> [] \<Longrightarrow> \<forall>x \<in> set xs. c \<notin> set x \<Longrightarrow> Split c (Join [c] xs) = xs"
  by (induction "[c]" xs rule: Join.induct) (auto simp: Split_single Split_append)

subsection \<open>White space\<close>

text \<open>A word: a non-empty string in which no white-space rune occurs.\<close>

definition no_space :: "string \<Rightarrow> bool" where
  "no_space w = list_all (\<lambda>r. \<not> Contains w r) space_runes"

definition is_word :: "string \<Rightarrow> bool" where
  "is_word w \<longleftrightarrow> w \<noteq> [] \<and> no_space w"

lemma space_runes_ne: "r \<in> set space_runes \<Longrightarrow> r \<noteq> []"
  by (auto simp: space_runes_def)

lemma space_runes_blank: "r \<in> set space_runes \<Longrightarrow> CHR '' '' \<in> set r \<Longrightarrow> r = '' ''"
  by (auto simp: space_runes_def)

lemma blank_in_space_runes: "'' '' \<in> set space_runes"
  by (simp add: space_runes_def)

lemma space_len_0: "space_len s = 0 \<longleftrightarrow> (\<forall>r \<in> set space_runes. \<not> HasPrefix s r)"
  using space_runes_ne by (auto simp: space_len_def find_None_iff find_Some_iff split: option.splits)

lemma rev_space_len_0: "rev_space_len s = 0 \<longleftrightarrow> (\<forall>r \<in> set space_runes. \<not> HasPrefix s (rev r))"
  using space_runes_ne by (auto simp: rev_space_len_def find_None_iff find_Some_iff split: option.splits)

lemma space_len_blank [simp]: "space_len (CHR '' '' # s) = 1"
  by (simp add: space_len_def space_runes_def)

lemma no_space_iff: "no_space w \<longleftrightarrow> (\<forall>a r b. r \<in> set space_runes \<longrightarrow> w \<noteq> a @ r @ b)"
  by (auto simp: no_space_def list_all_iff Contains_iff)

lemma no_space_Nil [simp]: "no_space []"
  using space_runes_ne by (auto simp: no_space_iff)

lemma no_space_append: "no_space (a @ b) \<Longrightarrow> no_space a \<and> no_space b"
  unfolding no_space_iff by (metis append_assoc)

lemma no_space_Cons: "no_space (c # w) \<Longrightarrow> no_space w"
  using no_space_append[of "[c]" w] by simp

lemma no_space_no_blank: "no_space w \<Longrightarrow> CHR '' '' \<notin> set w"
  unfolding no_space_iff using blank_in_space_runes by (metis append_Cons append_Nil split_list)

lemma is_word_no_blank: "is_word w \<Longrightarrow> CHR '' '' \<notin> set w"
  by (simp add: is_word_def no_space_no_blank)

lemma space_len_word: "no_space w \<Longrightarrow> space_len w = 0"
  unfolding no_space_iff space_len_0 HasPrefix_iff by (metis append_Nil)

lemma append_blank_cases:
  assumes "w @ c # t = r @ u"
  obtains v where "w = r @ v" | v where "r = w @ c # v"
  using assms by (auto simp: append_eq_append_conv2 Cons_eq_append_conv)

lemma space_len_word_blank:
  assumes "no_space w" "w \<noteq> []"
  shows "space_len (w @ CHR '' '' # t) = 0"
  unfolding space_len_0
proof (intro ballI notI)
  fix r assume r: "r \<in> set space_runes" and "HasPrefix (w @ CHR '' '' # t) r"
  then obtain u where u: "w @ CHR '' '' # t = r @ u" by (auto simp: HasPrefix_iff)
  then show False
  proof (cases rule: append_blank_cases)
    case (1 v)
    with r assms show False unfolding no_space_iff by (metis append_Nil)
  next
    case (2 v)
    with space_runes_blank[OF r] assms(2) show False by (auto simp: append_eq_Cons_conv)
  qed
qed

lemma Fields_from_blank [simp]: "Fields_from w (CHR '' '' # t) = emit w @ Fields_from [] t"
  by simp

lemma Fields_from_word: "no_space u \<Longrightarrow> Fields_from w u = emit (w @ u)"
proof (induction u arbitrary: w)
  case Nil
  then show ?case by simp
next
  case (Cons c u)
  from Cons.prems have "no_space u" by (rule no_space_Cons)
  with Cons space_len_word[OF Cons.prems] show ?case by simp
qed

lemma Fields_from_word_blank:
  "no_space u \<Longrightarrow> Fields_from w (u @ CHR '' '' # t) = emit (w @ u) @ Fields_from [] t"
proof (induction u arbitrary: w)
  case Nil
  then show ?case by simp
next
  case (Cons c u)
  from Cons.prems have "no_space u" by (rule no_space_Cons)
  moreover have "space_len (c # u @ CHR '' '' # t) = 0"
    using space_len_word_blank[OF Cons.prems] by simp
  ultimately show ?case using Cons.IH by simp
qed

lemma Fields_words [simp]:
  "list_all is_word ws \<Longrightarrow> Fields (Join '' '' ws) = ws"
  unfolding Fields_def
proof (induction ws)
  case Nil
  then show ?case by (simp add: emit_def)
next
  case (Cons w ws)
  then have w: "no_space w" "w \<noteq> []" by (auto simp: is_word_def)
  show ?case
  proof (cases "ws = []")
    case True
    with w show ?thesis by (simp add: Fields_from_word emit_def)
  next
    case False
    with w Cons show ?thesis by (simp add: Join_Cons Fields_from_word_blank emit_def)
  qed
qed

lemma Join_words_head:
  assumes "list_all is_word ws" "ws \<noteq> []"
  shows "Join '' '' ws \<noteq> []" "space_len (Join '' '' ws) = 0"
proof -
  obtain w vs where ws: "ws = w # vs" using assms(2) by (cases ws) auto
  with assms have "no_space w" "w \<noteq> []" by (auto simp: is_word_def)
  with ws show "Join '' '' ws \<noteq> []" "space_len (Join '' '' ws) = 0"
    by (cases "vs = []"; simp add: Join_Cons space_len_word space_len_word_blank)+
qed

lemma Join_snoc: "xs \<noteq> [] \<Longrightarrow> Join sep (xs @ [y]) = Join sep xs @ sep @ y"
  by (induction sep xs rule: Join.induct) auto

lemma rev_space_len_word: "no_space w \<Longrightarrow> rev_space_len (rev w) = 0"
  unfolding rev_space_len_0 HasPrefix_iff no_space_iff
  by (metis append_Nil2 rev_append rev_rev_ident)

lemma rev_space_len_blank_word:
  assumes "no_space w" "w \<noteq> []"
  shows "rev_space_len (rev w @ CHR '' '' # t) = 0"
  unfolding rev_space_len_0
proof (intro ballI notI)
  fix r assume r: "r \<in> set space_runes" and "HasPrefix (rev w @ CHR '' '' # t) (rev r)"
  then obtain u where u: "rev w @ CHR '' '' # t = rev r @ u" by (auto simp: HasPrefix_iff)
  then show False
  proof (cases rule: append_blank_cases)
    case (1 v)
    then have "rev (rev w) = rev (rev r @ v)" by (rule arg_cong)
    then have "w = rev v @ r @ []" by simp
    with r assms show False unfolding no_space_iff by blast
  next
    case (2 v)
    then have "CHR '' '' \<in> set (rev r)" by simp
    then have "r = '' ''" using space_runes_blank[OF r] by simp
    with 2 assms(2) show False by (auto simp: Cons_eq_append_conv)
  qed
qed

lemma TrimSpace_words:
  assumes "list_all is_word ws" "ws \<noteq> []"
  shows "TrimSpace (CHR '' '' # Join '' '' ws) = Join '' '' ws"
proof -
  let ?j = "Join '' '' ws"
  have left: "TrimLeftSpace (CHR '' '' # ?j) = ?j"
    using Join_words_head[OF assms] by (cases ?j) auto
  obtain vs w where ws: "ws = vs @ [w]" using assms(2) by (metis rev_exhaust)
  then have w: "no_space w" "w \<noteq> []" using assms(1) by (auto simp: is_word_def)
  have "rev_space_len (rev ?j) = 0"
    using w ws by (cases "vs = []") (simp_all add: Join_snoc rev_space_len_word rev_space_len_blank_word)
  then have "TrimRevSpace (rev ?j) = rev ?j" by (cases "rev ?j") auto
  with left show ?thesis by (simp add: TrimSpace_def)
qed

subsection \<open>Case mapping\<close>

lemma ToLower_append [simp]: "ToLower (s @ t) = ToLower s @ ToLower t"
  by (simp add: ToLower_def)

lemma lower_char_idem [simp]: "lower_char (lower_char c) = lower_char c"
  by (auto simp: lower_char_def)

lemma ToLower_idem [simp]: "ToLower (ToLower s) = ToLower s"
  by (simp add: ToLower_def)

lemma EqualFold_refl [simp]: "EqualFold s s"
  by (simp add: EqualFold_def)

lemma EqualFold_sym: "EqualFold s t \<longleftrightarrow> EqualFold t s"
  by (auto simp: EqualFold_def)

lemma EqualFold_trans: "EqualFold s t \<Longrightarrow> EqualFold t u \<Longrightarrow> EqualFold s u"
  by (simp add: EqualFold_def)

lemma EqualFold_ToLower [simp]: "EqualFold (ToLower s) t \<longleftrightarrow> EqualFold s t" "EqualFold s (ToLower t) \<longleftrightarrow> EqualFold s t"
  by (simp_all add: EqualFold_def)

subsection \<open>Sorting strings\<close>

lemma mset_sort_Strings [simp]: "mset (sort_Strings xs) = mset xs"
  by (simp add: sort_Strings_def)

lemma set_sort_Strings [simp]: "set (sort_Strings xs) = set xs"
  by (simp add: sort_Strings_def)

lemma sorted_sort_Strings [simp]: "sorted (sort_Strings xs)"
  by (simp add: sort_Strings_def)

lemma sort_Strings_eq_iff: "sort_Strings xs = sort_Strings ys \<longleftrightarrow> mset xs = mset ys"
  unfolding sort_Strings_def by (metis mset_sort properties_for_sort sorted_sort)

subsection \<open>Decimal round trip\<close>

lemma of_char_digit_char: "d < 10 \<Longrightarrow> (of_char (digit_char d) :: nat) = 48 + d"
  by (simp add: digit_char_def)

lemma digit_val_digit_char [simp]: "d < 10 \<Longrightarrow> digit_val (digit_char d) = Some d"
  by (simp add: digit_val_def of_char_digit_char)

lemma digit_val_Some: "digit_val c = Some d \<Longrightarrow> d < 10 \<and> c = digit_char d"
  by (auto simp: digit_val_def digit_char_def split: if_splits)

lemma show_nat_ne [simp]: "show_nat n \<noteq> []"
  by (subst show_nat.simps) simp

lemma show_nat_digits: "c \<in> set (show_nat n) \<Longrightarrow> \<exists>d < 10. c = digit_char d"
proof (induction n rule: show_nat.induct)
  case (1 n)
  then show ?case
    by (cases "n < 10") (auto simp: show_nat.simps[of n] split: if_splits intro: exI[of _ "n mod 10"])
qed

lemma parse_uint_append:
  "parse_uint n (s @ t) = (case parse_uint n s of Inl e \<Rightarrow> Inl e | Inr m \<Rightarrow> parse_uint m t)"
  by (induction s arbitrary: n) (auto split: option.splits)

lemma parse_uint_show_nat: "n < 2 ^ 64 \<Longrightarrow> parse_uint 0 (show_nat n) = Inr n"
proof (induction n rule: show_nat.induct)
  case (1 n)
  show ?case
  proof (cases "n < 10")
    case True
    with "1.prems" show ?thesis by (simp add: show_nat.simps[of n])
  next
    case False
    with 1 have "parse_uint 0 (show_nat (n div 10)) = Inr (n div 10)" by simp
    moreover have "10 * (n div 10) + n mod 10 = n" by simp
    ultimately show ?thesis using False "1.prems"
      by (simp add: show_nat.simps[of n] parse_uint_append)
  qed
qed

lemma digit_char_simps [simp]:
  "d < 10 \<Longrightarrow> digit_char d \<noteq> CHR ''-''"
  "d < 10 \<Longrightarrow> digit_char d \<noteq> CHR ''+''"
  by (auto dest: arg_cong[where f = "of_char :: char \<Rightarrow> nat"] simp: of_char_digit_char)

lemma show_nat_head: "\<exists>d cs. show_nat n = digit_char d # cs \<and> d < 10"
  using show_nat_digits[of "hd (show_nat n)" n] by (cases "show_nat n") auto

lemma parse_int_show_int:
  assumes "- (2 ^ 63) \<le> i" "i < 2 ^ 63"
  shows "parse_int (show_int i) = Inr i"
proof (cases "i < 0")
  case True
  with assms have "nat (- i) < 2 ^ 64" "\<not> 2 ^ 63 < nat (- i)" by (simp_all add: nat_less_iff)
  with True show ?thesis by (simp add: parse_int_def show_int_def parse_uint_show_nat)
next
  case False
  with assms have "nat i < 2 ^ 64" "\<not> 2 ^ 63 \<le> nat i" by (simp_all add: nat_less_iff le_nat_iff)
  moreover obtain d cs where h: "show_nat (nat i) = digit_char d # cs" "d < 10"
    using show_nat_head by blast
  ultimately have "parse_uint 0 (digit_char d # cs) = Inr (nat i)"
    using parse_uint_show_nat[of "nat i"] by simp
  with False h \<open>\<not> 2 ^ 63 \<le> nat i\<close> show ?thesis
    by (simp add: parse_int_def show_int_def del: parse_uint.simps)
qed

lemma Atoi_show_int:
  assumes "- (2 ^ 63) \<le> i" "i < 2 ^ 63"
  shows "Atoi (show_int i) = Inr (word_of_int i)"
  by (simp add: Atoi_def parse_int_show_int[OF assms])

lemma show_int_no_dash: "0 \<le> i \<Longrightarrow> CHR ''-'' \<notin> set (show_int i)"
  by (auto simp: show_int_def dest!: show_nat_digits) (metis digit_char_simps(1))

lemma digit_not_in_space: "r \<in> set space_runes \<Longrightarrow> d < 10 \<Longrightarrow> digit_char d \<notin> set r"
  by (auto simp: space_runes_def dest!: arg_cong[where f = "of_char :: char \<Rightarrow> nat"] simp: of_char_digit_char)

end
