(* ===== verification/K8s_Types.thy ===== *)
theory K8s_Types
  imports Go_Strings
begin

section \<open>Kubernetes API objects\<close>

text \<open>
  The fields of the Kubernetes API types (\<open>k8s.io/api/core/v1\<close>, outside the repository) that
  the sources read or write, and the API's documented string constants. A nil slice and an
  absent pointer that the sources test for are \<open>None\<close>. Labels and annotations are never
  iterated over by modelled code, so they are maps.
\<close>

record ServicePort =
  sp_Protocol :: string
  sp_Port :: int32
  sp_NodePort :: int32

record LoadBalancerIngress =
  ing_Hostname :: string
  ing_IP :: string

type_synonym LoadBalancerStatus = "LoadBalancerIngress list"

record Service =
  svc_Name :: string
  svc_Namespace :: string
  svc_UID :: string
  svc_Annotations :: "string \<rightharpoonup> string"
  svc_Type :: string
  svc_Ports :: "ServicePort list"
  svc_ExternalTrafficPolicy :: string
  svc_HealthCheckNodePort :: int32
  svc_LoadBalancerClass :: "string option"
  svc_AllocateLoadBalancerNodePorts :: "bool option"
  svc_Ingress :: "LoadBalancerIngress list option"

record NodeAddress =
  addr_Type :: string
  addr_Address :: string

record Node =
  node_Name :: string
  node_Labels :: "string \<rightharpoonup> string"
  node_Addresses :: "NodeAddress list"
  node_ProviderID :: string
  node_TaintKeys :: "string list"
  node_ConditionTypes :: "string list"

abbreviation "ProtocolTCP \<equiv> ''TCP''"
abbreviation "ProtocolUDP \<equiv> ''UDP''"
abbreviation "ServiceTypeLoadBalancer \<equiv> ''LoadBalancer''"
abbreviation "ServiceTypeNodePort \<equiv> ''NodePort''"
abbreviation "TrafficPolicyLocal \<equiv> ''Local''"
abbreviation "TrafficPolicyCluster \<equiv> ''Cluster''"
abbreviation "NodeInternalIP \<equiv> ''InternalIP''"
abbreviation "NodeExternalIP \<equiv> ''ExternalIP''"
abbreviation "EventTypeNormal \<equiv> ''Normal''"
abbreviation "EventTypeWarning \<equiv> ''Warning''"

text \<open>An event handed to the event recorder: the object, the event type, the reason, the text.\<close>

record Event =
  ev_Namespace :: string
  ev_Name :: string
  ev_UID :: string
  ev_Type :: string
  ev_Reason :: string
  ev_Message :: string

text \<open>\<open>types.NamespacedName\<close> prints as \<open>namespace/name\<close>.\<close>

definition NamespacedName :: "Service \<Rightarrow> string" where
  "NamespacedName svc = svc_Namespace svc @ ''/'' @ svc_Name svc"

definition service_event :: "Service \<Rightarrow> string \<Rightarrow> string \<Rightarrow> string \<Rightarrow> Event" where
  "service_event svc ty reason msg =
     \<lparr>ev_Namespace = svc_Namespace svc, ev_Name = svc_Name svc, ev_UID = svc_UID svc,
      ev_Type = ty, ev_Reason = reason, ev_Message = msg\<rparr>"

text \<open>
  The order in which a \<open>range\<close> loop visits the keys of a Go map is not specified: wherever the
  sources iterate over a map, the model takes a function \<open>ro\<close> that puts the keys (held in
  insertion order) into the order of that run. All that is known of it is this.
\<close>

definition range_order :: "(string list \<Rightarrow> string list) \<Rightarrow> bool" where
  "range_order ro \<longleftrightarrow> (\<forall>ks. mset (ro ks) = mset ks)"

definition insert_key :: "string \<Rightarrow> string list \<Rightarrow> string list" where
  "insert_key k ks = (if k \<in> set ks then ks else ks @ [k])"

lemma range_order_set: "range_order ro \<Longrightarrow> set (ro ks) = set ks"
  unfolding range_order_def by (metis set_mset_mset)

lemma range_order_distinct: "range_order ro \<Longrightarrow> distinct (ro ks) \<longleftrightarrow> distinct ks"
  unfolding range_order_def by (metis mset_eq_imp_distinct_iff)

lemma range_order_sort: "range_order ro \<Longrightarrow> sort_Strings (ro ks) = sort_Strings ks"
  unfolding range_order_def sort_Strings_eq_iff by simp

lemma range_order_id: "range_order (\<lambda>ks. ks)" and range_order_rev: "range_order rev"
  by (simp_all add: range_order_def)

lemma set_insert_key [simp]: "set (insert_key k ks) = insert k (set ks)"
  by (auto simp: insert_key_def)

lemma distinct_insert_key [simp]: "distinct (insert_key k ks) \<longleftrightarrow> distinct ks"
  by (auto simp: insert_key_def)

end
