(* ===== verification/Vpc_Base.thy ===== *)
theory Vpc_Base
  imports K8s_Types
begin

section \<open>VPC objects, pool names and service options (\<open>pkg/vpcctl/vpc_sdk_base.go\<close>)\<close>

text \<open>
  The provider-neutral VPC objects, the routines on load-balancer objects, the pool-name
  codec \<open><protocol>-<port>-<nodePort>\<close> and the options read from a Kubernetes service.
  The field \<open>SdkObject\<close> of the load balancer and of the subnet is written once and read
  nowhere in the repository; it is left out.
\<close>

subsection \<open>Data\<close>

record VpcObjectReference =
  ref_ID :: string
  ref_Name :: string

record VpcLoadBalancer =
  lb_CreatedAt :: string
  lb_Hostname :: string
  lb_ID :: string
  lb_IsPublic :: bool
  lb_ListenerIDs :: "string list"
  lb_Name :: string
  lb_OperatingStatus :: string
  lb_Pools :: "VpcObjectReference list"
  lb_PrivateIps :: "string list"
  lb_ProfileFamily :: string
  lb_ProvisioningStatus :: string
  lb_PublicIps :: "string list"
  lb_ResourceGroup :: VpcObjectReference
  lb_Subnets :: "VpcObjectReference list"
  lb_VpcID :: string

record VpcLoadBalancerListener =
  lsn_ConnectionLimit :: int64
  lsn_DefaultPool :: VpcObjectReference
  lsn_ID :: string
  lsn_Port :: int64
  lsn_Protocol :: string
  lsn_ProvisioningStatus :: string

record VpcLoadBalancerPoolHealthMonitor =
  hm_Delay :: int64
  hm_MaxRetries :: int64
  hm_Port :: int64
  hm_Timeout :: int64
  hm_Type :: string
  hm_URLPath :: string

record VpcLoadBalancerPoolMember =
  mem_Health :: string
  mem_ID :: string
  mem_Port :: int64
  mem_ProvisioningStatus :: string
  mem_TargetIPAddress :: string
  mem_TargetInstanceID :: string
  mem_Weight :: int64

record VpcLoadBalancerPool =
  pool_Algorithm :: string
  pool_HealthMonitor :: VpcLoadBalancerPoolHealthMonitor
  pool_ID :: string
  pool_Members :: "VpcLoadBalancerPoolMember list"
  pool_Name :: string
  pool_Protocol :: string
  pool_ProvisioningStatus :: string
  pool_ProxyProtocol :: string
  pool_SessionPersistence :: string

record VpcSubnet =
  sub_AvailableIpv4AddressCount :: int64
  sub_CreatedAt :: string
  sub_ID :: string
  sub_IPVersion :: string
  sub_Ipv4CidrBlock :: string
  sub_Name :: string
  sub_NetworkACL :: VpcObjectReference
  sub_PublicGateway :: VpcObjectReference
  sub_ResourceGroup :: VpcObjectReference
  sub_Status :: string
  sub_TotalIpv4AddressCount :: int64
  sub_Vpc :: VpcObjectReference
  sub_Zone :: string

record VpcPoolNameFields =
  pnf_Protocol :: string
  pnf_Port :: int64
  pnf_NodePort :: int64

record ServiceOptions =
  opt_annotations :: "string \<rightharpoonup> string"
  opt_enabledFeatures :: string
  opt_healthCheckNodePort :: int64

definition LoadBalancerOperatingStatusOffline :: string where
  "LoadBalancerOperatingStatusOffline = ''offline''"
definition LoadBalancerOperatingStatusOnline :: string where
  "LoadBalancerOperatingStatusOnline = ''online''"
definition LoadBalancerProvisioningStatusActive :: string where
  "LoadBalancerProvisioningStatusActive = ''active''"
definition LoadBalancerProvisioningStatusCreatePending :: string where
  "LoadBalancerProvisioningStatusCreatePending = ''create_pending''"
definition LoadBalancerProvisioningStatusFailed :: string where
  "LoadBalancerProvisioningStatusFailed = ''failed''"
definition LoadBalancerProvisioningStatusMaintenancePending :: string where
  "LoadBalancerProvisioningStatusMaintenancePending = ''maintenance_pending''"
definition LoadBalancerProtocolHTTP :: string where "LoadBalancerProtocolHTTP = ''http''"
definition LoadBalancerProtocolTCP :: string where "LoadBalancerProtocolTCP = ''tcp''"
definition LoadBalancerAlgorithmRoundRobin :: string where
  "LoadBalancerAlgorithmRoundRobin = ''round_robin''"
definition LoadBalancerProxyProtocolDisabled :: string where
  "LoadBalancerProxyProtocolDisabled = ''disabled''"
definition LoadBalancerProxyProtocolV1 :: string where "LoadBalancerProxyProtocolV1 = ''v1''"
definition LoadBalancerOptionProxyProtocol :: string where
  "LoadBalancerOptionProxyProtocol = ''proxy-protocol''"

definition serviceAnnotationEnableFeatures :: string where
  "serviceAnnotationEnableFeatures = ''service.kubernetes.io/ibm-load-balancer-cloud-provider-enable-features''"
definition serviceAnnotationIPType :: string where
  "serviceAnnotationIPType = ''service.kubernetes.io/ibm-load-balancer-cloud-provider-ip-type''"
definition serviceAnnotationLbName :: string where
  "serviceAnnotationLbName = ''service.kubernetes.io/ibm-load-balancer-cloud-provider-vpc-lb-name''"
definition serviceAnnotationNodeSelector :: string where
  "serviceAnnotationNodeSelector = ''service.kubernetes.io/ibm-load-balancer-cloud-provider-vpc-node-selector''"
definition serviceAnnotationSubnets :: string where
  "serviceAnnotationSubnets = ''service.kubernetes.io/ibm-load-balancer-cloud-provider-vpc-subnets''"
definition serviceAnnotationZone :: string where
  "serviceAnnotationZone = ''service.kubernetes.io/ibm-load-balancer-cloud-provider-zone''"
definition servicePrivateLB :: string where "servicePrivateLB = ''private''"
definition servicePublicLB :: string where "servicePublicLB = ''public''"

lemmas vpc_consts =
  LoadBalancerOperatingStatusOffline_def LoadBalancerOperatingStatusOnline_def
  LoadBalancerProvisioningStatusActive_def LoadBalancerProvisioningStatusCreatePending_def
  LoadBalancerProvisioningStatusFailed_def LoadBalancerProvisioningStatusMaintenancePending_def
  LoadBalancerProtocolHTTP_def LoadBalancerProtocolTCP_def LoadBalancerAlgorithmRoundRobin_def
  LoadBalancerProxyProtocolDisabled_def LoadBalancerProxyProtocolV1_def
  LoadBalancerOptionProxyProtocol_def serviceAnnotationEnableFeatures_def
  serviceAnnotationIPType_def serviceAnnotationLbName_def serviceAnnotationNodeSelector_def
  serviceAnnotationSubnets_def serviceAnnotationZone_def servicePrivateLB_def servicePublicLB_def

subsection \<open>Pool names\<close>

definition extractProtocolPortsFromPoolName :: "string \<Rightarrow> (string \<times> int64 \<times> int64) res" where
  "extractProtocolPortsFromPoolName poolName =
     (let pool = Split (CHR ''-'') poolName in
      if length pool \<noteq> 3
      then Inl (Err (''Invalid pool name, format not <protocol>-<port>-<nodePort>: ['' @ poolName @ '']''))
      else
        let protocol = pool ! 0; portString = pool ! 1; nodePortString = pool ! 2 in
        if protocol \<noteq> ''tcp'' \<and> protocol \<noteq> ''udp''
        then Inl (Err (''Invalid protocol in pool name ['' @ poolName @ ''], only tcp and udp supported''))
        else bindR (Atoi portString) (\<lambda>port.
             bindR (Atoi nodePortString) (\<lambda>nodePort.
             Inr (protocol, port, nodePort))))"

definition extractFieldsFromPoolName :: "string \<Rightarrow> VpcPoolNameFields res" where
  "extractFieldsFromPoolName poolName =
     bindR (extractProtocolPortsFromPoolName poolName) (\<lambda>(protocol, port, nodePort).
       Inr \<lparr>pnf_Protocol = protocol, pnf_Port = port, pnf_NodePort = nodePort\<rparr>)"

definition genLoadBalancerPoolName :: "ServicePort \<Rightarrow> string" where
  "genLoadBalancerPoolName kubePort =
     ToLower (sp_Protocol kubePort) @ ''-'' @ show_int (sint (sp_Port kubePort)) @ ''-'' @
     show_int (sint (sp_NodePort kubePort))"

subsection \<open>Service options\<close>

definition newServiceOptions :: ServiceOptions where
  "newServiceOptions = \<lparr>opt_annotations = Map.empty, opt_enabledFeatures = [], opt_healthCheckNodePort = 0\<rparr>"

definition getHealthCheckNodePort :: "ServiceOptions \<Rightarrow> int64" where
  "getHealthCheckNodePort options = opt_healthCheckNodePort options"

definition options_getServiceSubnets :: "ServiceOptions \<Rightarrow> string" where
  "options_getServiceSubnets options =
     RemoveAll (CHR '' '') (map_get (opt_annotations options) serviceAnnotationSubnets)"

definition getServiceZone :: "ServiceOptions \<Rightarrow> string" where
  "getServiceZone options =
     RemoveAll (CHR '' '') (map_get (opt_annotations options) serviceAnnotationZone)"

definition isVpcOptionEnabled :: "string \<Rightarrow> string \<Rightarrow> bool" where
  "isVpcOptionEnabled lst item =
     (if lst = [] then False else list_ex (\<lambda>option. option = item) (Split (CHR '','') lst))"

definition isProxyProtocol :: "ServiceOptions \<Rightarrow> bool" where
  "isProxyProtocol options = isVpcOptionEnabled (opt_enabledFeatures options) LoadBalancerOptionProxyProtocol"

definition isPublic :: "ServiceOptions \<Rightarrow> bool" where
  "isPublic options =
     (let value = map_get (opt_annotations options) serviceAnnotationIPType
      in value = [] \<or> value = servicePublicLB)"

subsection \<open>Pointers that may be nil\<close>

definition SafePointerBool :: "bool option \<Rightarrow> bool" where
  "SafePointerBool ptr = (case ptr of None \<Rightarrow> False | Some b \<Rightarrow> b)"

text \<open>The date type is outside the repository; \<open>show_date\<close> is how it prints.\<close>

definition SafePointerDate :: "('d \<Rightarrow> string) \<Rightarrow> 'd option \<Rightarrow> string" where
  "SafePointerDate show_date ptr = (case ptr of None \<Rightarrow> ''nil'' | Some d \<Rightarrow> show_date d)"

definition SafePointerInt64 :: "int64 option \<Rightarrow> int64" where
  "SafePointerInt64 ptr = (case ptr of None \<Rightarrow> 0 | Some i \<Rightarrow> i)"

definition SafePointerString :: "string option \<Rightarrow> string" where
  "SafePointerString ptr = (case ptr of None \<Rightarrow> ''nil'' | Some s \<Rightarrow> s)"

subsection \<open>Load-balancer methods\<close>

definition GetStatus :: "VpcLoadBalancer \<Rightarrow> string" where
  "GetStatus lb = lb_OperatingStatus lb @ ''/'' @ lb_ProvisioningStatus lb"

definition lb_getSubnetIDs :: "VpcLoadBalancer \<Rightarrow> string list" where
  "lb_getSubnetIDs lb = map ref_ID (lb_Subnets lb)"

definition GetSuccessString :: "VpcLoadBalancer \<Rightarrow> string" where
  "GetSuccessString lb =
     (if lb_Hostname lb \<noteq> [] then lb_Hostname lb else Join '','' (lb_PrivateIps lb))"

definition GetSummary :: "VpcLoadBalancer \<Rightarrow> string" where
  "GetSummary lb =
     (let poolNames = Join '','' (sort_Strings (map ref_Name (lb_Pools lb)));
          privateIPs = Join '','' (lb_PrivateIps lb);
          publicIPs = Join '','' (lb_PublicIps lb)
      in ''Name:'' @ lb_Name lb @ '' ID:'' @ lb_ID lb @ '' Status:'' @ GetStatus lb
         @ (if lb_Hostname lb \<noteq> [] then '' Hostname:'' @ lb_Hostname lb else [])
         @ (if poolNames \<noteq> [] then '' Pools:'' @ poolNames else [])
         @ (if privateIPs \<noteq> [] then '' Private:'' @ privateIPs else [])
         @ (if publicIPs \<noteq> [] then '' Public:'' @ publicIPs else []))"

text \<open>The nested search loops return from inside the inner loop.\<close>

fun getVpcID_loop :: "VpcObjectReference list \<Rightarrow> VpcSubnet list \<Rightarrow> string" where
  "getVpcID_loop [] vpcSubnets = []"
| "getVpcID_loop (lbSubnet # rest) vpcSubnets =
     (case find (\<lambda>vpcSubnet. ref_ID lbSubnet = sub_ID vpcSubnet) vpcSubnets of
        Some vpcSubnet \<Rightarrow> ref_ID (sub_Vpc vpcSubnet)
      | None \<Rightarrow> getVpcID_loop rest vpcSubnets)"

definition getVpcID :: "VpcLoadBalancer \<Rightarrow> VpcSubnet list \<Rightarrow> string" where
  "getVpcID lb vpcSubnets = getVpcID_loop (lb_Subnets lb) vpcSubnets"

definition zoneMap_keys :: "VpcLoadBalancer \<Rightarrow> VpcSubnet list \<Rightarrow> string list" where
  "zoneMap_keys lb vpcSubnets =
     fold (\<lambda>lbSubnet zm. fold (\<lambda>vpcSubnet zm'.
         if ref_ID lbSubnet = sub_ID vpcSubnet then insert_key (sub_Zone vpcSubnet) zm' else zm')
       vpcSubnets zm) (lb_Subnets lb) []"

definition getZones :: "(string list \<Rightarrow> string list) \<Rightarrow> VpcLoadBalancer \<Rightarrow> VpcSubnet list \<Rightarrow> string list" where
  "getZones ro lb vpcSubnets = sort_Strings (ro (zoneMap_keys lb vpcSubnets))"

definition IsNLB :: "VpcLoadBalancer \<Rightarrow> bool" where
  "IsNLB lb = EqualFold (lb_ProfileFamily lb) ''network''"

definition IsReady :: "VpcLoadBalancer \<Rightarrow> bool" where
  "IsReady lb \<longleftrightarrow> lb_OperatingStatus lb = LoadBalancerOperatingStatusOnline \<and>
     lb_ProvisioningStatus lb = LoadBalancerProvisioningStatusActive"


subsection \<open>Properties\<close>

lemma graphic_no_space:
  assumes "\<forall>c \<in> set w. 33 \<le> (of_char c :: nat) \<and> (of_char c :: nat) < 127"
  shows "no_space w"
proof -
  have "\<exists>c \<in> set r. \<not> (33 \<le> (of_char c :: nat) \<and> (of_char c :: nat) < 127)" if "r \<in> set space_runes" for r
    using that by (auto simp: space_runes_def)
  with assms show ?thesis unfolding no_space_iff by fastforce
qed

lemma digit_char_graphic: "d < 10 \<Longrightarrow> 33 \<le> (of_char (digit_char d) :: nat) \<and> (of_char (digit_char d) :: nat) < 127"
  by (simp add: of_char_digit_char)

lemma show_int_graphic: "c \<in> set (show_int i) \<Longrightarrow> 33 \<le> (of_char c :: nat) \<and> (of_char c :: nat) < 127"
  by (auto simp: show_int_def digit_char_graphic dest!: show_nat_digits split: if_splits)

lemma parse_uint_graphic:
  "parse_uint n s = Inr m \<Longrightarrow> c \<in> set s \<Longrightarrow> 33 \<le> (of_char c :: nat) \<and> (of_char c :: nat) < 127"
  by (induction n s rule: parse_uint.induct)
    (auto simp: digit_char_graphic dest!: digit_val_Some split: option.splits if_splits)

lemma parse_int_body:
  assumes "parse_int s = Inr i"
  shows "\<exists>body n. parse_uint 0 body = Inr n \<and> set s \<subseteq> set body \<union> {CHR ''-'', CHR ''+''}"
proof (cases s)
  case Nil
  then show ?thesis by (auto intro: exI[of _ "[]"])
next
  case (Cons d ds)
  define body where "body = (if d = CHR ''-'' \<or> d = CHR ''+'' then ds else s)"
  have "set s \<subseteq> set body \<union> {CHR ''-'', CHR ''+''}" by (auto simp: body_def Cons)
  moreover have "\<exists>n. parse_uint 0 body = Inr n"
    using assms unfolding parse_int_def Let_def Cons body_def
    by (auto simp del: parse_uint.simps split: sum.splits if_splits)
  ultimately show ?thesis by blast
qed

lemma Atoi_graphic:
  assumes "Atoi s = Inr v" "c \<in> set s"
  shows "33 \<le> (of_char c :: nat) \<and> (of_char c :: nat) < 127"
proof -
  from assms(1) obtain i where "parse_int s = Inr i" by (auto simp: Atoi_def split: sum.splits)
  then obtain body n where "parse_uint 0 body = Inr n" "set s \<subseteq> set body \<union> {CHR ''-'', CHR ''+''}"
    using parse_int_body by blast
  with assms(2) parse_uint_graphic[of 0 body n c] show ?thesis by auto
qed

lemma ToLower_TCP [simp]: "ToLower ''TCP'' = ''tcp''" "ToLower ''tcp'' = ''tcp''"
  by code_simp+

lemma genLoadBalancerPoolName_Split:
  assumes "CHR ''-'' \<notin> set (ToLower (sp_Protocol kp))" "0 \<le> sint (sp_Port kp)" "0 \<le> sint (sp_NodePort kp)"
  shows "Split (CHR ''-'') (genLoadBalancerPoolName kp) =
    [ToLower (sp_Protocol kp), show_int (sint (sp_Port kp)), show_int (sint (sp_NodePort kp))]"
  using assms by (simp add: genLoadBalancerPoolName_def Split_append Split_single show_int_no_dash)

lemma extractFields_genLoadBalancerPoolName:
  assumes "ToLower (sp_Protocol kp) = ''tcp'' \<or> ToLower (sp_Protocol kp) = ''udp''"
    and "0 \<le> sint (sp_Port kp)" "0 \<le> sint (sp_NodePort kp)"
  shows "extractFieldsFromPoolName (genLoadBalancerPoolName kp) =
    Inr \<lparr>pnf_Protocol = ToLower (sp_Protocol kp), pnf_Port = toInt (sp_Port kp), pnf_NodePort = toInt (sp_NodePort kp)\<rparr>"
proof -
  have "CHR ''-'' \<notin> set (ToLower (sp_Protocol kp))" using assms(1) by auto
  moreover have "Atoi (show_int (sint x)) = Inr (toInt x)" for x :: int32
    using Atoi_show_int[OF sint32_bounds, of x] by (simp add: toInt_def)
  ultimately show ?thesis using genLoadBalancerPoolName_Split[of kp] assms
    by (auto simp: extractFieldsFromPoolName_def extractProtocolPortsFromPoolName_def Let_def)
qed

lemma extractFields_InrE:
  assumes "extractFieldsFromPoolName n = Inr f"
  obtains a b where "Split (CHR ''-'') n = [pnf_Protocol f, a, b]"
    "pnf_Protocol f = ''tcp'' \<or> pnf_Protocol f = ''udp''"
    "Atoi a = Inr (pnf_Port f)" "Atoi b = Inr (pnf_NodePort f)"
proof -
  have "length (Split (CHR ''-'') n) = 3"
    using assms by (auto simp: extractFieldsFromPoolName_def extractProtocolPortsFromPoolName_def Let_def
        split: if_splits)
  then obtain x a b where sp: "Split (CHR ''-'') n = [x, a, b]"
    by (auto simp: length_Suc_conv numeral_3_eq_3)
  with assms that show ?thesis
    by (auto simp: extractFieldsFromPoolName_def extractProtocolPortsFromPoolName_def Let_def split: if_splits)
qed

lemma extractFields_is_word:
  assumes "extractFieldsFromPoolName n = Inr f"
  shows "is_word n"
proof -
  from assms obtain a b where sp: "Split (CHR ''-'') n = [pnf_Protocol f, a, b]"
    and p: "pnf_Protocol f = ''tcp'' \<or> pnf_Protocol f = ''udp''"
    and ab: "Atoi a = Inr (pnf_Port f)" "Atoi b = Inr (pnf_NodePort f)"
    by (rule extractFields_InrE)
  have n: "n = pnf_Protocol f @ ''-'' @ a @ ''-'' @ b"
    using Join_Split[of "CHR ''-''" n] sp by simp
  have "33 \<le> (of_char c :: nat) \<and> (of_char c :: nat) < 127" if "c \<in> set n" for c
    using that n p Atoi_graphic[OF ab(1), of c] Atoi_graphic[OF ab(2), of c] by auto
  then have "no_space n" by (intro graphic_no_space) auto
  with n p show ?thesis by (auto simp: is_word_def)
qed

lemma poolToBeDeleted_not_pool_name: "extractFieldsFromPoolName ''POOL-TO-BE-DELETED'' \<noteq> Inr f"
  by (simp add: extractFieldsFromPoolName_def extractProtocolPortsFromPoolName_def)

lemma IsReady_GetStatus: "IsReady lb \<longleftrightarrow> GetStatus lb = ''online/active''"
proof
  assume "GetStatus lb = ''online/active''"
  then show "IsReady lb"
    by (auto simp: GetStatus_def IsReady_def vpc_consts append_eq_Cons_conv Cons_eq_append_conv)
qed (simp add: GetStatus_def IsReady_def vpc_consts)

abbreviation zone_step :: "VpcSubnet list \<Rightarrow> VpcObjectReference \<Rightarrow> string list \<Rightarrow> string list" where
  "zone_step vs lbSubnet zm \<equiv> fold (\<lambda>vpcSubnet zm'.
     if ref_ID lbSubnet = sub_ID vpcSubnet then insert_key (sub_Zone vpcSubnet) zm' else zm') vs zm"

lemma zoneMap_inner:
  "set (zone_step vs l zm) = set zm \<union> sub_Zone ` {v \<in> set vs. ref_ID l = sub_ID v}"
  "distinct (zone_step vs l zm) \<longleftrightarrow> distinct zm"
  by (induction vs arbitrary: zm) auto

lemma zoneMap_outer:
  "set (fold (zone_step vs) ls zm) = set zm \<union> sub_Zone ` {v \<in> set vs. sub_ID v \<in> ref_ID ` set ls}"
  "distinct (fold (zone_step vs) ls zm) \<longleftrightarrow> distinct zm"
proof (induction ls arbitrary: zm)
  case (Cons l ls)
  { case 1 show ?case using Cons.IH(1) by (auto simp: zoneMap_inner(1)) }
  { case 2 show ?case using Cons.IH(2) by (simp add: zoneMap_inner(2)) }
qed simp_all

lemma zoneMap_keys:
  "set (zoneMap_keys lb vs) = sub_Zone ` {v \<in> set vs. sub_ID v \<in> set (lb_getSubnetIDs lb)}"
  "distinct (zoneMap_keys lb vs)"
  using zoneMap_outer[of vs "lb_Subnets lb" "[]"] by (simp_all add: zoneMap_keys_def lb_getSubnetIDs_def)

lemma isVpcOptionEnabled_Join:
  assumes "xs \<noteq> []" "\<forall>x \<in> set xs. CHR '','' \<notin> set x" "item \<noteq> []"
  shows "isVpcOptionEnabled (Join '','' xs) item \<longleftrightarrow> item \<in> set xs"
proof (cases "Join '','' xs = []")
  case True
  with assms show ?thesis
    by (cases xs rule: remdups_adj.cases) (auto simp: isVpcOptionEnabled_def)
next
  case False
  with assms show ?thesis by (auto simp: isVpcOptionEnabled_def Split_Join list_ex_iff)
qed

subsection \<open>The pool-name codec\<close>

text \<open>C23: Pool names round trip: the name generated for a TCP or UDP port of a service is decoded into its protocol, port and node port
  (as 64-bit integers of the same value), so that two ports of a service never share a pool name unless they agree in all three.\<close>

theorem pool_name_roundtrip:
  assumes "ToLower (sp_Protocol kp) = ''tcp'' \<or> ToLower (sp_Protocol kp) = ''udp''"
    and "0 \<le> sint (sp_Port kp)" "0 \<le> sint (sp_NodePort kp)"
  shows "extractFieldsFromPoolName (genLoadBalancerPoolName kp) =
    Inr \<lparr>pnf_Protocol = ToLower (sp_Protocol kp), pnf_Port = toInt (sp_Port kp), pnf_NodePort = toInt (sp_NodePort kp)\<rparr> \<and>
    sint (toInt (sp_Port kp)) = sint (sp_Port kp) \<and> sint (toInt (sp_NodePort kp)) = sint (sp_NodePort kp)"
  using extractFields_genLoadBalancerPoolName[OF assms] by simp

theorem pool_name_roundtrip_witness:
  "extractFieldsFromPoolName (genLoadBalancerPoolName \<lparr>sp_Protocol = ''TCP'', sp_Port = 443, sp_NodePort = 30303\<rparr>) =
   Inr \<lparr>pnf_Protocol = ''tcp'', pnf_Port = toInt 443, pnf_NodePort = toInt 30303\<rparr>"
proof -
  have "0 \<le> sint (443 :: int32)" "0 \<le> sint (30303 :: int32)" by code_simp+
  then show ?thesis
    using pool_name_roundtrip[of "\<lparr>sp_Protocol = ''TCP'', sp_Port = 443, sp_NodePort = 30303\<rparr>"] by simp
qed

end
