(* ===== verification/Vpc_Config.thy ===== *)
theory Vpc_Config
  imports Vpc_Base
begin

section \<open>VPC configuration, service validation and filters (\<open>pkg/vpcctl/vpc_config.go\<close>)\<close>

text \<open>
  The VPC configuration and its validation, the filters on nodes and subnets, the options
  read from a service, and the checks that reject a service or a forbidden change of one.
\<close>

subsection \<open>Configuration\<close>

definition iamPrivateTokenExchangeURL :: string where
  "iamPrivateTokenExchangeURL = ''https://private.iam.cloud.ibm.com''"
definition iamPublicTokenExchangeURL :: string where
  "iamPublicTokenExchangeURL = ''https://iam.cloud.ibm.com''"
definition iamStagePrivateTokenExchangeURL :: string where
  "iamStagePrivateTokenExchangeURL = ''https://private.iam.test.cloud.ibm.com''"
definition iamStageTestPublicTokenExchangeURL :: string where
  "iamStageTestPublicTokenExchangeURL = ''https://iam.stage1.bluemix.net''"
definition nodeLabelDedicated :: string where "nodeLabelDedicated = ''dedicated''"
definition nodeLabelInternalIP :: string where
  "nodeLabelInternalIP = ''ibm-cloud.kubernetes.io/internal-ip''"
definition nodeLabelValueEdge :: string where "nodeLabelValueEdge = ''edge''"
definition nodeLabelZone :: string where "nodeLabelZone = ''ibm-cloud.kubernetes.io/zone''"
definition vpcEndpointIaaSProdURL :: string where "vpcEndpointIaaSProdURL = ''iaas.cloud.ibm.com''"
definition vpcEndpointIaaSStageURL :: string where "vpcEndpointIaaSStageURL = ''iaasdev.cloud.ibm.com''"
definition VpcProviderTypeFake :: string where "VpcProviderTypeFake = ''fake''"
definition VpcProviderTypeGen2 :: string where "VpcProviderTypeGen2 = ''g2''"

definition memberNodeLabelsAllowed :: "string list" where
  "memberNodeLabelsAllowed =
    [''ibm-cloud.kubernetes.io/internal-ip'',
     ''ibm-cloud.kubernetes.io/machine-type'',
     ''ibm-cloud.kubernetes.io/os'',
     ''ibm-cloud.kubernetes.io/region'',
     ''ibm-cloud.kubernetes.io/subnet-id'',
     ''ibm-cloud.kubernetes.io/worker-id'',
     ''ibm-cloud.kubernetes.io/worker-pool-id'',
     ''ibm-cloud.kubernetes.io/worker-pool-name'',
     ''ibm-cloud.kubernetes.io/worker-version'',
     ''ibm-cloud.kubernetes.io/zone'',
     ''kubernetes.io/arch'',
     ''kubernetes.io/hostname'',
     ''kubernetes.io/os'',
     ''node.kubernetes.io/instance-type'',
     ''topology.kubernetes.io/region'',
     ''topology.kubernetes.io/zone'']"

record ConfigVpc =
  cfg_AccountID :: string
  cfg_APIKeySecret :: string
  cfg_ClusterID :: string
  cfg_EnablePrivate :: bool
  cfg_IamEndpointOverride :: string
  cfg_IKSPrivateEndpointHostname :: string
  cfg_ProviderType :: string
  cfg_Region :: string
  cfg_ResourceGroupName :: string
  cfg_RmEndpointOverride :: string
  cfg_SubnetNames :: string
  cfg_WorkerAccountID :: string
  cfg_VpcName :: string
  cfg_VpcEndpointOverride :: string
  cfg_endpointURL :: string
  cfg_resourceGroupID :: string
  cfg_tokenExchangeURL :: string

definition getIamEndpoint :: "ConfigVpc \<Rightarrow> string" where
  "getIamEndpoint c =
     (if cfg_IamEndpointOverride c \<noteq> [] then cfg_IamEndpointOverride c
      else if Contains (cfg_Region c) ''stage''
      then (if cfg_EnablePrivate c then iamStagePrivateTokenExchangeURL
            else iamStageTestPublicTokenExchangeURL)
      else if cfg_EnablePrivate c then iamPrivateTokenExchangeURL
      else iamPublicTokenExchangeURL)"

definition getVpcEndpoint :: "ConfigVpc \<Rightarrow> string" where
  "getVpcEndpoint c =
     (if cfg_VpcEndpointOverride c \<noteq> [] then cfg_VpcEndpointOverride c
      else
        let endpoint = (if Contains (cfg_Region c) ''stage'' then vpcEndpointIaaSStageURL
                        else vpcEndpointIaaSProdURL)
        in if cfg_EnablePrivate c
           then ''https://'' @ cfg_Region c @ ''.'' @ ''private'' @ ''.'' @ endpoint
           else ''https://'' @ cfg_Region c @ ''.'' @ endpoint)"

definition validate :: "ConfigVpc \<Rightarrow> unit res" where
  "validate c =
     (if cfg_ClusterID c = [] then Inl (Err ''Missing required cloud configuration setting: clusterID'')
      else if cfg_ProviderType c = VpcProviderTypeFake then Inr ()
      else if cfg_ProviderType c \<noteq> VpcProviderTypeGen2
      then Inl (Err (''Invalid cloud configuration setting for cluster-default-provider: '' @ cfg_ProviderType c))
      else if cfg_AccountID c = [] then Inl (Err ''Missing required cloud configuration setting: accountID'')
      else if cfg_APIKeySecret c = [] then Inl (Err ''Missing required cloud configuration setting: g2Credentials'')
      else if cfg_Region c = [] then Inl (Err ''Missing required cloud configuration setting: region'')
      else if cfg_ResourceGroupName c = [] then Inl (Err ''Missing required cloud configuration setting: g2ResourceGroupName'')
      else if cfg_SubnetNames c = [] then Inl (Err ''Missing required cloud configuration setting: g2VpcSubnetNames'')
      else if cfg_VpcName c = [] then Inl (Err ''Missing required cloud configuration setting: g2VpcName'')
      else Inr ())"

text \<open>\<open>initialize\<close> updates the configuration object in place; the model returns it.\<close>

definition config_initialize :: "ConfigVpc \<Rightarrow> ConfigVpc res" where
  "config_initialize c =
     bindR (validate c) (\<lambda>_.
       if cfg_ProviderType c = VpcProviderTypeFake then Inr c
       else Inr (c\<lparr>cfg_endpointURL := getVpcEndpoint c @ ''/v1'',
                   cfg_tokenExchangeURL := getIamEndpoint c @ ''/identity/token''\<rparr>))"

subsection \<open>Filters\<close>

definition findNodesMatchingLabelValue :: "Node list \<Rightarrow> string \<Rightarrow> string \<Rightarrow> Node list" where
  "findNodesMatchingLabelValue nodes filterLabel filterValue =
     filter (\<lambda>node. case node_Labels node filterLabel of Some v \<Rightarrow> v = filterValue | None \<Rightarrow> False) nodes"

definition filterNodesByEdgeLabel :: "Node list \<Rightarrow> Node list" where
  "filterNodesByEdgeLabel nodes =
     (let edgeNodes = findNodesMatchingLabelValue nodes nodeLabelDedicated nodeLabelValueEdge
      in if length edgeNodes = 0 then nodes else edgeNodes)"

definition filterNodesByZone :: "Node list \<Rightarrow> string \<Rightarrow> Node list" where
  "filterNodesByZone nodes zone =
     (if zone \<noteq> [] then findNodesMatchingLabelValue nodes nodeLabelZone zone else nodes)"

definition filterSubnetsByName :: "VpcSubnet list \<Rightarrow> string \<Rightarrow> VpcSubnet list" where
  "filterSubnetsByName subnets subnetList =
     (let desiredSubnets = '','' @ subnetList @ '',''
      in filter (\<lambda>subnet. Contains desiredSubnets (sub_Name subnet)) subnets)"

definition filterSubnetsByVpcName :: "VpcSubnet list \<Rightarrow> string \<Rightarrow> VpcSubnet list" where
  "filterSubnetsByVpcName subnets vpcName = filter (\<lambda>subnet. ref_Name (sub_Vpc subnet) = vpcName) subnets"

definition getNodeInternalIP :: "Node \<Rightarrow> string" where
  "getNodeInternalIP node =
     (let nodeInternalAddress = map_get (node_Labels node) nodeLabelInternalIP in
      if nodeInternalAddress = []
      then (case find (\<lambda>address. addr_Type address = NodeInternalIP) (node_Addresses node) of
              Some address \<Rightarrow> addr_Address address
            | None \<Rightarrow> nodeInternalAddress)
      else nodeInternalAddress)"

definition getNodeIDs :: "Node list \<Rightarrow> string list" where
  "getNodeIDs nodeList = filter (\<lambda>a. a \<noteq> []) (map getNodeInternalIP nodeList)"

definition getPoolMemberTargets :: "VpcLoadBalancerPoolMember list \<Rightarrow> string list" where
  "getPoolMemberTargets members = map mem_TargetIPAddress members"

definition getServiceEnabledFeatures :: "Service \<Rightarrow> string" where
  "getServiceEnabledFeatures service =
     ToLower (RemoveAll (CHR '' '') (map_get (svc_Annotations service) serviceAnnotationEnableFeatures))"

definition getServiceHealthCheckNodePort :: "Service \<Rightarrow> int64" where
  "getServiceHealthCheckNodePort service =
     (if svc_ExternalTrafficPolicy service = TrafficPolicyLocal
      then toInt (svc_HealthCheckNodePort service) else 0)"

definition getServiceNodeSelectorFilter :: "Service \<Rightarrow> string \<times> string" where
  "getServiceNodeSelectorFilter service =
     (let flt = RemoveAll (CHR '' '') (map_get (svc_Annotations service) serviceAnnotationNodeSelector) in
      if flt = [] then ([], [])
      else
        let filterLabelValue = Split (CHR ''='') flt in
        if length filterLabelValue \<noteq> 2 then ([], [])
        else
          let filterLabel = filterLabelValue ! 0; filterValue = filterLabelValue ! 1 in
          if list_ex (\<lambda>allowed. filterLabel = allowed) memberNodeLabelsAllowed
          then (filterLabel, filterValue) else ([], []))"

definition getServicePoolNames :: "Service option \<Rightarrow> string list res" where
  "getServicePoolNames service =
     (case service of
        None \<Rightarrow> Inl (Err ''Service not specified'')
      | Some svc \<Rightarrow> Inr (map genLoadBalancerPoolName (svc_Ports svc)))"

definition getServiceSubnets :: "Service \<Rightarrow> string" where
  "getServiceSubnets service =
     RemoveAll (CHR '' '') (map_get (svc_Annotations service) serviceAnnotationSubnets)"

definition getSubnetIDs :: "VpcSubnet list \<Rightarrow> string list" where
  "getSubnetIDs subnets = map sub_ID subnets"

definition getServiceOptions :: "Service option \<Rightarrow> ServiceOptions" where
  "getServiceOptions service =
     (case service of
        None \<Rightarrow> newServiceOptions
      | Some svc \<Rightarrow>
          \<lparr>opt_annotations = svc_Annotations svc,
           opt_enabledFeatures = getServiceEnabledFeatures svc,
           opt_healthCheckNodePort = getServiceHealthCheckNodePort svc\<rparr>)"

definition isServicePortEqualListener :: "ServicePort \<Rightarrow> VpcLoadBalancerListener \<Rightarrow> bool" where
  "isServicePortEqualListener kubePort listener \<longleftrightarrow>
     lsn_Port listener = toInt (sp_Port kubePort) \<and> EqualFold (lsn_Protocol listener) (sp_Protocol kubePort)"

definition isServicePortEqualPoolName :: "ServicePort \<Rightarrow> VpcPoolNameFields \<Rightarrow> bool" where
  "isServicePortEqualPoolName kubePort poolName \<longleftrightarrow>
     pnf_Port poolName = toInt (sp_Port kubePort) \<and> EqualFold (pnf_Protocol poolName) (sp_Protocol kubePort)"

subsection \<open>Validation of services\<close>

definition validateService :: "Service \<Rightarrow> ServiceOptions res" where
  "validateService service =
     (let options = getServiceOptions (Some service) in
      case find (\<lambda>kubePort. sp_Protocol kubePort \<noteq> ProtocolTCP) (svc_Ports service) of
        Some kubePort \<Rightarrow>
          Inl (Err (''Service '' @ svc_Namespace service @ ''/'' @ svc_Name service @ '' is a '' @
                    sp_Protocol kubePort @ '' load balancer. Only TCP is supported''))
      | None \<Rightarrow> Inr options)"

definition annotation_error :: "string \<Rightarrow> Service \<Rightarrow> string \<Rightarrow> go_err" where
  "annotation_error annotation service rest =
     Err (''The annotation '' @ annotation @ '' on service '' @ svc_Namespace service @ ''/'' @
          svc_Name service @ '' contains '' @ rest)"

text \<open>The inner loop of \<open>validateServiceSubnets\<close>: the subnet ID one annotation entry stands for.\<close>

fun matchSubnet :: "Service \<Rightarrow> string \<Rightarrow> string \<Rightarrow> VpcSubnet list \<Rightarrow> string option res" where
  "matchSubnet service vpcID subnetID [] = Inr None"
| "matchSubnet service vpcID subnetID (subnet # rest) =
     (if subnetID = sub_ID subnet
      then (if vpcID \<noteq> ref_ID (sub_Vpc subnet)
            then Inl (annotation_error serviceAnnotationSubnets service
                   (''VPC subnet '' @ subnetID @ '' that is located in a different VPC''))
            else Inr (Some subnetID))
      else if vpcID \<noteq> ref_ID (sub_Vpc subnet) then matchSubnet service vpcID subnetID rest
      else if subnetID = sub_Name subnet \<or> subnetID = sub_Ipv4CidrBlock subnet
      then Inr (Some (sub_ID subnet))
      else matchSubnet service vpcID subnetID rest)"

definition desiredSubnet_step :: "Service \<Rightarrow> string \<Rightarrow> VpcSubnet list \<Rightarrow> string list \<Rightarrow> string \<Rightarrow> string list res" where
  "desiredSubnet_step service vpcID vpcSubnets desiredSubnetMap subnetID =
     bindR (matchSubnet service vpcID subnetID vpcSubnets) (\<lambda>found.
       case found of
         None \<Rightarrow> Inl (annotation_error serviceAnnotationSubnets service (''invalid VPC subnet '' @ subnetID))
       | Some i \<Rightarrow> Inr (insert_key i desiredSubnetMap))"

definition validateServiceSubnets ::
  "(string list \<Rightarrow> string list) \<Rightarrow> Service \<Rightarrow> string \<Rightarrow> string \<Rightarrow> VpcSubnet list \<Rightarrow> string list res" where
  "validateServiceSubnets ro service serviceSubnets vpcID vpcSubnets =
     bindR (foldR (desiredSubnet_step service vpcID vpcSubnets) [] (Split (CHR '','') serviceSubnets))
       (\<lambda>desiredSubnetMap. Inr (ro desiredSubnetMap))"

definition validateServiceSubnetsNotUpdated ::
  "(string list \<Rightarrow> string list) \<Rightarrow> Service \<Rightarrow> VpcLoadBalancer \<Rightarrow> VpcSubnet list \<Rightarrow> unit res" where
  "validateServiceSubnetsNotUpdated ro service lb vpcSubnets =
     (let serviceSubnets = getServiceSubnets service in
      if serviceSubnets = [] then Inr ()
      else
        let vpcID = getVpcID lb vpcSubnets in
        bindR (validateServiceSubnets ro service serviceSubnets vpcID vpcSubnets) (\<lambda>requested.
          let requested = sort_Strings requested;
              actual = sort_Strings (map ref_ID (lb_Subnets lb))
          in if Join '','' requested \<noteq> Join '','' actual
             then Inl (Err (''The load balancer was created with subnets '' @ Join '','' actual @
                            ''. This setting can not be changed''))
             else Inr ()))"

definition validateServiceTypeNotUpdated :: "ServiceOptions \<Rightarrow> VpcLoadBalancer \<Rightarrow> unit res" where
  "validateServiceTypeNotUpdated options lb =
     (if isPublic options \<noteq> lb_IsPublic lb
      then
        let lbType = (if lb_IsPublic lb then servicePublicLB else servicePrivateLB)
        in Inl (Err (''The load balancer was created as a '' @ lbType @
                     '' load balancer. This setting can not be changed''))
      else Inr ())"

definition validateServiceZone :: "Service \<Rightarrow> string \<Rightarrow> VpcSubnet list \<Rightarrow> string list res" where
  "validateServiceZone service serviceZone vpcSubnets =
     (let clusterSubnets = map sub_ID (filter (\<lambda>subnet. serviceZone = sub_Zone subnet) vpcSubnets) in
      if length clusterSubnets = 0
      then Inl (annotation_error serviceAnnotationZone service
             (''invalid zone '' @ serviceZone @ ''. There are no cluster subnets in that zone''))
      else Inr clusterSubnets)"

subsection \<open>Subnets of a service\<close>

lemma matchSubnet_Some:
  assumes "matchSubnet service vpcID e subnets = Inr (Some i)"
  shows "\<exists>subnet \<in> set subnets. sub_ID subnet = i \<and> ref_ID (sub_Vpc subnet) = vpcID \<and>
    (e = sub_ID subnet \<or> e = sub_Name subnet \<or> e = sub_Ipv4CidrBlock subnet)"
  using assms by (induction subnets) (auto split: if_splits)

lemma matchSubnet_None:
  "matchSubnet service vpcID e subnets = Inr None \<longleftrightarrow>
   (\<forall>subnet \<in> set subnets. e \<noteq> sub_ID subnet \<and>
      (ref_ID (sub_Vpc subnet) = vpcID \<longrightarrow> e \<noteq> sub_Name subnet \<and> e \<noteq> sub_Ipv4CidrBlock subnet))"
  by (induction subnets) (auto split: if_splits)

definition resolved :: "Service \<Rightarrow> string \<Rightarrow> VpcSubnet list \<Rightarrow> string list \<Rightarrow> string set" where
  "resolved service vpcID subnets es = {i. \<exists>e \<in> set es. matchSubnet service vpcID e subnets = Inr (Some i)}"

lemma resolved_in_vpc:
  "resolved service vpcID subnets es \<subseteq> sub_ID ` {subnet \<in> set subnets. ref_ID (sub_Vpc subnet) = vpcID}"
  unfolding resolved_def by (auto dest!: matchSubnet_Some)

lemma desiredSubnet_step_Inr:
  "desiredSubnet_step service vpcID subnets acc e = Inr acc' \<longleftrightarrow>
   (\<exists>i. matchSubnet service vpcID e subnets = Inr (Some i) \<and> acc' = insert_key i acc)"
  by (auto simp: desiredSubnet_step_def split: option.splits)

lemma desiredSubnets_fold:
  assumes "foldR (desiredSubnet_step service vpcID subnets) acc es = Inr ids"
  shows "set ids = set acc \<union> resolved service vpcID subnets es \<and> (distinct acc \<longrightarrow> distinct ids) \<and>
    (\<forall>e \<in> set es. \<exists>i. matchSubnet service vpcID e subnets = Inr (Some i))"
  using assms
proof (induction es arbitrary: acc)
  case Nil
  then show ?case by (simp add: resolved_def)
next
  case (Cons e es)
  then obtain i where i: "matchSubnet service vpcID e subnets = Inr (Some i)"
    "foldR (desiredSubnet_step service vpcID subnets) (insert_key i acc) es = Inr ids"
    by (auto simp: desiredSubnet_step_Inr)
  from Cons.IH[OF i(2)] i(1) show ?case by (auto simp: resolved_def)
qed

lemma desiredSubnets_ok:
  "(\<forall>e \<in> set es. \<exists>i. matchSubnet service vpcID e subnets = Inr (Some i)) \<Longrightarrow>
   \<exists>ids. foldR (desiredSubnet_step service vpcID subnets) acc es = Inr ids"
proof (induction es arbitrary: acc)
  case (Cons e es)
  then obtain i where "matchSubnet service vpcID e subnets = Inr (Some i)" by auto
  then have "desiredSubnet_step service vpcID subnets acc e = Inr (insert_key i acc)" by (simp add: desiredSubnet_step_Inr)
  with Cons show ?case by simp
qed simp

lemma validateServiceSubnets_Inr:
  assumes "validateServiceSubnets ro service l vpcID subnets = Inr ids" "range_order ro"
  shows "set ids = resolved service vpcID subnets (Split (CHR '','') l)" "distinct ids"
    "\<forall>e \<in> set (Split (CHR '','') l). \<exists>i. matchSubnet service vpcID e subnets = Inr (Some i)"
proof -
  from assms(1) obtain ks where ks: "foldR (desiredSubnet_step service vpcID subnets) [] (Split (CHR '','') l) = Inr ks" "ids = ro ks"
    by (auto simp: validateServiceSubnets_def)
  from desiredSubnets_fold[OF ks(1)] ks(2) range_order_set[OF assms(2)] range_order_distinct[OF assms(2)]
  show "set ids = resolved service vpcID subnets (Split (CHR '','') l)" "distinct ids"
    "\<forall>e \<in> set (Split (CHR '','') l). \<exists>i. matchSubnet service vpcID e subnets = Inr (Some i)" by auto
qed

text \<open>The result does not depend on the iteration order of the map, up to the order of the list returned.\<close>

lemma validateServiceSubnets_order:
  assumes "range_order ro" "range_order ro'"
  shows "(case validateServiceSubnets ro service l vpcID subnets of Inl e \<Rightarrow> Inl e | Inr ids \<Rightarrow> Inr (sort_Strings ids)) =
    (case validateServiceSubnets ro' service l vpcID subnets of Inl e \<Rightarrow> Inl e | Inr ids \<Rightarrow> Inr (sort_Strings ids))"
  using range_order_sort[OF assms(1)] range_order_sort[OF assms(2)]
  by (simp add: validateServiceSubnets_def bindR_def split: sum.split)

lemma Join_inject:
  assumes "\<forall>x \<in> set xs \<union> set ys. x \<noteq> [] \<and> CHR '','' \<notin> set x" "Join '','' xs = Join '','' ys"
  shows "xs = ys"
proof (cases "xs = [] \<or> ys = []")
  case True
  with assms show ?thesis by (cases xs rule: remdups_adj.cases; cases ys rule: remdups_adj.cases) auto
next
  case False
  have "Split (CHR '','') (Join '','' xs) = xs" using False assms(1) by (intro Split_Join) auto
  moreover have "Split (CHR '','') (Join '','' ys) = ys" using False assms(1) by (intro Split_Join) auto
  ultimately show ?thesis using assms(2) by metis
qed

subsection \<open>Properties\<close>

definition ex_subnet :: "string \<Rightarrow> string \<Rightarrow> string \<Rightarrow> VpcSubnet" where
  "ex_subnet i n vpc = \<lparr>sub_AvailableIpv4AddressCount = 0, sub_CreatedAt = [], sub_ID = i, sub_IPVersion = [], sub_Ipv4CidrBlock = [],
     sub_Name = n, sub_NetworkACL = \<lparr>ref_ID = [], ref_Name = []\<rparr>, sub_PublicGateway = \<lparr>ref_ID = [], ref_Name = []\<rparr>,
     sub_ResourceGroup = \<lparr>ref_ID = [], ref_Name = []\<rparr>, sub_Status = [], sub_TotalIpv4AddressCount = 0,
     sub_Vpc = \<lparr>ref_ID = vpc, ref_Name = vpc\<rparr>, sub_Zone = []\<rparr>"

definition ex_subnet_service :: "string \<Rightarrow> Service" where
  "ex_subnet_service l = \<lparr>svc_Name = ''echo'', svc_Namespace = ''default'', svc_UID = ''1234'',
     svc_Annotations = [serviceAnnotationSubnets \<mapsto> l, serviceAnnotationNodeSelector \<mapsto> l], svc_Type = ''LoadBalancer'', svc_Ports = [],
     svc_ExternalTrafficPolicy = ''Cluster'', svc_HealthCheckNodePort = 0, svc_LoadBalancerClass = None,
     svc_AllocateLoadBalancerNodePorts = None, svc_Ingress = None\<rparr>"

text \<open>
  What an entry of the annotation stands for: the first subnet that has it as its ID, or that is in the VPC and has it as its name or its CIDR
  block; a subnet of another VPC that has it as its ID stands in the way.
\<close>

definition denotes :: "string \<Rightarrow> string \<Rightarrow> VpcSubnet \<Rightarrow> bool" where
  "denotes vpcID e subnet \<longleftrightarrow>
     e = sub_ID subnet \<or> ref_ID (sub_Vpc subnet) = vpcID \<and> (e = sub_Name subnet \<or> e = sub_Ipv4CidrBlock subnet)"

definition stands_for :: "string \<Rightarrow> VpcSubnet list \<Rightarrow> string \<Rightarrow> string option" where
  "stands_for vpcID subnets e =
     (case find (denotes vpcID e) subnets of
        None \<Rightarrow> None
      | Some subnet \<Rightarrow> if ref_ID (sub_Vpc subnet) = vpcID then Some (sub_ID subnet) else None)"

lemma matchSubnet_stands_for: "matchSubnet service vpcID e subnets = Inr (Some i) \<longleftrightarrow> stands_for vpcID subnets e = Some i"
  by (induction subnets) (auto simp: stands_for_def denotes_def)

lemma matched_subnets:
  "(\<forall>e \<in> set es. \<exists>i. matchSubnet service vpcID e subnets = Inr (Some i)) \<longleftrightarrow> (\<forall>e \<in> set es. stands_for vpcID subnets e \<noteq> None)"
  "resolved service vpcID subnets es = {i. \<exists>e \<in> set es. stands_for vpcID subnets e = Some i}"
  by (simp_all add: matchSubnet_stands_for resolved_def)

lemma validateServiceSubnets_ok:
  "(\<exists>ids. validateServiceSubnets ro service l vpcID subnets = Inr ids) \<longleftrightarrow>
   (\<forall>e \<in> set (Split (CHR '','') l). stands_for vpcID subnets e \<noteq> None)"
proof
  assume "\<exists>ids. validateServiceSubnets ro service l vpcID subnets = Inr ids"
  then obtain ks where "foldR (desiredSubnet_step service vpcID subnets) [] (Split (CHR '','') l) = Inr ks"
    by (auto simp: validateServiceSubnets_def)
  from desiredSubnets_fold[OF this] show "\<forall>e \<in> set (Split (CHR '','') l). stands_for vpcID subnets e \<noteq> None"
    unfolding matched_subnets(1) by simp
next
  assume "\<forall>e \<in> set (Split (CHR '','') l). stands_for vpcID subnets e \<noteq> None"
  then have "\<forall>e \<in> set (Split (CHR '','') l). \<exists>i. matchSubnet service vpcID e subnets = Inr (Some i)"
    unfolding matched_subnets(1) .
  from desiredSubnets_ok[OF this, of "[]"] show "\<exists>ids. validateServiceSubnets ro service l vpcID subnets = Inr ids"
    by (auto simp: validateServiceSubnets_def)
qed

text \<open>C21: The subnets annotation of a service: \<open>validateServiceSubnets\<close> succeeds exactly when every entry stands for a subnet, that is, the
  first subnet of the list that has the entry as its ID, or that lies in the VPC and has it as its name or its CIDR block (\<open>denotes\<close>), lies in
  that VPC. It then returns, in some order, the IDs of those subnets, each once, however many entries stand for it.\<close>

theorem service_subnets_resolved:
  assumes "range_order ro"
  shows "((\<exists>ids. validateServiceSubnets ro service l vpcID subnets = Inr ids) \<longleftrightarrow>
      (\<forall>e \<in> set (Split (CHR '','') l). stands_for vpcID subnets e \<noteq> None)) \<and>
    (\<forall>ids. validateServiceSubnets ro service l vpcID subnets = Inr ids \<longrightarrow> distinct ids \<and>
      set ids = {i. \<exists>e \<in> set (Split (CHR '','') l). stands_for vpcID subnets e = Some i} \<and>
      (\<forall>i \<in> set ids. \<exists>subnet \<in> set subnets. sub_ID subnet = i \<and> ref_ID (sub_Vpc subnet) = vpcID))"
proof (intro conjI allI impI)
  show "(\<exists>ids. validateServiceSubnets ro service l vpcID subnets = Inr ids) \<longleftrightarrow>
      (\<forall>e \<in> set (Split (CHR '','') l). stands_for vpcID subnets e \<noteq> None)"
    by (rule validateServiceSubnets_ok)
  fix ids assume ids: "validateServiceSubnets ro service l vpcID subnets = Inr ids"
  note Inr = validateServiceSubnets_Inr[OF ids assms]
  show "distinct ids" by (rule Inr(2))
  show "set ids = {i. \<exists>e \<in> set (Split (CHR '','') l). stands_for vpcID subnets e = Some i}" unfolding Inr(1) by (rule matched_subnets(2))
  have "set ids \<subseteq> sub_ID ` {subnet \<in> set subnets. ref_ID (sub_Vpc subnet) = vpcID}" unfolding Inr(1) by (rule resolved_in_vpc)
  then show "\<forall>i \<in> set ids. \<exists>subnet \<in> set subnets. sub_ID subnet = i \<and> ref_ID (sub_Vpc subnet) = vpcID" by blast
qed

text \<open>An entry by name, one by ID and one by CIDR block; the last two stand for the same subnet.\<close>

definition ex_subnets :: "VpcSubnet list" where
  "ex_subnets = [ex_subnet ''id1'' ''net1'' ''v'', (ex_subnet ''id2'' ''net2'' ''v'')\<lparr>sub_Ipv4CidrBlock := ''10.1.0.0/24''\<rparr>, ex_subnet ''id3'' ''net3'' ''w'']"

theorem service_subnets_resolved_witness:
  "(\<exists>ids. validateServiceSubnets rev (ex_subnet_service []) ''net1,id2,10.1.0.0/24'' ''v'' ex_subnets = Inr ids \<and> distinct ids \<and> set ids = {''id1'', ''id2''}) \<and>
   (\<nexists>ids. validateServiceSubnets rev (ex_subnet_service []) ''net1,id3'' ''v'' ex_subnets = Inr ids) \<and>
   (\<nexists>ids. validateServiceSubnets rev (ex_subnet_service []) ''net3'' ''v'' ex_subnets = Inr ids)"
proof -
  have entries: "Split (CHR '','') ''net1,id2,10.1.0.0/24'' = [''net1'', ''id2'', ''10.1.0.0/24'']" "Split (CHR '','') ''net1,id3'' = [''net1'', ''id3'']"
    "Split (CHR '','') ''net3'' = [''net3'']" by code_simp+
  have denoted: "stands_for ''v'' ex_subnets ''net1'' = Some ''id1''" "stands_for ''v'' ex_subnets ''id2'' = Some ''id2''"
    "stands_for ''v'' ex_subnets ''10.1.0.0/24'' = Some ''id2''" "stands_for ''v'' ex_subnets ''id3'' = None" "stands_for ''v'' ex_subnets ''net3'' = None"
    by code_simp+
  note resolves = service_subnets_resolved[OF range_order_rev, of "ex_subnet_service []" _ "''v''" ex_subnets]
  obtain ids where ids: "validateServiceSubnets rev (ex_subnet_service []) ''net1,id2,10.1.0.0/24'' ''v'' ex_subnets = Inr ids"
    using resolves[of "''net1,id2,10.1.0.0/24''"] by (auto simp: entries denoted)
  moreover have "distinct ids \<and> set ids = {''id1'', ''id2''}"
    using resolves[of "''net1,id2,10.1.0.0/24''"] ids by (auto simp: entries denoted)
  moreover have "\<nexists>ids. validateServiceSubnets rev (ex_subnet_service []) ''net1,id3'' ''v'' ex_subnets = Inr ids"
    "\<nexists>ids. validateServiceSubnets rev (ex_subnet_service []) ''net3'' ''v'' ex_subnets = Inr ids"
    using resolves[of "''net1,id3''"] resolves[of "''net3''"] by (simp_all add: entries denoted)
  ultimately show ?thesis by blast
qed

text \<open>C20: The check of the subnets annotation of an existing load balancer accepts in exactly two cases: the service has no such annotation (so its
  removal is not refused, which the code's test expects), or every entry stands for a subnet of the load balancer's VPC and these subnets are
  the set of subnets the load balancer has. So a changed annotation is refused, and the verdict depends neither on the iteration order of the map
  nor on the order or the repetition of entries. (IDs are not empty and have no commas; the load balancer lists each subnet once.)\<close>

theorem subnet_change_detected:
  assumes "range_order ro" "distinct (lb_getSubnetIDs lb)"
    and "\<forall>i \<in> set (lb_getSubnetIDs lb) \<union> sub_ID ` set subnets. i \<noteq> [] \<and> CHR '','' \<notin> set i"
  shows "validateServiceSubnetsNotUpdated ro service lb subnets = Inr () \<longleftrightarrow>
    getServiceSubnets service = [] \<or>
    (\<forall>e \<in> set (Split (CHR '','') (getServiceSubnets service)). stands_for (getVpcID lb subnets) subnets e \<noteq> None) \<and>
      {i. \<exists>e \<in> set (Split (CHR '','') (getServiceSubnets service)). stands_for (getVpcID lb subnets) subnets e = Some i} = set (lb_getSubnetIDs lb)"
proof (cases "getServiceSubnets service = []")
  case annotated: False
  note found = validateServiceSubnets_ok[of ro service "getServiceSubnets service" "getVpcID lb subnets" subnets]
  show ?thesis
  proof (cases "validateServiceSubnets ro service (getServiceSubnets service) (getVpcID lb subnets) subnets")
    case (Inl e)
    with annotated found show ?thesis by (simp add: validateServiceSubnetsNotUpdated_def Let_def)
  next
    case (Inr ids)
    note v = validateServiceSubnets_Inr[OF Inr assms(1)]
    have "set ids \<subseteq> sub_ID ` set subnets" unfolding v(1) using resolved_in_vpc by blast
    then have "\<forall>x \<in> set (sort_Strings ids) \<union> set (sort_Strings (lb_getSubnetIDs lb)). x \<noteq> [] \<and> CHR '','' \<notin> set x"
      using assms(3) by (auto simp: sort_Strings_def)
    then have "Join '','' (sort_Strings ids) = Join '','' (sort_Strings (lb_getSubnetIDs lb)) \<longleftrightarrow>
        sort_Strings ids = sort_Strings (lb_getSubnetIDs lb)"
      by (rule iffI[OF Join_inject arg_cong])
    also have "\<dots> \<longleftrightarrow> set ids = set (lb_getSubnetIDs lb)"
      using v(2) assms(2) by (simp add: sort_Strings_eq_iff set_eq_iff_mset_eq_distinct)
    finally have "validateServiceSubnetsNotUpdated ro service lb subnets = Inr () \<longleftrightarrow> set ids = set (lb_getSubnetIDs lb)"
      using annotated Inr by (simp add: validateServiceSubnetsNotUpdated_def Let_def lb_getSubnetIDs_def)
    with annotated found Inr show ?thesis unfolding v(1) matched_subnets(2) by blast
  qed
qed (simp add: validateServiceSubnetsNotUpdated_def)

definition ex_subnet_lb :: VpcLoadBalancer where
  "ex_subnet_lb = \<lparr>lb_CreatedAt = [], lb_Hostname = [], lb_ID = ''lb'', lb_IsPublic = True, lb_ListenerIDs = [], lb_Name = ''lb'',
     lb_OperatingStatus = [], lb_Pools = [], lb_PrivateIps = [], lb_ProfileFamily = [], lb_ProvisioningStatus = [], lb_PublicIps = [],
     lb_ResourceGroup = \<lparr>ref_ID = [], ref_Name = []\<rparr>,
     lb_Subnets = [\<lparr>ref_ID = ''id2'', ref_Name = ''net2''\<rparr>, \<lparr>ref_ID = ''id1'', ref_Name = ''net1''\<rparr>], lb_VpcID = []\<rparr>"

theorem subnet_change_detected_witness:
  "validateServiceSubnetsNotUpdated rev (ex_subnet_service ''net1, id2'') ex_subnet_lb ex_subnets = Inr () \<and>
   validateServiceSubnetsNotUpdated rev (ex_subnet_service ''net1'') ex_subnet_lb ex_subnets \<noteq> Inr () \<and>
   validateServiceSubnetsNotUpdated rev (ex_subnet_service []) ex_subnet_lb ex_subnets = Inr ()"
proof -
  have vpc: "getVpcID ex_subnet_lb ex_subnets = ''v''" "lb_getSubnetIDs ex_subnet_lb = [''id2'', ''id1'']" by code_simp+
  have lists: "getServiceSubnets (ex_subnet_service ''net1, id2'') = ''net1,id2''" "getServiceSubnets (ex_subnet_service ''net1'') = ''net1''"
    "getServiceSubnets (ex_subnet_service []) = []" by code_simp+
  have entries: "Split (CHR '','') ''net1,id2'' = [''net1'', ''id2'']" "Split (CHR '','') ''net1'' = [''net1'']" by code_simp+
  have denoted: "stands_for ''v'' ex_subnets ''net1'' = Some ''id1''" "stands_for ''v'' ex_subnets ''id2'' = Some ''id2''" by code_simp+
  have "\<forall>i \<in> set (lb_getSubnetIDs ex_subnet_lb) \<union> sub_ID ` set ex_subnets. i \<noteq> [] \<and> CHR '','' \<notin> set i"
    by (simp add: vpc ex_subnets_def ex_subnet_def)
  from subnet_change_detected[OF range_order_rev _ this] show ?thesis by (auto simp: vpc lists entries denoted)
qed

text \<open>C22: The node selector of a service: only labels of the allowed list select nodes, and an annotation \<open>label=value\<close> with such a label
  is read back as that label and value.\<close>

theorem node_selector_roundtrip:
  "(fst (getServiceNodeSelectorFilter service) \<noteq> [] \<longrightarrow> fst (getServiceNodeSelectorFilter service) \<in> set memberNodeLabelsAllowed) \<and>
   (label \<in> set memberNodeLabelsAllowed \<and> CHR ''='' \<notin> set v \<and> CHR '' '' \<notin> set v \<and>
     map_get (svc_Annotations service) serviceAnnotationNodeSelector = label @ ''='' @ v \<longrightarrow>
    getServiceNodeSelectorFilter service = (label, v))"
proof
  show "fst (getServiceNodeSelectorFilter service) \<noteq> [] \<longrightarrow> fst (getServiceNodeSelectorFilter service) \<in> set memberNodeLabelsAllowed"
    by (auto simp: getServiceNodeSelectorFilter_def Let_def list_ex_iff)
  have labels: "\<forall>label \<in> set memberNodeLabelsAllowed. CHR ''='' \<notin> set label \<and> CHR '' '' \<notin> set label" by code_simp
  show "label \<in> set memberNodeLabelsAllowed \<and> CHR ''='' \<notin> set v \<and> CHR '' '' \<notin> set v \<and>
     map_get (svc_Annotations service) serviceAnnotationNodeSelector = label @ ''='' @ v \<longrightarrow>
    getServiceNodeSelectorFilter service = (label, v)"
  proof
    assume a: "label \<in> set memberNodeLabelsAllowed \<and> CHR ''='' \<notin> set v \<and> CHR '' '' \<notin> set v \<and>
      map_get (svc_Annotations service) serviceAnnotationNodeSelector = label @ ''='' @ v"
    with labels have l: "CHR ''='' \<notin> set label" "CHR '' '' \<notin> set label" by auto
    have r: "RemoveAll (CHR '' '') (label @ ''='' @ v) = label @ ''='' @ v"
      unfolding RemoveAll_def by (rule filter_True) (use a l in auto)
    have "Split (CHR ''='') (label @ ''='' @ v) = [label, v]" using a l by (simp add: Split_append Split_single)
    with a r show "getServiceNodeSelectorFilter service = (label, v)"
      by (simp add: getServiceNodeSelectorFilter_def list_ex_iff)
  qed
qed

theorem node_selector_roundtrip_witness:
  "getServiceNodeSelectorFilter (ex_subnet_service ''kubernetes.io/os=linux'') = (''kubernetes.io/os'', ''linux'')"
proof -
  have "''kubernetes.io/os'' \<in> set memberNodeLabelsAllowed \<and> CHR ''='' \<notin> set ''linux'' \<and> CHR '' '' \<notin> set ''linux'' \<and>
      map_get (svc_Annotations (ex_subnet_service ''kubernetes.io/os=linux'')) serviceAnnotationNodeSelector =
        ''kubernetes.io/os'' @ ''='' @ ''linux''"
    by code_simp
  then show ?thesis
    using node_selector_roundtrip[of "ex_subnet_service ''kubernetes.io/os=linux''" "''kubernetes.io/os''" "''linux''"] by blast
qed

subsection \<open>Subnet names are matched as substrings\<close>

text \<open>
  \<open>filterSubnetsByName\<close> surrounds the configured list with commas but not the name it looks for: a subnet whose name is only a
  part of a configured name is selected, too.
\<close>

lemma subnet_name_substring:
  "filterSubnetsByName [ex_subnet ''id1'' ''net1'' ''v''] ''subnet10,other'' = [ex_subnet ''id1'' ''net1'' ''v'']"
  by code_simp

end
