(* ===== verification/Vpc_Sdk.thy ===== *)
theory Vpc_Sdk
  imports Vpc_Config
begin

section \<open>The SDK interface and the cloud object\<close>

text \<open>
  The Go interface \<open>CloudVpcSdk\<close> is a record of operations on a state \<open>'s\<close>: the state of the
  world behind the interface. \<open>'s\<close> is a parameter of every routine that uses the interface, so
  what is proved of those routines holds for any implementation: the mock of
  \<open>vpc_sdk_fake.go\<close>, the VPC client of \<open>vpc_sdk_gen2.go\<close>, or any other.
  \<open>Runtime\<close> holds what the sources take from the Go run time: the clock, sleeping, and the
  iteration order of maps.
\<close>

record 's CloudVpcSdk =
  sdk_CreateLoadBalancer ::
    "string \<Rightarrow> string list \<Rightarrow> string list \<Rightarrow> string list \<Rightarrow> ServiceOptions \<Rightarrow> ('s, VpcLoadBalancer) io"
  sdk_CreateLoadBalancerListener :: "string \<Rightarrow> string \<Rightarrow> string \<Rightarrow> ('s, VpcLoadBalancerListener) io"
  sdk_CreateLoadBalancerPool ::
    "string \<Rightarrow> string \<Rightarrow> string list \<Rightarrow> ServiceOptions \<Rightarrow> ('s, VpcLoadBalancerPool) io"
  sdk_CreateLoadBalancerPoolMember ::
    "string \<Rightarrow> string \<Rightarrow> string \<Rightarrow> string \<Rightarrow> ('s, VpcLoadBalancerPoolMember) io"
  sdk_DeleteLoadBalancer :: "string \<Rightarrow> ('s, unit) io"
  sdk_DeleteLoadBalancerListener :: "string \<Rightarrow> string \<Rightarrow> ('s, unit) io"
  sdk_DeleteLoadBalancerPool :: "string \<Rightarrow> string \<Rightarrow> ('s, unit) io"
  sdk_DeleteLoadBalancerPoolMember :: "string \<Rightarrow> string \<Rightarrow> string \<Rightarrow> ('s, unit) io"
  sdk_GetLoadBalancer :: "string \<Rightarrow> ('s, VpcLoadBalancer) io"
  sdk_GetSubnet :: "string \<Rightarrow> ('s, VpcSubnet) io"
  sdk_ListLoadBalancers :: "('s, VpcLoadBalancer list) io"
  sdk_ListLoadBalancerListeners :: "string \<Rightarrow> ('s, VpcLoadBalancerListener list) io"
  sdk_ListLoadBalancerPools :: "string \<Rightarrow> ('s, VpcLoadBalancerPool list) io"
  sdk_ListLoadBalancerPoolMembers :: "string \<Rightarrow> string \<Rightarrow> ('s, VpcLoadBalancerPoolMember list) io"
  sdk_ListSubnets :: "('s, VpcSubnet list) io"
  sdk_ReplaceLoadBalancerPoolMembers ::
    "string \<Rightarrow> string \<Rightarrow> string \<Rightarrow> string list \<Rightarrow> ('s, VpcLoadBalancerPoolMember list) io"
  sdk_UpdateLoadBalancerPool ::
    "string \<Rightarrow> string \<Rightarrow> VpcLoadBalancerPool \<Rightarrow> ServiceOptions \<Rightarrow> ('s, VpcLoadBalancerPool) io"

text \<open>Times and durations are in nanoseconds, as in Go.\<close>

record 's Runtime =
  rt_Now :: "'s \<Rightarrow> int"
  rt_Sleep :: "int \<Rightarrow> 's \<Rightarrow> 's"
  rt_range :: "'s \<Rightarrow> string list \<Rightarrow> string list"

text \<open>The main VPC object. The Kubernetes client it also holds is never used by the package.\<close>

record 's CloudVpc =
  vpc_Config :: ConfigVpc
  vpc_Sdk :: "'s CloudVpcSdk"
  vpc_Recorder :: "(Event \<Rightarrow> 's \<Rightarrow> 's) option"

text \<open>\<open>NewCloudVpcSdk\<close> chooses the implementation; the two constructors are arguments.\<close>

definition NewCloudVpcSdk ::
  "(ConfigVpc \<Rightarrow> ('s, 's CloudVpcSdk) io) \<Rightarrow> ('s, 's CloudVpcSdk) io \<Rightarrow> ConfigVpc \<Rightarrow> ('s, 's CloudVpcSdk) io" where
  "NewCloudVpcSdk newVpcSdkProvider newVpcSdkFake c =
     (if cfg_ProviderType c = VpcProviderTypeGen2 then newVpcSdkProvider c
      else if cfg_ProviderType c = VpcProviderTypeFake then newVpcSdkFake
      else raiseM (Err (''Invalid VPC ProviderType: '' @ cfg_ProviderType c)))"

text \<open>Prefix of the names the program gives to load balancers.\<close>

definition VpcLbNamePrefix :: string where
  "VpcLbNamePrefix = ''kube''"

subsection \<open>The contract of an SDK\<close>

text \<open>
  What the load-balancer routines rely on when they put identifiers into the text lines of an update plan: the SDK never
  panics, and the identifiers and addresses it lists are words (not empty, no white space). \<open>Inv\<close> is an invariant
  of the world behind the SDK that all its operations keep. The contract is met by the mock of \<open>Vpc_Fake\<close>.
\<close>

definition word_listener :: "VpcLoadBalancerListener \<Rightarrow> bool" where
  "word_listener listener \<longleftrightarrow> is_word (lsn_ID listener) \<and>
     (ref_Name (lsn_DefaultPool listener) = [] \<or> is_word (ref_Name (lsn_DefaultPool listener)))"

definition word_pool :: "VpcLoadBalancerPool \<Rightarrow> bool" where
  "word_pool pool \<longleftrightarrow> is_word (pool_ID pool) \<and>
     list_all (\<lambda>m. is_word (mem_ID m) \<and> is_word (mem_TargetIPAddress m)) (pool_Members pool)"

locale vpc_service =
  fixes sdk :: "'s CloudVpcSdk" and rt :: "'s Runtime" and Inv :: "'s \<Rightarrow> bool"
  assumes sdk_creates:
      "safe Inv (\<lambda>_. True) (sdk_CreateLoadBalancer sdk n nodes poolNames subnets options)"
      "safe Inv (\<lambda>_. True) (sdk_CreateLoadBalancerListener sdk i n j)"
      "safe Inv (\<lambda>_. True) (sdk_CreateLoadBalancerPool sdk i n nodes options)"
      "safe Inv (\<lambda>_. True) (sdk_CreateLoadBalancerPoolMember sdk i n j node)"
    and sdk_deletes:
      "safe Inv (\<lambda>_. True) (sdk_DeleteLoadBalancer sdk i)"
      "safe Inv (\<lambda>_. True) (sdk_DeleteLoadBalancerListener sdk i j)"
      "safe Inv (\<lambda>_. True) (sdk_DeleteLoadBalancerPool sdk i j)"
      "safe Inv (\<lambda>_. True) (sdk_DeleteLoadBalancerPoolMember sdk i j k)"
    and sdk_updates:
      "safe Inv (\<lambda>_. True) (sdk_ReplaceLoadBalancerPoolMembers sdk i n j nodes)"
      "safe Inv (\<lambda>_. True) (sdk_UpdateLoadBalancerPool sdk i n pool options)"
    and sdk_reads:
      "safe Inv (\<lambda>_. True) (sdk_GetLoadBalancer sdk i)"
      "safe Inv (\<lambda>_. True) (sdk_ListLoadBalancers sdk)"
      "safe Inv (\<lambda>_. True) (sdk_ListSubnets sdk)"
    and sdk_lists:
      "safe Inv (list_all word_listener) (sdk_ListLoadBalancerListeners sdk i)"
      "safe Inv (list_all word_pool) (sdk_ListLoadBalancerPools sdk i)"
    and sleep: "Inv s \<Longrightarrow> Inv (rt_Sleep rt d s)"

end
