(* ===== verification/Vpc_Lbaas.thy ===== *)
theory Vpc_Lbaas
  imports Vpc_Sdk "HOL-Library.Signed_Division"
begin

section \<open>Load-balancer operations (\<open>pkg/vpcctl/vpc_lbaas.go\<close>)\<close>

text \<open>
  Creating, finding, updating and deleting a VPC load balancer. An update is planned first: the
  differences between the Kubernetes service and the listeners, pools and pool members of the
  load balancer become a list of text lines, one per operation; then the lines are carried out
  one by one, after waiting for the load balancer to be ready before every line but the first.
  The routines that plan are here as the code has them, on text lines; \<open>Vpc_Plan\<close> relates them
  to typed operations.
\<close>

subsection \<open>Actions\<close>

definition actionCreateListener :: string where "actionCreateListener = ''CREATE-LISTENER''"
definition actionCreatePool :: string where "actionCreatePool = ''CREATE-POOL''"
definition actionCreatePoolMember :: string where "actionCreatePoolMember = ''CREATE-POOL-MEMBER''"
definition actionDeleteListener :: string where "actionDeleteListener = ''DELETE-LISTENER''"
definition actionDeletePool :: string where "actionDeletePool = ''DELETE-POOL''"
definition actionDeletePoolMember :: string where "actionDeletePoolMember = ''DELETE-POOL-MEMBER''"
definition actionReplacePoolMembers :: string where "actionReplacePoolMembers = ''REPLACE-POOL-MEMBERS''"
definition actionUpdatePool :: string where "actionUpdatePool = ''UPDATE-POOL''"
definition poolToBeDeleted :: string where "poolToBeDeleted = ''POOL-TO-BE-DELETED''"

lemmas action_defs =
  actionCreateListener_def actionCreatePool_def actionCreatePoolMember_def actionDeleteListener_def
  actionDeletePool_def actionDeletePoolMember_def actionReplacePoolMembers_def actionUpdatePool_def

text \<open>\<open>fmt.Sprintf("%s %s ...", ...)\<close>: the words of a line, one blank between two of them.\<close>

definition update_line :: "string list \<Rightarrow> string" where
  "update_line ws = Join '' '' ws"

subsection \<open>Merging pool-member updates\<close>

definition count_of :: "(string \<times> nat) list \<Rightarrow> string \<Rightarrow> nat" where
  "count_of poolUpdates poolName = (case map_of poolUpdates poolName of None \<Rightarrow> 0 | Some n \<Rightarrow> n)"

definition countPoolUpdate :: "(string \<times> nat) list \<Rightarrow> string \<Rightarrow> (string \<times> nat) list res" where
  "countPoolUpdate poolUpdates update =
     (let updateArgs = Fields update in
      bindR (index updateArgs 0) (\<lambda>cmd.
      bindR (index updateArgs 1) (\<lambda>poolName.
        if cmd = actionCreatePoolMember \<or> cmd = actionDeletePoolMember
        then Inr (AList.update poolName (count_of poolUpdates poolName + 1) poolUpdates)
        else Inr poolUpdates)))"

fun filterUpdates :: "(string \<times> nat) list \<Rightarrow> string list \<Rightarrow> string list res" where
  "filterUpdates poolUpdates [] = Inr []"
| "filterUpdates poolUpdates (update # rest) =
     (let updateArgs = Fields update in
      bindR (index updateArgs 0) (\<lambda>cmd.
        if cmd \<noteq> actionCreatePoolMember \<and> cmd \<noteq> actionDeletePoolMember
        then bindR (filterUpdates poolUpdates rest) (\<lambda>r. Inr (update # r))
        else
          bindR (index updateArgs 1) (\<lambda>poolName.
          bindR (index updateArgs 2) (\<lambda>poolID.
            if count_of poolUpdates poolName = 1
            then bindR (filterUpdates poolUpdates rest) (\<lambda>r. Inr (update # r))
            else if count_of poolUpdates poolName > 1
            then bindR (filterUpdates (AList.update poolName 0 poolUpdates) rest)
                   (\<lambda>r. Inr (update_line [actionReplacePoolMembers, poolName, poolID] # r))
            else filterUpdates poolUpdates rest))))"

definition checkForMultiplePoolMemberUpdates :: "string list \<Rightarrow> string list res" where
  "checkForMultiplePoolMemberUpdates updatesRequired =
     bindR (foldR countPoolUpdate [] updatesRequired) (\<lambda>poolUpdates.
       let filterNeeded = list_ex (\<lambda>(_, count). count > 1) poolUpdates in
       if \<not> filterNeeded then Inr updatesRequired
       else filterUpdates poolUpdates updatesRequired)"

subsection \<open>Comparing the service with the load balancer\<close>

definition checkListenersForExtPortAddedToService ::
  "string list \<Rightarrow> VpcLoadBalancerListener list \<Rightarrow> ServicePort \<Rightarrow> string list" where
  "checkListenersForExtPortAddedToService updatesRequired listeners servicePort =
     (if list_ex (isServicePortEqualListener servicePort) listeners then updatesRequired
      else updatesRequired @ [update_line [actionCreateListener, genLoadBalancerPoolName servicePort]])"

definition checkListenerForExtPortDeletedFromService ::
  "string list \<Rightarrow> VpcLoadBalancerListener \<Rightarrow> ServicePort list \<Rightarrow> string list" where
  "checkListenerForExtPortDeletedFromService updatesRequired listener ports =
     (if list_ex (\<lambda>kubePort. isServicePortEqualListener kubePort listener) ports then updatesRequired
      else
        let poolName = ref_Name (lsn_DefaultPool listener);
            poolName = (if poolName = [] then ''unknown'' else poolName)
        in updatesRequired @ [update_line [actionDeleteListener, poolName, lsn_ID listener]])"

fun poolFoundForPort :: "VpcLoadBalancerPool list \<Rightarrow> string \<Rightarrow> ServicePort \<Rightarrow> bool res" where
  "poolFoundForPort [] poolName servicePort = Inr False"
| "poolFoundForPort (pool # pools) poolName servicePort =
     (if pool_Name pool = poolName then Inr True
      else if pool_Name pool = poolToBeDeleted then poolFoundForPort pools poolName servicePort
      else bindR (extractFieldsFromPoolName (pool_Name pool)) (\<lambda>poolNameFields.
        if isServicePortEqualPoolName servicePort poolNameFields then Inr True
        else poolFoundForPort pools poolName servicePort))"

definition checkPoolsForExtPortAddedToService ::
  "string list \<Rightarrow> VpcLoadBalancerPool list \<Rightarrow> ServicePort \<Rightarrow> string list res" where
  "checkPoolsForExtPortAddedToService updatesRequired pools servicePort =
     (let poolName = genLoadBalancerPoolName servicePort in
      bindR (poolFoundForPort pools poolName servicePort) (\<lambda>found.
        if found then Inr updatesRequired
        else Inr (updatesRequired @ [update_line [actionCreatePool, poolName]])))"

text \<open>The pool is marked for deletion in place: the model returns the changed pool as well.\<close>

definition checkPoolForExtPortDeletedFromService ::
  "string list \<Rightarrow> VpcLoadBalancerPool \<Rightarrow> ServicePort list \<Rightarrow> (string list \<times> VpcLoadBalancerPool) res" where
  "checkPoolForExtPortDeletedFromService updatesRequired pool ports =
     bindR (extractFieldsFromPoolName (pool_Name pool)) (\<lambda>poolNameFields.
       if list_ex (\<lambda>kubePort. isServicePortEqualPoolName kubePort poolNameFields) ports
       then Inr (updatesRequired, pool)
       else Inr (updatesRequired @ [update_line [actionDeletePool, pool_Name pool, pool_ID pool]],
                 pool\<lparr>pool_Name := poolToBeDeleted\<rparr>))"

text \<open>Both node checks stop when the node port in the pool's name is not the service's.\<close>

definition nodePortChanged :: "VpcPoolNameFields \<Rightarrow> ServicePort list \<Rightarrow> bool" where
  "nodePortChanged poolNameFields ports =
     list_ex (\<lambda>kubePort. isServicePortEqualPoolName kubePort poolNameFields \<and>
       pnf_NodePort poolNameFields \<noteq> toInt (sp_NodePort kubePort)) ports"

definition checkPoolForNodesToAdd ::
  "string list \<Rightarrow> VpcLoadBalancerPool \<Rightarrow> ServicePort list \<Rightarrow> string list \<Rightarrow> string list res" where
  "checkPoolForNodesToAdd updatesRequired pool ports nodeList =
     (if pool_Name pool = poolToBeDeleted then Inr updatesRequired
      else bindR (extractFieldsFromPoolName (pool_Name pool)) (\<lambda>poolNameFields.
        if nodePortChanged poolNameFields ports then Inr updatesRequired
        else Inr (updatesRequired @
          map (\<lambda>nodeID. update_line [actionCreatePoolMember, pool_Name pool, pool_ID pool, nodeID])
            (filter (\<lambda>nodeID. \<not> list_ex (\<lambda>member. nodeID = mem_TargetIPAddress member \<and>
                pnf_NodePort poolNameFields = mem_Port member) (pool_Members pool)) nodeList))))"

definition checkPoolForNodesToDelete ::
  "string list \<Rightarrow> VpcLoadBalancerPool \<Rightarrow> ServicePort list \<Rightarrow> string list \<Rightarrow> string list res" where
  "checkPoolForNodesToDelete updatesRequired pool ports nodeList =
     (if pool_Name pool = poolToBeDeleted then Inr updatesRequired
      else bindR (extractFieldsFromPoolName (pool_Name pool)) (\<lambda>poolNameFields.
        if nodePortChanged poolNameFields ports then Inr updatesRequired
        else
          let nodeString = '' '' @ Join '' '' nodeList @ '' '' in
          Inr (updatesRequired @
            map (\<lambda>member. update_line [actionDeletePoolMember, pool_Name pool, pool_ID pool,
                  mem_ID member, mem_TargetIPAddress member])
              (filter (\<lambda>member. \<not> Contains nodeString ('' '' @ mem_TargetIPAddress member @ '' '') \<or>
                  pnf_NodePort poolNameFields \<noteq> mem_Port member) (pool_Members pool)))))"

text \<open>The \<open>switch\<close> of \<open>checkPoolForServiceChanges\<close>: (update the pool, replace its members).\<close>

definition poolChangesNeeded :: "VpcLoadBalancerPool \<Rightarrow> Service \<Rightarrow> ServicePort \<Rightarrow> bool \<times> bool" where
  "poolChangesNeeded pool service kubePort =
     (let poolName = genLoadBalancerPoolName kubePort;
          options = getServiceOptions (Some service);
          proxyProtocolRequested = isProxyProtocol options;
          hm = pool_HealthMonitor pool
      in if poolName \<noteq> pool_Name pool then (True, True)
         else if svc_ExternalTrafficPolicy service = TrafficPolicyLocal \<and>
             sint (svc_HealthCheckNodePort service) > 0 \<and>
             (hm_Type hm \<noteq> LoadBalancerProtocolHTTP \<or>
              hm_Port hm \<noteq> toInt (svc_HealthCheckNodePort service)) then (True, False)
         else if svc_ExternalTrafficPolicy service = TrafficPolicyCluster \<and>
             (hm_Type hm \<noteq> LoadBalancerProtocolTCP \<or>
              hm_Port hm \<noteq> toInt (sp_NodePort kubePort)) then (True, False)
         else if proxyProtocolRequested \<and> pool_ProxyProtocol pool \<noteq> LoadBalancerProxyProtocolV1
         then (True, False)
         else if \<not> proxyProtocolRequested \<and> pool_ProxyProtocol pool \<noteq> LoadBalancerProxyProtocolDisabled
         then (True, False)
         else (False, False))"

definition checkPoolForServiceChanges ::
  "string list \<Rightarrow> VpcLoadBalancerPool \<Rightarrow> Service \<Rightarrow> string list res" where
  "checkPoolForServiceChanges updatesRequired pool service =
     (if pool_Name pool = poolToBeDeleted then Inr updatesRequired
      else bindR (extractFieldsFromPoolName (pool_Name pool)) (\<lambda>poolNameFields.
        case find (\<lambda>kubePort. isServicePortEqualPoolName kubePort poolNameFields) (svc_Ports service) of
          None \<Rightarrow> Inr updatesRequired
        | Some kubePort \<Rightarrow>
            let poolName = genLoadBalancerPoolName kubePort;
                (updatePool, replacePoolMembers) = poolChangesNeeded pool service kubePort
            in Inr (updatesRequired
                 @ (if updatePool then [update_line [actionUpdatePool, poolName, pool_ID pool]] else [])
                 @ (if replacePoolMembers
                    then [update_line [actionReplacePoolMembers, poolName, pool_ID pool]] else []))))"

subsection \<open>Planning an update: steps 1 to 8 of \<open>UpdateLoadBalancer\<close>\<close>

fun markDeletedPools ::
  "string list \<Rightarrow> VpcLoadBalancerPool list \<Rightarrow> ServicePort list \<Rightarrow> (string list \<times> VpcLoadBalancerPool list) res" where
  "markDeletedPools updatesRequired [] ports = Inr (updatesRequired, [])"
| "markDeletedPools updatesRequired (pool # pools) ports =
     bindR (checkPoolForExtPortDeletedFromService updatesRequired pool ports) (\<lambda>(updatesRequired', pool').
     bindR (markDeletedPools updatesRequired' pools ports) (\<lambda>(updatesRequired'', pools').
     Inr (updatesRequired'', pool' # pools')))"

definition planUpdates ::
  "VpcLoadBalancerListener list \<Rightarrow> VpcLoadBalancerPool list \<Rightarrow> Service \<Rightarrow> string list \<Rightarrow>
   (string list \<times> VpcLoadBalancerPool list) res" where
  "planUpdates listeners pools0 service nodeList =
     (let ports = svc_Ports service;
          u1 = fold (\<lambda>listener u. checkListenerForExtPortDeletedFromService u listener ports) listeners []
      in
      bindR (markDeletedPools u1 pools0 ports) (\<lambda>(u2, pools).
      bindR (foldR (\<lambda>u pool. checkPoolForNodesToDelete u pool ports nodeList) u2 pools) (\<lambda>u3.
      bindR (foldR (\<lambda>u pool. checkPoolForServiceChanges u pool service) u3 pools) (\<lambda>u4.
      bindR (foldR (\<lambda>u pool. checkPoolForNodesToAdd u pool ports nodeList) u4 pools) (\<lambda>u5.
      bindR (foldR (\<lambda>u servicePort.
               bindR (checkPoolsForExtPortAddedToService u pools servicePort) (\<lambda>u'.
               Inr (checkListenersForExtPortAddedToService u' listeners servicePort))) u5 ports) (\<lambda>u6.
      bindR (checkForMultiplePoolMemberUpdates u6) (\<lambda>updatesRequired.
      Inr (updatesRequired, pools))))))))"

subsection \<open>Carrying out one line\<close>

abbreviation missing_argument :: go_err where
  "missing_argument \<equiv> Err ''Required argument is missing''"

abbreviation nil_dereference :: go_err where
  "nil_dereference \<equiv> Panic ''invalid memory address or nil pointer dereference''"

definition createLoadBalancerListener ::
  "'s CloudVpcSdk \<Rightarrow> VpcLoadBalancer option \<Rightarrow> string \<Rightarrow> ('s, unit) io" where
  "createLoadBalancerListener sdk lb poolName =
     (case lb of
        None \<Rightarrow> raiseM nil_dereference
      | Some lb \<Rightarrow>
          let poolID = (case find (\<lambda>pool. poolName = ref_Name pool) (lb_Pools lb) of
                          Some pool \<Rightarrow> ref_ID pool | None \<Rightarrow> [])
          in if poolID = []
             then raiseM (Err (''Unable to create listener. Pool '' @ poolName @ '' not found''))
             else bindM (sdk_CreateLoadBalancerListener sdk (lb_ID lb) poolName poolID) (\<lambda>_. returnM ()))"

definition createLoadBalancerPool ::
  "'s CloudVpcSdk \<Rightarrow> VpcLoadBalancer option \<Rightarrow> string \<Rightarrow> string list \<Rightarrow> ServiceOptions \<Rightarrow> ('s, unit) io" where
  "createLoadBalancerPool sdk lb poolName nodeList options =
     (case lb of
        None \<Rightarrow> raiseM nil_dereference
      | Some lb \<Rightarrow>
          bindM (sdk_CreateLoadBalancerPool sdk (lb_ID lb) poolName nodeList options) (\<lambda>_. returnM ()))"

definition createLoadBalancerPoolMember ::
  "'s CloudVpcSdk \<Rightarrow> VpcLoadBalancer option \<Rightarrow> string \<Rightarrow> ('s, unit) io" where
  "createLoadBalancerPoolMember sdk lb args =
     (let argsArray = Fields args in
      case lb of
        None \<Rightarrow> raiseM missing_argument
      | Some lb \<Rightarrow>
          if length argsArray \<noteq> 3 then raiseM missing_argument
          else
            let poolName = argsArray ! 0; poolID = argsArray ! 1; nodeID = argsArray ! 2 in
            bindM (sdk_CreateLoadBalancerPoolMember sdk (lb_ID lb) poolName poolID nodeID) (\<lambda>_. returnM ()))"

definition deleteLoadBalancerListener ::
  "'s CloudVpcSdk \<Rightarrow> VpcLoadBalancer option \<Rightarrow> string \<Rightarrow> ('s, unit) io" where
  "deleteLoadBalancerListener sdk lb args =
     (let argsArray = Fields args in
      case lb of
        None \<Rightarrow> raiseM missing_argument
      | Some lb \<Rightarrow>
          if length argsArray \<noteq> 2 then raiseM missing_argument
          else sdk_DeleteLoadBalancerListener sdk (lb_ID lb) (argsArray ! 1))"

definition deleteLoadBalancerPool ::
  "'s CloudVpcSdk \<Rightarrow> VpcLoadBalancer option \<Rightarrow> string \<Rightarrow> ('s, unit) io" where
  "deleteLoadBalancerPool sdk lb args =
     (let argsArray = Fields args in
      case lb of
        None \<Rightarrow> raiseM missing_argument
      | Some lb \<Rightarrow>
          if length argsArray \<noteq> 2 then raiseM missing_argument
          else sdk_DeleteLoadBalancerPool sdk (lb_ID lb) (argsArray ! 1))"

definition deleteLoadBalancerPoolMember ::
  "'s CloudVpcSdk \<Rightarrow> VpcLoadBalancer option \<Rightarrow> string \<Rightarrow> ('s, unit) io" where
  "deleteLoadBalancerPoolMember sdk lb args =
     (let argsArray = Fields args in
      case lb of
        None \<Rightarrow> raiseM missing_argument
      | Some lb \<Rightarrow>
          if length argsArray \<noteq> 4 then raiseM missing_argument
          else sdk_DeleteLoadBalancerPoolMember sdk (lb_ID lb) (argsArray ! 1) (argsArray ! 2))"

definition replaceLoadBalancerPoolMembers ::
  "'s CloudVpcSdk \<Rightarrow> VpcLoadBalancer option \<Rightarrow> string \<Rightarrow> string list \<Rightarrow> ('s, unit) io" where
  "replaceLoadBalancerPoolMembers sdk lb args nodeList =
     (let argsArray = Fields args in
      case lb of
        None \<Rightarrow> raiseM missing_argument
      | Some lb \<Rightarrow>
          if length argsArray \<noteq> 2 then raiseM missing_argument
          else bindM (sdk_ReplaceLoadBalancerPoolMembers sdk (lb_ID lb) (argsArray ! 0) (argsArray ! 1) nodeList)
                 (\<lambda>_. returnM ()))"

definition updateLoadBalancerPool ::
  "'s CloudVpcSdk \<Rightarrow> VpcLoadBalancer option \<Rightarrow> string \<Rightarrow> VpcLoadBalancerPool list \<Rightarrow> ServiceOptions \<Rightarrow>
   ('s, unit) io" where
  "updateLoadBalancerPool sdk lb args pools options =
     (let argsArray = Fields args in
      case lb of
        None \<Rightarrow> raiseM missing_argument
      | Some lb \<Rightarrow>
          if length argsArray \<noteq> 2 then raiseM missing_argument
          else
            let poolName = argsArray ! 0; poolID = argsArray ! 1 in
            case find (\<lambda>pool. pool_ID pool = poolID) pools of
              None \<Rightarrow> raiseM (Err (''Existing pool nof found for pool ID: '' @ poolID))
            | Some existingPool \<Rightarrow>
                bindM (sdk_UpdateLoadBalancerPool sdk (lb_ID lb) poolName existingPool options)
                  (\<lambda>_. returnM ()))"

definition processUpdate ::
  "'s CloudVpcSdk \<Rightarrow> VpcLoadBalancer \<Rightarrow> string list \<Rightarrow> VpcLoadBalancerPool list \<Rightarrow> ServiceOptions \<Rightarrow>
   string \<Rightarrow> ('s, unit) io" where
  "processUpdate sdk lb nodeList pools options update =
     bindM (liftM (index (Fields update) 0)) (\<lambda>action.
       let args = TrimSpace (TrimPrefix update action) in
       if action = actionCreateListener then createLoadBalancerListener sdk (Some lb) args
       else if action = actionCreatePool then createLoadBalancerPool sdk (Some lb) args nodeList options
       else if action = actionCreatePoolMember then createLoadBalancerPoolMember sdk (Some lb) args
       else if action = actionDeleteListener then deleteLoadBalancerListener sdk (Some lb) args
       else if action = actionDeletePool then deleteLoadBalancerPool sdk (Some lb) args
       else if action = actionDeletePoolMember then deleteLoadBalancerPoolMember sdk (Some lb) args
       else if action = actionUpdatePool then updateLoadBalancerPool sdk (Some lb) args pools options
       else if action = actionReplacePoolMembers then replaceLoadBalancerPoolMembers sdk (Some lb) args nodeList
       else raiseM (Err (''Unsupported update operation: '' @ update)))"

subsection \<open>Waiting for the load balancer\<close>

definition second :: int where "second = 1000000000"

fun waitLoop ::
  "'s Runtime \<Rightarrow> 's CloudVpcSdk \<Rightarrow> string \<Rightarrow> int \<Rightarrow> int \<Rightarrow> int \<Rightarrow> nat \<Rightarrow> VpcLoadBalancer \<Rightarrow> ('s, VpcLoadBalancer) io" where
  "waitLoop rt sdk lbID startTime minSleep maxWait 0 lb s =
     (Inl (Err (''load balancer not ready: '' @ GetStatus lb)), s)"
| "waitLoop rt sdk lbID startTime minSleep maxWait (Suc n) lb s =
     (if IsReady lb then (Inr lb, s)
      else if rt_Now rt s - startTime > maxWait * second
      then (Inl (Err (''load balancer not ready: '' @ GetStatus lb)), s)
      else bindM (sdk_GetLoadBalancer sdk lbID)
             (waitLoop rt sdk lbID startTime minSleep maxWait n) (rt_Sleep rt (second * minSleep) s))"

definition WaitLoadBalancerReady ::
  "'s Runtime \<Rightarrow> 's CloudVpcSdk \<Rightarrow> VpcLoadBalancer \<Rightarrow> int \<Rightarrow> int \<Rightarrow> ('s, VpcLoadBalancer) io" where
  "WaitLoadBalancerReady rt sdk lb minSleep maxWait s =
     (if minSleep = 0 then (Inl (Panic ''integer divide by zero''), s)
      else waitLoop rt sdk (lb_ID lb) (rt_Now rt s) minSleep maxWait (nat (maxWait sdiv minSleep)) lb s)"

subsection \<open>The update loop\<close>

definition refreshLoadBalancer ::
  "'s Runtime \<Rightarrow> 's CloudVpcSdk \<Rightarrow> VpcLoadBalancer \<Rightarrow> ('s, VpcLoadBalancer) io" where
  "refreshLoadBalancer rt sdk lb =
     (let maxWaitTime = 2 * 60; minSleepTime = 8 in
      bindM (sdk_GetLoadBalancer sdk (lb_ID lb)) (\<lambda>lb.
        if \<not> IsReady lb then WaitLoadBalancerReady rt sdk lb minSleepTime maxWaitTime
        else returnM lb))"

fun processUpdates ::
  "'s Runtime \<Rightarrow> 's CloudVpcSdk \<Rightarrow> string list \<Rightarrow> VpcLoadBalancerPool list \<Rightarrow> ServiceOptions \<Rightarrow>
   nat \<Rightarrow> VpcLoadBalancer \<Rightarrow> string list \<Rightarrow> ('s, VpcLoadBalancer) io" where
  "processUpdates rt sdk nodeList pools options i lb [] = returnM lb"
| "processUpdates rt sdk nodeList pools options i lb (update # updates) =
     bindM (if i > 0 then refreshLoadBalancer rt sdk lb else returnM lb) (\<lambda>lb.
     bindM (processUpdate sdk lb nodeList pools options update) (\<lambda>_.
     processUpdates rt sdk nodeList pools options (Suc i) lb updates))"

definition selectNodes :: "Service \<Rightarrow> string \<Rightarrow> Node list \<Rightarrow> Node list" where
  "selectNodes service serviceZone nodes =
     (let (filterLabel, filterValue) = getServiceNodeSelectorFilter service in
      if filterLabel \<noteq> [] then findNodesMatchingLabelValue nodes filterLabel filterValue
      else filterNodesByEdgeLabel (filterNodesByZone nodes serviceZone))"

definition UpdateLoadBalancer ::
  "'s Runtime \<Rightarrow> 's CloudVpc \<Rightarrow> VpcLoadBalancer option \<Rightarrow> Service option \<Rightarrow> Node list option \<Rightarrow>
   ('s, VpcLoadBalancer) io" where
  "UpdateLoadBalancer rt c lb service nodes s =
     (let sdk = vpc_Sdk c in
      case (lb, service, nodes) of
        (Some lb, Some service, Some nodes) \<Rightarrow>
          if \<not> IsReady lb
          then (Inl (Err (''Update can not be performed, load balancer is not ready: '' @ GetStatus lb)), s)
          else
          bindM (liftM (validateService service)) (\<lambda>options.
          bindM (liftM (validateServiceTypeNotUpdated options lb)) (\<lambda>_.
          bindM (sdk_ListSubnets sdk) (\<lambda>vpcSubnets s.
          bindM (liftM (validateServiceSubnetsNotUpdated (rt_range rt s) service lb vpcSubnets)) (\<lambda>_.
            let nodes = selectNodes service (getServiceZone options) nodes in
            if length nodes = 0
            then raiseM (Err ''There are no available nodes for this load balancer'')
            else
            bindM (sdk_ListLoadBalancerListeners sdk (lb_ID lb)) (\<lambda>listeners.
            bindM (sdk_ListLoadBalancerPools sdk (lb_ID lb)) (\<lambda>pools0.
              let nodeList = getNodeIDs nodes in
              bindM (liftM (planUpdates listeners pools0 service nodeList)) (\<lambda>(updatesRequired, pools).
              if length updatesRequired = 0 then returnM lb
              else processUpdates rt sdk nodeList pools options 0 lb updatesRequired)))) s))) s
      | _ \<Rightarrow> (Inl missing_argument, s))"

subsection \<open>Creating, finding, deleting\<close>

definition CreateLoadBalancer ::
  "'s Runtime \<Rightarrow> 's CloudVpc \<Rightarrow> string \<Rightarrow> Service option \<Rightarrow> Node list option \<Rightarrow> ('s, VpcLoadBalancer) io" where
  "CreateLoadBalancer rt c lbName service nodes s =
     (let sdk = vpc_Sdk c; config = vpc_Config c in
      case (service, nodes) of
        (Some service, Some nodes) \<Rightarrow>
          if lbName = [] then (Inl missing_argument, s)
          else
          bindM (liftM (validateService service)) (\<lambda>options.
          bindM (sdk_ListSubnets sdk) (\<lambda>allSubnets s.
            let vpcSubnets = filterSubnetsByVpcName allSubnets (cfg_VpcName config);
                clusterSubnets = filterSubnetsByName vpcSubnets (cfg_SubnetNames config)
            in case clusterSubnets of
              [] \<Rightarrow> (Inl (Err (''None of the configured VPC subnets ('' @ cfg_SubnetNames config @
                              '') were found'')), s)
            | firstSubnet # _ \<Rightarrow>
                let serviceSubnets = options_getServiceSubnets options;
                    serviceZone = getServiceZone options
                in
                bindM (liftM
                  (if serviceSubnets \<noteq> []
                   then validateServiceSubnets (rt_range rt s) service serviceSubnets
                          (ref_ID (sub_Vpc firstSubnet)) vpcSubnets
                   else if serviceZone \<noteq> [] then validateServiceZone service serviceZone clusterSubnets
                   else Inr (getSubnetIDs clusterSubnets))) (\<lambda>subnetList.
                let nodes = selectNodes service serviceZone nodes in
                if length nodes = 0
                then raiseM (Err ''There are no available nodes for this service'')
                else
                  let nodeList = getNodeIDs nodes in
                  bindM (liftM (getServicePoolNames (Some service))) (\<lambda>poolList.
                  sdk_CreateLoadBalancer sdk lbName nodeList poolList subnetList options)) s)) s
      | _ \<Rightarrow> (Inl missing_argument, s))"

definition DeleteLoadBalancer ::
  "'s CloudVpc \<Rightarrow> VpcLoadBalancer option \<Rightarrow> ('s, unit) io" where
  "DeleteLoadBalancer c lb =
     (case lb of
        None \<Rightarrow> raiseM missing_argument
      | Some lb \<Rightarrow> sdk_DeleteLoadBalancer (vpc_Sdk c) (lb_ID lb))"

definition FindLoadBalancer :: "'s CloudVpc \<Rightarrow> string \<Rightarrow> ('s, VpcLoadBalancer option) io" where
  "FindLoadBalancer c nameID =
     (if nameID = [] then raiseM missing_argument
      else bindM (sdk_ListLoadBalancers (vpc_Sdk c)) (\<lambda>lbs.
        returnM (find (\<lambda>lb. nameID = lb_ID lb \<or> nameID = lb_Name lb \<or> nameID = lb_Hostname lb) lbs)))"

definition GetLoadBalancerStatus :: "VpcLoadBalancer \<Rightarrow> LoadBalancerStatus" where
  "GetLoadBalancerStatus lb = [\<lparr>ing_Hostname = lb_Hostname lb, ing_IP = []\<rparr>]"

end
