(* ===== verification/Vpc_Fake.thy ===== *)
theory Vpc_Fake
  imports Vpc_Sdk
begin

section \<open>The mock SDK (\<open>pkg/vpcctl/vpc_sdk_fake.go\<close>)\<close>

text \<open>
  The mock implementation of the SDK interface: it answers from fixed objects and fails where an error has been set.
  The state is the mock object; the record can be extended, so that a state of the world can hold more than the mock.
  A nil entry of the error map is the same as a missing one. The mock hands out pointers to its own objects;
  the model hands out their values.
\<close>

record VpcSdkFake =
  fake_Error :: "string \<rightharpoonup> string"
  fake_LoadBalancerReady :: VpcLoadBalancer
  fake_LoadBalancerNotReady :: VpcLoadBalancer
  fake_Listener :: VpcLoadBalancerListener
  fake_Pool :: VpcLoadBalancerPool
  fake_Member1 :: VpcLoadBalancerPoolMember
  fake_Member2 :: VpcLoadBalancerPoolMember
  fake_Subnet1 :: VpcSubnet
  fake_Subnet2 :: VpcSubnet

definition no_ref :: VpcObjectReference where
  "no_ref = \<lparr>ref_ID = [], ref_Name = []\<rparr>"

definition fake_lbReady :: VpcLoadBalancer where
  "fake_lbReady = \<lparr>lb_CreatedAt = [], lb_Hostname = ''lb.ibm.com'', lb_ID = ''Ready'', lb_IsPublic = True,
     lb_ListenerIDs = [], lb_Name = VpcLbNamePrefix @ ''-clusterID-Ready'',
     lb_OperatingStatus = LoadBalancerOperatingStatusOnline, lb_Pools = [\<lparr>ref_ID = [], ref_Name = ''tcp-80-30303''\<rparr>],
     lb_PrivateIps = [''10.0.0.1'', ''10.0.0.2''], lb_ProfileFamily = [],
     lb_ProvisioningStatus = LoadBalancerProvisioningStatusActive, lb_PublicIps = [''192.168.0.1'', ''192.168.0.2''],
     lb_ResourceGroup = no_ref, lb_Subnets = [\<lparr>ref_ID = ''1111'', ref_Name = ''subnet1''\<rparr>], lb_VpcID = []\<rparr>"

definition fake_lbNotReady :: VpcLoadBalancer where
  "fake_lbNotReady = \<lparr>lb_CreatedAt = [], lb_Hostname = ''notready.lb.ibm.com'', lb_ID = ''NotReady'', lb_IsPublic = True,
     lb_ListenerIDs = [], lb_Name = VpcLbNamePrefix @ ''-clusterID-NotReady'',
     lb_OperatingStatus = LoadBalancerOperatingStatusOffline, lb_Pools = [\<lparr>ref_ID = [], ref_Name = ''tcp-80-30303''\<rparr>],
     lb_PrivateIps = [''10.0.0.1'', ''10.0.0.2''], lb_ProfileFamily = [],
     lb_ProvisioningStatus = LoadBalancerProvisioningStatusCreatePending, lb_PublicIps = [''192.168.0.1'', ''192.168.0.2''],
     lb_ResourceGroup = no_ref, lb_Subnets = [\<lparr>ref_ID = ''2222'', ref_Name = ''subnet2''\<rparr>], lb_VpcID = []\<rparr>"

definition fake_listener :: VpcLoadBalancerListener where
  "fake_listener = \<lparr>lsn_ConnectionLimit = 0, lsn_DefaultPool = \<lparr>ref_ID = [], ref_Name = ''tcp-80-30303''\<rparr>,
     lsn_ID = ''listener'', lsn_Port = 80, lsn_Protocol = LoadBalancerProtocolTCP,
     lsn_ProvisioningStatus = LoadBalancerProvisioningStatusActive\<rparr>"

definition fake_member :: "string \<Rightarrow> VpcLoadBalancerPoolMember" where
  "fake_member target = \<lparr>mem_Health = ''ok'', mem_ID = ''memberID'', mem_Port = 30303,
     mem_ProvisioningStatus = LoadBalancerProvisioningStatusActive, mem_TargetIPAddress = target,
     mem_TargetInstanceID = [], mem_Weight = 50\<rparr>"

definition fake_pool :: VpcLoadBalancerPool where
  "fake_pool = \<lparr>pool_Algorithm = LoadBalancerAlgorithmRoundRobin,
     pool_HealthMonitor = \<lparr>hm_Delay = 0, hm_MaxRetries = 3, hm_Port = 30303, hm_Timeout = 3,
       hm_Type = LoadBalancerProtocolTCP, hm_URLPath = ''/''\<rparr>,
     pool_ID = ''poolID'', pool_Members = [fake_member ''192.168.1.1'', fake_member ''192.168.2.2''],
     pool_Name = ''tcp-80-30303'', pool_Protocol = LoadBalancerProtocolTCP,
     pool_ProvisioningStatus = LoadBalancerProvisioningStatusActive, pool_ProxyProtocol = [],
     pool_SessionPersistence = ''None''\<rparr>"

definition fake_subnet1 :: VpcSubnet where
  "fake_subnet1 = \<lparr>sub_AvailableIpv4AddressCount = 246, sub_CreatedAt = [], sub_ID = ''subnetID'', sub_IPVersion = ''ipv4'',
     sub_Ipv4CidrBlock = ''10.240.0.0/24'', sub_Name = ''subnet1'', sub_NetworkACL = no_ref, sub_PublicGateway = no_ref,
     sub_ResourceGroup = no_ref, sub_Status = ''available'', sub_TotalIpv4AddressCount = 256,
     sub_Vpc = \<lparr>ref_ID = ''vpcID'', ref_Name = ''vpc''\<rparr>, sub_Zone = ''us-south-1''\<rparr>"

definition fake_subnet2 :: VpcSubnet where
  "fake_subnet2 = \<lparr>sub_AvailableIpv4AddressCount = 0, sub_CreatedAt = [], sub_ID = ''subnetVpc2'', sub_IPVersion = [],
     sub_Ipv4CidrBlock = [], sub_Name = ''subnetVpc2'', sub_NetworkACL = no_ref, sub_PublicGateway = no_ref,
     sub_ResourceGroup = no_ref, sub_Status = [], sub_TotalIpv4AddressCount = 0,
     sub_Vpc = \<lparr>ref_ID = ''vpc2ID'', ref_Name = ''vpc2''\<rparr>, sub_Zone = ''us-south-2''\<rparr>"

definition NewVpcSdkFake :: VpcSdkFake where
  "NewVpcSdkFake = \<lparr>fake_Error = Map.empty, fake_LoadBalancerReady = fake_lbReady,
     fake_LoadBalancerNotReady = fake_lbNotReady, fake_Listener = fake_listener, fake_Pool = fake_pool,
     fake_Member1 = fake_member ''192.168.1.1'', fake_Member2 = fake_member ''192.168.2.2'',
     fake_Subnet1 = fake_subnet1, fake_Subnet2 = fake_subnet2\<rparr>"

definition ClearFakeSdkError :: "string \<Rightarrow> 'z VpcSdkFake_scheme \<Rightarrow> 'z VpcSdkFake_scheme" where
  "ClearFakeSdkError methodName v = v\<lparr>fake_Error := (fake_Error v)(methodName := None)\<rparr>"

definition SetFakeSdkError :: "string \<Rightarrow> 'z VpcSdkFake_scheme \<Rightarrow> 'z VpcSdkFake_scheme" where
  "SetFakeSdkError methodName v = v\<lparr>fake_Error := (fake_Error v)(methodName \<mapsto> methodName @ '' failed'')\<rparr>"

text \<open>Every method first looks up its error, then answers from the objects.\<close>

definition fake_call :: "string \<Rightarrow> ('z VpcSdkFake_scheme \<Rightarrow> 'a) \<Rightarrow> ('z VpcSdkFake_scheme, 'a) io" where
  "fake_call methodName answer v =
     (case fake_Error v methodName of Some e \<Rightarrow> (Inl (Err e), v) | None \<Rightarrow> (Inr (answer v), v))"

definition fake_CreateLoadBalancer ::
  "string \<Rightarrow> string list \<Rightarrow> string list \<Rightarrow> string list \<Rightarrow> ServiceOptions \<Rightarrow> ('z VpcSdkFake_scheme, VpcLoadBalancer) io" where
  "fake_CreateLoadBalancer lbName nodeList poolList subnetList options =
     fake_call ''CreateLoadBalancer'' (\<lambda>v.
       if HasSuffix lbName ''-Ready'' then fake_LoadBalancerReady v else fake_LoadBalancerNotReady v)"

definition fake_CreateLoadBalancerListener ::
  "string \<Rightarrow> string \<Rightarrow> string \<Rightarrow> ('z VpcSdkFake_scheme, VpcLoadBalancerListener) io" where
  "fake_CreateLoadBalancerListener lbID poolName poolID = fake_call ''CreateLoadBalancerListener'' fake_Listener"

definition fake_CreateLoadBalancerPool ::
  "string \<Rightarrow> string \<Rightarrow> string list \<Rightarrow> ServiceOptions \<Rightarrow> ('z VpcSdkFake_scheme, VpcLoadBalancerPool) io" where
  "fake_CreateLoadBalancerPool lbID poolName nodeList options = fake_call ''CreateLoadBalancerPool'' fake_Pool"

definition fake_CreateLoadBalancerPoolMember ::
  "string \<Rightarrow> string \<Rightarrow> string \<Rightarrow> string \<Rightarrow> ('z VpcSdkFake_scheme, VpcLoadBalancerPoolMember) io" where
  "fake_CreateLoadBalancerPoolMember lbID poolName poolID nodeID = fake_call ''CreateLoadBalancerPoolMember'' fake_Member1"

definition fake_DeleteLoadBalancer :: "string \<Rightarrow> ('z VpcSdkFake_scheme, unit) io" where
  "fake_DeleteLoadBalancer lbID = fake_call ''DeleteLoadBalancer'' (\<lambda>_. ())"

definition fake_DeleteLoadBalancerListener :: "string \<Rightarrow> string \<Rightarrow> ('z VpcSdkFake_scheme, unit) io" where
  "fake_DeleteLoadBalancerListener lbID listenerID = fake_call ''DeleteLoadBalancerListener'' (\<lambda>_. ())"

definition fake_DeleteLoadBalancerPool :: "string \<Rightarrow> string \<Rightarrow> ('z VpcSdkFake_scheme, unit) io" where
  "fake_DeleteLoadBalancerPool lbID poolID = fake_call ''DeleteLoadBalancerPool'' (\<lambda>_. ())"

definition fake_DeleteLoadBalancerPoolMember :: "string \<Rightarrow> string \<Rightarrow> string \<Rightarrow> ('z VpcSdkFake_scheme, unit) io" where
  "fake_DeleteLoadBalancerPoolMember lbID poolID memberID = fake_call ''DeleteLoadBalancerPoolMember'' (\<lambda>_. ())"

definition fake_GetLoadBalancer :: "string \<Rightarrow> ('z VpcSdkFake_scheme, VpcLoadBalancer) io" where
  "fake_GetLoadBalancer lbID = fake_call ''GetLoadBalancer'' (\<lambda>v.
     if lbID = lb_ID (fake_LoadBalancerNotReady v) then fake_LoadBalancerNotReady v else fake_LoadBalancerReady v)"

definition fake_GetSubnet :: "string \<Rightarrow> ('z VpcSdkFake_scheme, VpcSubnet) io" where
  "fake_GetSubnet subnetID = fake_call ''GetSubnet'' fake_Subnet1"

definition fake_ListLoadBalancers :: "('z VpcSdkFake_scheme, VpcLoadBalancer list) io" where
  "fake_ListLoadBalancers = fake_call ''ListLoadBalancers'' (\<lambda>v. [fake_LoadBalancerReady v, fake_LoadBalancerNotReady v])"

definition fake_ListLoadBalancerListeners :: "string \<Rightarrow> ('z VpcSdkFake_scheme, VpcLoadBalancerListener list) io" where
  "fake_ListLoadBalancerListeners lbID = fake_call ''ListLoadBalancerListeners'' (\<lambda>v. [fake_Listener v])"

definition fake_ListLoadBalancerPools :: "string \<Rightarrow> ('z VpcSdkFake_scheme, VpcLoadBalancerPool list) io" where
  "fake_ListLoadBalancerPools lbID = fake_call ''ListLoadBalancerPools'' (\<lambda>v. [fake_Pool v])"

definition fake_ListLoadBalancerPoolMembers ::
  "string \<Rightarrow> string \<Rightarrow> ('z VpcSdkFake_scheme, VpcLoadBalancerPoolMember list) io" where
  "fake_ListLoadBalancerPoolMembers lbID poolID =
     fake_call ''ListLoadBalancerPoolMembers'' (\<lambda>v. [fake_Member1 v, fake_Member2 v])"

definition fake_ListSubnets :: "('z VpcSdkFake_scheme, VpcSubnet list) io" where
  "fake_ListSubnets = fake_call ''ListSubnets'' (\<lambda>v. [fake_Subnet1 v, fake_Subnet2 v])"

definition fake_ReplaceLoadBalancerPoolMembers ::
  "string \<Rightarrow> string \<Rightarrow> string \<Rightarrow> string list \<Rightarrow> ('z VpcSdkFake_scheme, VpcLoadBalancerPoolMember list) io" where
  "fake_ReplaceLoadBalancerPoolMembers lbID poolName poolID nodeList =
     fake_call ''ReplaceLoadBalancerPoolMembers'' (\<lambda>v. [fake_Member1 v, fake_Member2 v])"

definition fake_UpdateLoadBalancerPool ::
  "string \<Rightarrow> string \<Rightarrow> VpcLoadBalancerPool \<Rightarrow> ServiceOptions \<Rightarrow> ('z VpcSdkFake_scheme, VpcLoadBalancerPool) io" where
  "fake_UpdateLoadBalancerPool lbID newPoolName existingPool options = fake_call ''UpdateLoadBalancerPool'' fake_Pool"

definition VpcSdkFake_sdk :: "'z VpcSdkFake_scheme CloudVpcSdk" where
  "VpcSdkFake_sdk = \<lparr>sdk_CreateLoadBalancer = fake_CreateLoadBalancer,
     sdk_CreateLoadBalancerListener = fake_CreateLoadBalancerListener,
     sdk_CreateLoadBalancerPool = fake_CreateLoadBalancerPool,
     sdk_CreateLoadBalancerPoolMember = fake_CreateLoadBalancerPoolMember,
     sdk_DeleteLoadBalancer = fake_DeleteLoadBalancer,
     sdk_DeleteLoadBalancerListener = fake_DeleteLoadBalancerListener,
     sdk_DeleteLoadBalancerPool = fake_DeleteLoadBalancerPool,
     sdk_DeleteLoadBalancerPoolMember = fake_DeleteLoadBalancerPoolMember,
     sdk_GetLoadBalancer = fake_GetLoadBalancer, sdk_GetSubnet = fake_GetSubnet,
     sdk_ListLoadBalancers = fake_ListLoadBalancers,
     sdk_ListLoadBalancerListeners = fake_ListLoadBalancerListeners,
     sdk_ListLoadBalancerPools = fake_ListLoadBalancerPools,
     sdk_ListLoadBalancerPoolMembers = fake_ListLoadBalancerPoolMembers,
     sdk_ListSubnets = fake_ListSubnets,
     sdk_ReplaceLoadBalancerPoolMembers = fake_ReplaceLoadBalancerPoolMembers,
     sdk_UpdateLoadBalancerPool = fake_UpdateLoadBalancerPool\<rparr>"

lemmas fake_defs = fake_CreateLoadBalancer_def fake_CreateLoadBalancerListener_def fake_CreateLoadBalancerPool_def
  fake_CreateLoadBalancerPoolMember_def fake_DeleteLoadBalancer_def fake_DeleteLoadBalancerListener_def
  fake_DeleteLoadBalancerPool_def fake_DeleteLoadBalancerPoolMember_def fake_GetLoadBalancer_def fake_GetSubnet_def
  fake_ListLoadBalancers_def fake_ListLoadBalancerListeners_def fake_ListLoadBalancerPools_def
  fake_ListLoadBalancerPoolMembers_def fake_ListSubnets_def fake_ReplaceLoadBalancerPoolMembers_def
  fake_UpdateLoadBalancerPool_def

subsection \<open>A world around the mock\<close>

text \<open>The mock with a clock that sleeping advances and a log of the recorded events.\<close>

record FakeWorld = VpcSdkFake +
  world_Clock :: int
  world_Events :: "Event list"

definition fake_runtime :: "FakeWorld Runtime" where
  "fake_runtime = \<lparr>rt_Now = world_Clock, rt_Sleep = (\<lambda>d v. v\<lparr>world_Clock := world_Clock v + d\<rparr>), rt_range = (\<lambda>_ ks. ks)\<rparr>"

definition fake_record :: "Event \<Rightarrow> FakeWorld \<Rightarrow> FakeWorld" where
  "fake_record e v = v\<lparr>world_Events := world_Events v @ [e]\<rparr>"

definition new_world :: FakeWorld where
  "new_world = VpcSdkFake.extend NewVpcSdkFake \<lparr>world_Clock = 0, world_Events = []\<rparr>"

subsection \<open>The mock meets the contract\<close>

definition fake_inv :: "'z VpcSdkFake_scheme \<Rightarrow> bool" where
  "fake_inv v \<longleftrightarrow> word_listener (fake_Listener v) \<and> word_pool (fake_Pool v)"

lemma safe_fake_call: "(\<And>v. fake_inv v \<Longrightarrow> post (answer v)) \<Longrightarrow> safe fake_inv post (fake_call n answer)"
  by (auto simp: safe_def fake_call_def split: option.splits)

interpretation fake: vpc_service VpcSdkFake_sdk fake_runtime fake_inv
proof
qed (auto simp: VpcSdkFake_sdk_def fake_defs fake_inv_def fake_runtime_def intro!: safe_fake_call)

lemma fake_inv_new: "fake_inv NewVpcSdkFake" "fake_inv new_world"
  by code_simp+

lemma fake_error_roundtrip:
  "fake_call n answer (SetFakeSdkError n v) = (Inl (Err (n @ '' failed'')), SetFakeSdkError n v)"
  "fake_call n answer (ClearFakeSdkError n v) = (Inr (answer (ClearFakeSdkError n v)), ClearFakeSdkError n v)"
  by (simp_all add: fake_call_def SetFakeSdkError_def ClearFakeSdkError_def)

end
