(* ===== verification/Vpc_Plan.thy ===== *)
theory Vpc_Plan
  imports Vpc_Lbaas Vpc_Fake
begin

section \<open>The update plan as typed operations\<close>

text \<open>
  \<open>UpdateLoadBalancer\<close> keeps its plan as text lines that are split into words again when they
  are carried out. Here the plan is restated over a datatype of operations, \<open>plan\<close>, and the
  text-based planner is shown to produce exactly the lines of that plan; the lines are shown to
  be decoded back into the SDK call of the operation they were written for. Everything else
  about plans (what they contain, their order, what they achieve) is then proved of \<open>plan\<close>.
\<close>

subsection \<open>Typed operations and their lines\<close>

datatype operation =
    DeleteListener string string               \<comment> \<open>pool name, listener ID\<close>
  | DeletePool string string                   \<comment> \<open>pool name, pool ID\<close>
  | DeletePoolMember string string string string  \<comment> \<open>pool name, pool ID, member ID, target\<close>
  | UpdatePool string string                   \<comment> \<open>new pool name, pool ID\<close>
  | ReplacePoolMembers string string           \<comment> \<open>pool name, pool ID\<close>
  | CreatePoolMember string string string      \<comment> \<open>pool name, pool ID, node\<close>
  | CreatePool string                          \<comment> \<open>pool name\<close>
  | CreateListener string                      \<comment> \<open>pool name\<close>

fun action_of :: "operation \<Rightarrow> string" where
  "action_of (DeleteListener n i) = actionDeleteListener"
| "action_of (DeletePool n i) = actionDeletePool"
| "action_of (DeletePoolMember n i m t) = actionDeletePoolMember"
| "action_of (UpdatePool n i) = actionUpdatePool"
| "action_of (ReplacePoolMembers n i) = actionReplacePoolMembers"
| "action_of (CreatePoolMember n i t) = actionCreatePoolMember"
| "action_of (CreatePool n) = actionCreatePool"
| "action_of (CreateListener n) = actionCreateListener"

fun args_of :: "operation \<Rightarrow> string list" where
  "args_of (DeleteListener n i) = [n, i]"
| "args_of (DeletePool n i) = [n, i]"
| "args_of (DeletePoolMember n i m t) = [n, i, m, t]"
| "args_of (UpdatePool n i) = [n, i]"
| "args_of (ReplacePoolMembers n i) = [n, i]"
| "args_of (CreatePoolMember n i t) = [n, i, t]"
| "args_of (CreatePool n) = [n]"
| "args_of (CreateListener n) = [n]"

definition line_of :: "operation \<Rightarrow> string" where
  "line_of u = update_line (action_of u # args_of u)"

text \<open>An operation whose arguments survive being written into a line and split again.\<close>

definition wf_operation :: "operation \<Rightarrow> bool" where
  "wf_operation u = list_all is_word (args_of u)"

lemma action_words: "is_word (action_of u)"
  by (cases u) (simp_all add: action_defs is_word_def graphic_no_space)

lemma args_of_ne: "args_of u \<noteq> []"
  by (cases u) simp_all

lemma Fields_line_of: "wf_operation u \<Longrightarrow> Fields (line_of u) = action_of u # args_of u"
  unfolding line_of_def update_line_def wf_operation_def using action_words by (intro Fields_words) simp

lemma args_of_line:
  assumes "wf_operation u"
  shows "TrimSpace (TrimPrefix (line_of u) (action_of u)) = Join '' '' (args_of u)"
proof -
  have "line_of u = action_of u @ CHR '' '' # Join '' '' (args_of u)"
    by (simp add: line_of_def update_line_def Join_Cons args_of_ne)
  with assms show ?thesis by (simp add: TrimSpace_words args_of_ne wf_operation_def)
qed

text \<open>The SDK call an operation stands for.\<close>

definition unit_of :: "('s, 'a) io \<Rightarrow> ('s, unit) io" where
  "unit_of m = bindM m (\<lambda>_. returnM ())"

fun perform ::
  "'s CloudVpcSdk \<Rightarrow> VpcLoadBalancer \<Rightarrow> string list \<Rightarrow> VpcLoadBalancerPool list \<Rightarrow> ServiceOptions \<Rightarrow>
   operation \<Rightarrow> ('s, unit) io" where
  "perform sdk lb nodeList pools options (DeleteListener n i) = sdk_DeleteLoadBalancerListener sdk (lb_ID lb) i"
| "perform sdk lb nodeList pools options (DeletePool n i) = sdk_DeleteLoadBalancerPool sdk (lb_ID lb) i"
| "perform sdk lb nodeList pools options (DeletePoolMember n i m t) =
     sdk_DeleteLoadBalancerPoolMember sdk (lb_ID lb) i m"
| "perform sdk lb nodeList pools options (UpdatePool n i) =
     (case find (\<lambda>pool. pool_ID pool = i) pools of
        None \<Rightarrow> raiseM (Err (''Existing pool nof found for pool ID: '' @ i))
      | Some pool \<Rightarrow> unit_of (sdk_UpdateLoadBalancerPool sdk (lb_ID lb) n pool options))"
| "perform sdk lb nodeList pools options (ReplacePoolMembers n i) =
     unit_of (sdk_ReplaceLoadBalancerPoolMembers sdk (lb_ID lb) n i nodeList)"
| "perform sdk lb nodeList pools options (CreatePoolMember n i t) =
     unit_of (sdk_CreateLoadBalancerPoolMember sdk (lb_ID lb) n i t)"
| "perform sdk lb nodeList pools options (CreatePool n) =
     unit_of (sdk_CreateLoadBalancerPool sdk (lb_ID lb) n nodeList options)"
| "perform sdk lb nodeList pools options (CreateListener n) =
     (case find (\<lambda>pool. n = ref_Name pool) (lb_Pools lb) of
        None \<Rightarrow> raiseM (Err (''Unable to create listener. Pool '' @ n @ '' not found''))
      | Some pool \<Rightarrow>
          if ref_ID pool = [] then raiseM (Err (''Unable to create listener. Pool '' @ n @ '' not found''))
          else unit_of (sdk_CreateLoadBalancerListener sdk (lb_ID lb) n (ref_ID pool)))"

lemma processUpdate_line_of:
  assumes "wf_operation u"
  shows "processUpdate sdk lb nodeList pools options (line_of u) = perform sdk lb nodeList pools options u"
proof -
  have F: "Fields (Join '' '' (args_of u)) = args_of u"
    using assms by (simp add: wf_operation_def)
  note defs = createLoadBalancerListener_def createLoadBalancerPool_def createLoadBalancerPoolMember_def
    deleteLoadBalancerListener_def deleteLoadBalancerPool_def deleteLoadBalancerPoolMember_def
    replaceLoadBalancerPoolMembers_def updateLoadBalancerPool_def unit_of_def
  show ?thesis
    unfolding processUpdate_def Fields_line_of[OF assms]
    using F args_of_line[OF assms]
    by (cases u) (auto simp: action_defs defs bindM_def fun_eq_iff split: option.splits)
qed


subsection \<open>The typed plan\<close>

definition pool_fields :: "VpcLoadBalancerPool \<Rightarrow> VpcPoolNameFields option" where
  "pool_fields pool = (case extractFieldsFromPoolName (pool_Name pool) of Inl _ \<Rightarrow> None | Inr f \<Rightarrow> Some f)"

definition serves :: "ServicePort \<Rightarrow> VpcLoadBalancerPool \<Rightarrow> bool" where
  "serves kubePort pool =
     (case pool_fields pool of None \<Rightarrow> False | Some f \<Rightarrow> isServicePortEqualPoolName kubePort f)"

definition wanted :: "ServicePort list \<Rightarrow> VpcLoadBalancerPool \<Rightarrow> bool" where
  "wanted ports pool = list_ex (\<lambda>kubePort. serves kubePort pool) ports"

definition ops_listener_deleted :: "ServicePort list \<Rightarrow> VpcLoadBalancerListener \<Rightarrow> operation list" where
  "ops_listener_deleted ports listener =
     (if list_ex (\<lambda>kubePort. isServicePortEqualListener kubePort listener) ports then []
      else [DeleteListener (if ref_Name (lsn_DefaultPool listener) = [] then ''unknown''
                            else ref_Name (lsn_DefaultPool listener)) (lsn_ID listener)])"

definition ops_pool_deleted :: "ServicePort list \<Rightarrow> VpcLoadBalancerPool \<Rightarrow> operation list" where
  "ops_pool_deleted ports pool = (if wanted ports pool then [] else [DeletePool (pool_Name pool) (pool_ID pool)])"

definition node_port_kept :: "ServicePort list \<Rightarrow> VpcLoadBalancerPool \<Rightarrow> bool" where
  "node_port_kept ports pool \<longleftrightarrow> wanted ports pool \<and>
     (case pool_fields pool of None \<Rightarrow> False | Some f \<Rightarrow> \<not> nodePortChanged f ports)"

definition pool_node_port :: "VpcLoadBalancerPool \<Rightarrow> int64" where
  "pool_node_port pool = (case pool_fields pool of None \<Rightarrow> -1 | Some f \<Rightarrow> pnf_NodePort f)"

definition member_ok :: "string list \<Rightarrow> VpcLoadBalancerPool \<Rightarrow> VpcLoadBalancerPoolMember \<Rightarrow> bool" where
  "member_ok nodeList pool m \<longleftrightarrow>
     mem_TargetIPAddress m \<in> set nodeList \<and> mem_Port m = pool_node_port pool"

definition ops_nodes_deleted :: "ServicePort list \<Rightarrow> string list \<Rightarrow> VpcLoadBalancerPool \<Rightarrow> operation list" where
  "ops_nodes_deleted ports nodeList pool =
     (if node_port_kept ports pool
      then map (\<lambda>m. DeletePoolMember (pool_Name pool) (pool_ID pool) (mem_ID m) (mem_TargetIPAddress m))
             (filter (\<lambda>m. \<not> member_ok nodeList pool m) (pool_Members pool))
      else [])"

definition ops_service_changes :: "Service \<Rightarrow> VpcLoadBalancerPool \<Rightarrow> operation list" where
  "ops_service_changes service pool =
     (case find (\<lambda>kubePort. serves kubePort pool) (svc_Ports service) of
        None \<Rightarrow> []
      | Some kubePort \<Rightarrow>
          (if fst (poolChangesNeeded pool service kubePort)
           then [UpdatePool (genLoadBalancerPoolName kubePort) (pool_ID pool)] else []) @
          (if snd (poolChangesNeeded pool service kubePort)
           then [ReplacePoolMembers (genLoadBalancerPoolName kubePort) (pool_ID pool)] else []))"

definition node_missing :: "VpcLoadBalancerPool \<Rightarrow> string \<Rightarrow> bool" where
  "node_missing pool nodeID \<longleftrightarrow>
     \<not> list_ex (\<lambda>m. nodeID = mem_TargetIPAddress m \<and> pool_node_port pool = mem_Port m) (pool_Members pool)"

definition ops_nodes_added :: "ServicePort list \<Rightarrow> string list \<Rightarrow> VpcLoadBalancerPool \<Rightarrow> operation list" where
  "ops_nodes_added ports nodeList pool =
     (if node_port_kept ports pool
      then map (CreatePoolMember (pool_Name pool) (pool_ID pool)) (filter (node_missing pool) nodeList)
      else [])"

definition ops_port_added ::
  "VpcLoadBalancerListener list \<Rightarrow> VpcLoadBalancerPool list \<Rightarrow> ServicePort \<Rightarrow> operation list" where
  "ops_port_added listeners pools kubePort =
     (if list_ex (serves kubePort) pools then [] else [CreatePool (genLoadBalancerPoolName kubePort)]) @
     (if list_ex (isServicePortEqualListener kubePort) listeners then []
      else [CreateListener (genLoadBalancerPoolName kubePort)])"

definition raw_plan ::
  "VpcLoadBalancerListener list \<Rightarrow> VpcLoadBalancerPool list \<Rightarrow> Service \<Rightarrow> string list \<Rightarrow> operation list" where
  "raw_plan listeners pools service nodeList =
     (let ports = svc_Ports service in
      concat (map (ops_listener_deleted ports) listeners) @
      concat (map (ops_pool_deleted ports) pools) @
      concat (map (ops_nodes_deleted ports nodeList) pools) @
      concat (map (ops_service_changes service) pools) @
      concat (map (ops_nodes_added ports nodeList) pools) @
      concat (map (ops_port_added listeners pools) ports))"

text \<open>Merging: the member updates of a pool with more than one of them become one replacement.\<close>

fun member_update :: "operation \<Rightarrow> (string \<times> string) option" where
  "member_update (CreatePoolMember n i t) = Some (n, i)"
| "member_update (DeletePoolMember n i m t) = Some (n, i)"
| "member_update _ = None"

definition updates_of :: "string \<Rightarrow> operation \<Rightarrow> bool" where
  "updates_of n u = (case member_update u of None \<Rightarrow> False | Some (k, _) \<Rightarrow> n = k)"

definition multi :: "operation list \<Rightarrow> string \<Rightarrow> bool" where
  "multi us n \<longleftrightarrow> length (filter (updates_of n) us) > 1"

fun merge_from :: "(string \<Rightarrow> bool) \<Rightarrow> string list \<Rightarrow> operation list \<Rightarrow> operation list" where
  "merge_from mu done [] = []"
| "merge_from mu done (u # us) =
     (case member_update u of
        None \<Rightarrow> u # merge_from mu done us
      | Some (n, i) \<Rightarrow>
          if \<not> mu n then u # merge_from mu done us
          else if n \<in> set done then merge_from mu done us
          else ReplacePoolMembers n i # merge_from mu (n # done) us)"

definition merge :: "operation list \<Rightarrow> operation list" where
  "merge us = merge_from (multi us) [] us"

definition plan ::
  "VpcLoadBalancerListener list \<Rightarrow> VpcLoadBalancerPool list \<Rightarrow> Service \<Rightarrow> string list \<Rightarrow> operation list" where
  "plan listeners pools service nodeList = merge (raw_plan listeners pools service nodeList)"

text \<open>The pools as planning leaves them: those to be deleted have lost their name.\<close>

definition marked :: "ServicePort list \<Rightarrow> VpcLoadBalancerPool \<Rightarrow> VpcLoadBalancerPool" where
  "marked ports pool = (if wanted ports pool then pool else pool\<lparr>pool_Name := poolToBeDeleted\<rparr>)"

subsection \<open>Well-formed inputs\<close>

text \<open>
  What the text encoding relies on: the identifiers that come from the VPC API and the node
  addresses are words, pool names have the expected format, and the service ports are the
  TCP ports with non-negative numbers that the API server admits.
\<close>

definition wf_pool :: "VpcLoadBalancerPool \<Rightarrow> bool" where
  "wf_pool pool \<longleftrightarrow> pool_fields pool \<noteq> None \<and> word_pool pool"

definition wf_port :: "ServicePort \<Rightarrow> bool" where
  "wf_port kubePort \<longleftrightarrow> sp_Protocol kubePort = ProtocolTCP \<and> 0 \<le> sint (sp_Port kubePort) \<and>
     0 \<le> sint (sp_NodePort kubePort)"

definition wf_inputs ::
  "VpcLoadBalancerListener list \<Rightarrow> VpcLoadBalancerPool list \<Rightarrow> Service \<Rightarrow> string list \<Rightarrow> bool" where
  "wf_inputs listeners pools service nodeList \<longleftrightarrow>
     list_all word_listener listeners \<and> list_all wf_pool pools \<and> list_all wf_port (svc_Ports service) \<and>
     list_all is_word nodeList"

subsection \<open>The text planner refines the typed plan\<close>

text \<open>
  Every planning step appends lines to those it is given. The interface of such a step: on a
  well-formed item it appends the lines of \<open>ops\<close> of the item. A loop over items then appends
  the lines of all of them.
\<close>

locale planning_step =
  fixes step :: "string list \<Rightarrow> 'a \<Rightarrow> string list res"
    and ops :: "'a \<Rightarrow> operation list"
    and ok :: "'a \<Rightarrow> bool"
  assumes step_ops: "ok x \<Longrightarrow> step u x = Inr (u @ map line_of (ops x))"
begin

lemma loop_ops: "list_all ok xs \<Longrightarrow> foldR step u xs = Inr (u @ map line_of (concat (map ops xs)))"
  by (induction xs arbitrary: u) (simp_all add: step_ops)

end

lemma wf_pool_fieldsE:
  assumes "wf_pool pool"
  obtains f where "extractFieldsFromPoolName (pool_Name pool) = Inr f" "pool_fields pool = Some f"
    "pool_Name pool \<noteq> poolToBeDeleted"
proof -
  from assms obtain f where f: "pool_fields pool = Some f" by (auto simp: wf_pool_def word_pool_def)
  then have "extractFieldsFromPoolName (pool_Name pool) = Inr f"
    by (auto simp: pool_fields_def split: sum.splits)
  with f that poolToBeDeleted_not_pool_name show ?thesis by (metis poolToBeDeleted_def)
qed

lemma genLoadBalancerPoolName_word: "wf_port kp \<Longrightarrow> is_word (genLoadBalancerPoolName kp)"
  using extractFields_genLoadBalancerPoolName[of kp] extractFields_is_word
  by (auto simp: wf_port_def)

lemma wf_port_fields:
  assumes "wf_port kp"
  shows "extractFieldsFromPoolName (genLoadBalancerPoolName kp) =
    Inr \<lparr>pnf_Protocol = ''tcp'', pnf_Port = toInt (sp_Port kp), pnf_NodePort = toInt (sp_NodePort kp)\<rparr>"
proof -
  have "ToLower (sp_Protocol kp) = ''tcp''" using assms by (simp add: wf_port_def)
  with assms extractFields_genLoadBalancerPoolName[of kp] show ?thesis by (simp add: wf_port_def)
qed

lemma wf_port_serves:
  assumes "wf_port kp" "pool_Name pool = genLoadBalancerPoolName kp"
  shows "serves kp pool" "pool_fields pool \<noteq> None"
  using assms wf_port_fields[OF assms(1)]
  by (auto simp: serves_def pool_fields_def isServicePortEqualPoolName_def wf_port_def EqualFold_def)

lemma marked_unwanted [simp]:
  "pool_Name (marked ports pool) = poolToBeDeleted \<longleftrightarrow> \<not> wanted ports pool \<or> pool_Name pool = poolToBeDeleted"
  "wanted ports pool \<Longrightarrow> marked ports pool = pool"
  "pool_ID (marked ports pool) = pool_ID pool"
  by (simp_all add: marked_def)

lemma nodeString_member:
  assumes "list_all is_word nodeList" "is_word t"
  shows "Contains ('' '' @ Join '' '' nodeList @ '' '') ('' '' @ t @ '' '') \<longleftrightarrow> t \<in> set nodeList"
  using assms by (intro Contains_blank_list) (auto simp: list_all_iff is_word_no_blank is_word_def[of t])

text \<open>\<open>pools\<close> are the well-formed pools the SDK returned; the loops run over the marked ones.\<close>

interpretation nodes_to_delete: planning_step
  "\<lambda>u pool. checkPoolForNodesToDelete u (marked ports pool) ports nodeList"
  "ops_nodes_deleted ports nodeList"
  "\<lambda>pool. wf_pool pool \<and> list_all is_word nodeList" for ports nodeList
proof
  fix u pool assume ok: "wf_pool pool \<and> list_all is_word nodeList"
  then obtain f where f: "extractFieldsFromPoolName (pool_Name pool) = Inr f" "pool_fields pool = Some f"
    "pool_Name pool \<noteq> poolToBeDeleted" by (blast elim: wf_pool_fieldsE)
  let ?gone = "\<lambda>m. \<not> Contains ('' '' @ Join '' '' nodeList @ '' '') ('' '' @ mem_TargetIPAddress m @ '' '') \<or>
    pnf_NodePort f \<noteq> mem_Port m"
  have "filter ?gone (pool_Members pool) = filter (\<lambda>m. \<not> member_ok nodeList pool m) (pool_Members pool)"
  proof (rule filter_cong[OF refl])
    fix m assume "m \<in> set (pool_Members pool)"
    with ok have "is_word (mem_TargetIPAddress m)" by (auto simp: wf_pool_def word_pool_def list_all_iff)
    with ok nodeString_member[of nodeList] show "?gone m \<longleftrightarrow> \<not> member_ok nodeList pool m"
      by (auto simp: member_ok_def pool_node_port_def f)
  qed
  then have lines: "map (\<lambda>m. update_line [actionDeletePoolMember, pool_Name pool, pool_ID pool, mem_ID m,
      mem_TargetIPAddress m]) (filter ?gone (pool_Members pool)) =
    map line_of (map (\<lambda>m. DeletePoolMember (pool_Name pool) (pool_ID pool) (mem_ID m) (mem_TargetIPAddress m))
      (filter (\<lambda>m. \<not> member_ok nodeList pool m) (pool_Members pool)))"
    by (simp add: line_of_def comp_def del: Contains.simps)
  show "checkPoolForNodesToDelete u (marked ports pool) ports nodeList =
      Inr (u @ map line_of (ops_nodes_deleted ports nodeList pool))"
  proof (cases "wanted ports pool")
    case True
    then show ?thesis
      by (simp only: checkPoolForNodesToDelete_def ops_nodes_deleted_def node_port_kept_def Let_def f lines
          marked_unwanted option.case bindR_simps if_False simp_thms list.map append_Nil2 split: if_split) blast
  qed (simp add: checkPoolForNodesToDelete_def ops_nodes_deleted_def node_port_kept_def)
qed

interpretation nodes_to_add: planning_step
  "\<lambda>u pool. checkPoolForNodesToAdd u (marked ports pool) ports nodeList"
  "ops_nodes_added ports nodeList" wf_pool for ports nodeList
proof
  fix u pool assume "wf_pool pool"
  then obtain f where f: "extractFieldsFromPoolName (pool_Name pool) = Inr f" "pool_fields pool = Some f"
    "pool_Name pool \<noteq> poolToBeDeleted" by (blast elim: wf_pool_fieldsE)
  then show "checkPoolForNodesToAdd u (marked ports pool) ports nodeList =
      Inr (u @ map line_of (ops_nodes_added ports nodeList pool))"
    by (cases "wanted ports pool")
      (auto simp: checkPoolForNodesToAdd_def ops_nodes_added_def node_port_kept_def node_missing_def[abs_def]
        pool_node_port_def line_of_def comp_def)
qed

interpretation service_changes: planning_step
  "\<lambda>u pool. checkPoolForServiceChanges u (marked (svc_Ports service) pool) service"
  "ops_service_changes service" wf_pool for service
proof
  fix u pool assume "wf_pool pool"
  then obtain f where f: "extractFieldsFromPoolName (pool_Name pool) = Inr f" "pool_fields pool = Some f"
    "pool_Name pool \<noteq> poolToBeDeleted" by (blast elim: wf_pool_fieldsE)
  have s: "serves kp pool = isServicePortEqualPoolName kp f" for kp by (simp add: serves_def f)
  show "checkPoolForServiceChanges u (marked (svc_Ports service) pool) service =
      Inr (u @ map line_of (ops_service_changes service pool))"
  proof (cases "wanted (svc_Ports service) pool")
    case True
    with f s show ?thesis
      by (auto simp: checkPoolForServiceChanges_def ops_service_changes_def line_of_def Let_def
          split: option.splits prod.splits)
  next
    case False
    then have "find (\<lambda>kubePort. serves kubePort pool) (svc_Ports service) = None"
      by (auto simp: wanted_def find_None_iff list_ex_iff)
    with False show ?thesis by (simp add: checkPoolForServiceChanges_def ops_service_changes_def)
  qed
qed

lemma poolFoundForPort_marked:
  assumes "list_all wf_pool pools" "kp \<in> set ports" "wf_port kp"
  shows "poolFoundForPort (map (marked ports) pools) (genLoadBalancerPoolName kp) kp =
    Inr (list_ex (serves kp) pools)"
  using assms(1)
proof (induction pools)
  case Nil
  then show ?case by simp
next
  case (Cons pool pools)
  then obtain f where f: "extractFieldsFromPoolName (pool_Name pool) = Inr f" "pool_fields pool = Some f"
    "pool_Name pool \<noteq> poolToBeDeleted" by (auto elim: wf_pool_fieldsE)
  have gen: "genLoadBalancerPoolName kp \<noteq> poolToBeDeleted"
    using wf_port_fields[OF assms(3)] poolToBeDeleted_not_pool_name by (metis poolToBeDeleted_def)
  have s: "serves kp pool = isServicePortEqualPoolName kp f" by (simp add: serves_def f)
  have w: "serves kp pool \<Longrightarrow> wanted ports pool"
    using assms(2) by (auto simp: wanted_def list_ex_iff)
  show ?case
  proof (cases "wanted ports pool")
    case True
    with Cons f s wf_port_serves(1)[OF assms(3)] show ?thesis by auto
  next
    case False
    with Cons w gen show ?thesis by (auto simp: marked_def)
  qed
qed

interpretation ports_added: planning_step
  "\<lambda>u kubePort. bindR (checkPoolsForExtPortAddedToService u (map (marked ports) pools) kubePort)
     (\<lambda>u'. Inr (checkListenersForExtPortAddedToService u' listeners kubePort))"
  "ops_port_added listeners pools"
  "\<lambda>kubePort. list_all wf_pool pools \<and> kubePort \<in> set ports \<and> wf_port kubePort" for ports pools listeners
  by standard (simp add: checkPoolsForExtPortAddedToService_def checkListenersForExtPortAddedToService_def
      ops_port_added_def poolFoundForPort_marked line_of_def Let_def)

lemma fold_listeners_deleted:
  "fold (\<lambda>listener u. checkListenerForExtPortDeletedFromService u listener ports) listeners u =
   u @ map line_of (concat (map (ops_listener_deleted ports) listeners))"
  by (induction listeners arbitrary: u)
    (simp_all add: checkListenerForExtPortDeletedFromService_def ops_listener_deleted_def line_of_def Let_def)

lemma markDeletedPools_ops:
  "list_all wf_pool pools \<Longrightarrow>
   markDeletedPools u pools ports =
     Inr (u @ map line_of (concat (map (ops_pool_deleted ports) pools)), map (marked ports) pools)"
proof (induction pools arbitrary: u)
  case Nil
  then show ?case by simp
next
  case (Cons pool pools)
  then obtain f where "extractFieldsFromPoolName (pool_Name pool) = Inr f" "pool_fields pool = Some f"
    by (auto elim: wf_pool_fieldsE)
  with Cons show ?case
    by (auto simp: checkPoolForExtPortDeletedFromService_def ops_pool_deleted_def marked_def wanted_def
        serves_def line_of_def)
qed

subsection \<open>Merging on lines refines merging on operations\<close>

lemma count_of_update: "count_of (AList.update k v al) n = (if n = k then v else count_of al n)"
  by (simp add: count_of_def update_conv)

lemma member_update_action:
  "action_of u = actionCreatePoolMember \<or> action_of u = actionDeletePoolMember \<longleftrightarrow> member_update u \<noteq> None"
  by (cases u) (simp_all add: action_defs)

lemma member_update_args: "member_update u = Some (n, i) \<Longrightarrow> \<exists>r. args_of u = n # i # r"
  by (cases u) auto

lemma updates_of_None: "member_update u = None \<Longrightarrow> \<not> updates_of n u"
  by (simp add: updates_of_def)

lemma updates_of_Some: "member_update u = Some (k, i) \<Longrightarrow> updates_of n u \<longleftrightarrow> n = k"
  by (auto simp: updates_of_def)

lemma countPoolUpdate_line_of:
  assumes "wf_operation u"
  shows "countPoolUpdate al (line_of u) = Inr (case member_update u of
      None \<Rightarrow> al | Some (n, i) \<Rightarrow> AList.update n (count_of al n + 1) al)"
proof -
  have "Suc 0 < length (action_of u # args_of u)" using args_of_ne[of u] by (cases "args_of u") auto
  with assms member_update_action[of u] member_update_args[of u] show ?thesis
    by (auto simp: countPoolUpdate_def Fields_line_of split: option.splits)
qed

lemma count_loop:
  "list_all wf_operation us \<Longrightarrow> distinct (map fst al) \<Longrightarrow>
   \<exists>al'. foldR countPoolUpdate al (map line_of us) = Inr al' \<and> distinct (map fst al') \<and>
     (\<forall>n. count_of al' n = count_of al n + length (filter (updates_of n) us))"
proof (induction us arbitrary: al)
  case Nil
  then show ?case by simp
next
  case (Cons u us)
  define al1 where "al1 = (case member_update u of None \<Rightarrow> al | Some (n, i) \<Rightarrow> AList.update n (count_of al n + 1) al)"
  have d: "distinct (map fst al1)"
    using Cons.prems by (auto simp: al1_def distinct_update split: option.splits)
  have wf: "wf_operation u" "list_all wf_operation us" using Cons.prems by simp_all
  have "count_of al1 n = count_of al n + (if updates_of n u then 1 else 0)" for n
    by (auto simp: al1_def count_of_update updates_of_None updates_of_Some split: option.splits)
  with Cons.IH[OF wf(2) d] show ?case
    using wf(1) by (auto simp: countPoolUpdate_line_of al1_def[symmetric])
qed

lemma count_of_iff:
  assumes "distinct (map fst al)"
  shows "count_of al n > 1 \<longleftrightarrow> (\<exists>c. (n, c) \<in> set al \<and> c > 1)"
proof -
  have "(\<exists>c. (n, c) \<in> set al \<and> c > 1) \<longleftrightarrow> (\<exists>c. map_of al n = Some c \<and> c > 1)" using assms by simp
  then show ?thesis by (simp add: count_of_def split: option.split)
qed

lemma list_ex_count:
  "distinct (map fst al) \<Longrightarrow> list_ex (\<lambda>(_, count). count > (1::nat)) al \<longleftrightarrow> (\<exists>n. count_of al n > 1)"
  using count_of_iff[of al] unfolding list_ex_iff by auto

lemma filterUpdates_line_of:
  assumes "list_all wf_operation us"
    and "\<And>n. mu n \<Longrightarrow> n \<in> set done \<Longrightarrow> count_of al n = 0"
    and "\<And>n. mu n \<Longrightarrow> n \<notin> set done \<Longrightarrow> count_of al n > 1"
    and "\<And>u n. u \<in> set us \<Longrightarrow> updates_of n u \<Longrightarrow> \<not> mu n \<Longrightarrow> count_of al n = 1"
  shows "filterUpdates al (map line_of us) = Inr (map line_of (merge_from mu done us))"
  using assms
proof (induction us arbitrary: al "done")
  case Nil
  then show ?case by simp
next
  case (Cons u us)
  note act = member_update_action[of u]
  show ?case
  proof (cases "member_update u")
    case None
    have "filterUpdates al (map line_of us) = Inr (map line_of (merge_from mu done us))"
      using Cons.prems by (intro Cons.IH) auto
    with None Cons.prems(1) act show ?thesis by (auto simp: Fields_line_of Let_def)
  next
    case (Some p)
    then obtain n i where u: "member_update u = Some (n, i)" by (cases p) auto
    obtain r where args: "args_of u = n # i # r" using member_update_args[OF u] by blast
    have lines: "filterUpdates al (map line_of (u # us)) =
      (if count_of al n = 1 then bindR (filterUpdates al (map line_of us)) (\<lambda>r. Inr (line_of u # r))
       else if count_of al n > 1 then bindR (filterUpdates (AList.update n 0 al) (map line_of us))
         (\<lambda>r. Inr (line_of (ReplacePoolMembers n i) # r))
       else filterUpdates al (map line_of us))"
    proof -
      have "line_of (ReplacePoolMembers n i) = update_line [actionReplacePoolMembers, n, i]"
        by (simp add: line_of_def)
      with Cons.prems(1) act args u show ?thesis by (auto simp: Fields_line_of Let_def)
    qed
    consider "\<not> mu n" | "mu n" "n \<in> set done" | "mu n" "n \<notin> set done" by blast
    then show ?thesis
    proof cases
      case 1
      with Cons.prems(4)[of u n] u have "count_of al n = 1" by (simp add: updates_of_Some)
      moreover have "filterUpdates al (map line_of us) = Inr (map line_of (merge_from mu done us))"
        using Cons.prems by (intro Cons.IH) auto
      ultimately show ?thesis using lines u 1 by simp
    next
      case 2
      with Cons.prems(2)[of n] have "count_of al n = 0" by simp
      moreover have "filterUpdates al (map line_of us) = Inr (map line_of (merge_from mu done us))"
        using Cons.prems by (intro Cons.IH) auto
      ultimately show ?thesis using lines u 2 by simp
    next
      case 3
      with Cons.prems(3)[of n] have "count_of al n > 1" by simp
      moreover have "filterUpdates (AList.update n 0 al) (map line_of us) =
          Inr (map line_of (merge_from mu (n # done) us))"
        using Cons.prems 3 by (intro Cons.IH) (auto simp: count_of_update split: if_splits)
      ultimately show ?thesis using lines u 3 by simp
    qed
  qed
qed

lemma merge_from_none: "(\<And>n. \<not> mu n) \<Longrightarrow> merge_from mu done us = us"
  by (induction us) (auto split: option.splits)

lemma checkForMultiplePoolMemberUpdates_line_of:
  assumes "list_all wf_operation us"
  shows "checkForMultiplePoolMemberUpdates (map line_of us) = Inr (map line_of (merge us))"
proof -
  obtain al where al: "foldR countPoolUpdate [] (map line_of us) = Inr al" "distinct (map fst al)"
    "\<And>n. count_of al n = count_of [] n + length (filter (updates_of n) us)"
    using count_loop[OF assms, of "[]"] by auto
  then have c: "count_of al n = length (filter (updates_of n) us)" for n by (simp add: count_of_def)
  then have mu: "count_of al n > 1 \<longleftrightarrow> multi us n" for n by (simp add: multi_def)
  show ?thesis
  proof (cases "\<exists>n. multi us n")
    case True
    have "count_of al n = 1" if "u \<in> set us" "updates_of n u" "\<not> multi us n" for u n
    proof -
      have "u \<in> set (filter (updates_of n) us)" using that by simp
      then have "0 < length (filter (updates_of n) us)" by (cases "filter (updates_of n) us") auto
      with that(3) c[of n] show ?thesis unfolding multi_def by linarith
    qed
    then have "filterUpdates al (map line_of us) = Inr (map line_of (merge us))"
      unfolding merge_def using assms mu by (intro filterUpdates_line_of) auto
    with True al(1) list_ex_count[OF al(2)] mu show ?thesis
      by (auto simp: checkForMultiplePoolMemberUpdates_def Let_def)
  next
    case False
    then have "merge us = us" unfolding merge_def by (intro merge_from_none) auto
    with False al(1) list_ex_count[OF al(2)] mu show ?thesis
      by (simp add: checkForMultiplePoolMemberUpdates_def Let_def)
  qed
qed

subsection \<open>The whole planner\<close>

lemma wf_pool_name: "wf_pool p \<Longrightarrow> is_word (pool_Name p)"
  by (auto elim: wf_pool_fieldsE dest: extractFields_is_word)

lemma ops_wf:
  shows "word_listener l \<Longrightarrow> list_all wf_operation (ops_listener_deleted ports l)"
    and "wf_pool p \<Longrightarrow> list_all wf_operation (ops_pool_deleted ports p)"
    and "wf_pool p \<Longrightarrow> list_all wf_operation (ops_nodes_deleted ports nodeList p)"
    and "wf_pool p \<Longrightarrow> list_all is_word nodeList \<Longrightarrow> list_all wf_operation (ops_nodes_added ports nodeList p)"
    and "wf_port kp \<Longrightarrow> list_all wf_operation (ops_port_added listeners pools kp)"
proof -
  have "is_word ''unknown''" by code_simp
  then show "word_listener l \<Longrightarrow> list_all wf_operation (ops_listener_deleted ports l)"
    by (auto simp: ops_listener_deleted_def wf_operation_def word_listener_def)
  show "wf_pool p \<Longrightarrow> list_all wf_operation (ops_pool_deleted ports p)"
    by (simp add: ops_pool_deleted_def wf_operation_def wf_pool_name) (simp add: wf_pool_def word_pool_def)
  show "wf_pool p \<Longrightarrow> list_all wf_operation (ops_nodes_deleted ports nodeList p)"
    using wf_pool_name[of p] by (auto simp: ops_nodes_deleted_def wf_operation_def wf_pool_def word_pool_def list_all_iff)
  show "wf_pool p \<Longrightarrow> list_all is_word nodeList \<Longrightarrow> list_all wf_operation (ops_nodes_added ports nodeList p)"
    using wf_pool_name[of p] by (auto simp: ops_nodes_added_def wf_operation_def wf_pool_def word_pool_def list_all_iff)
  show "wf_port kp \<Longrightarrow> list_all wf_operation (ops_port_added listeners pools kp)"
    by (simp add: ops_port_added_def wf_operation_def genLoadBalancerPoolName_word)
qed

lemma ops_service_changes_wf:
  assumes "wf_pool p" "list_all wf_port (svc_Ports service)"
  shows "list_all wf_operation (ops_service_changes service p)"
proof (cases "find (\<lambda>kubePort. serves kubePort p) (svc_Ports service)")
  case None
  then show ?thesis by (simp add: ops_service_changes_def)
next
  case (Some kp)
  then have "kp \<in> set (svc_Ports service)" by (auto simp: find_Some_iff)
  with assms have "is_word (genLoadBalancerPoolName kp)" "is_word (pool_ID p)"
    by (auto simp: list_all_iff genLoadBalancerPoolName_word wf_pool_def word_pool_def)
  with Some show ?thesis by (simp add: ops_service_changes_def wf_operation_def)
qed

lemma list_all_concat_map: "(\<And>x. x \<in> set xs \<Longrightarrow> list_all P (f x)) \<Longrightarrow> list_all P (concat (map f xs))"
  by (auto simp: list_all_iff)

lemma raw_plan_wf:
  assumes "wf_inputs listeners pools service nodeList"
  shows "list_all wf_operation (raw_plan listeners pools service nodeList)"
  using assms unfolding raw_plan_def Let_def list_all_append wf_inputs_def list_all_iff[of word_listener]
    list_all_iff[of wf_pool]
  by (intro conjI list_all_concat_map ops_wf ops_service_changes_wf) (auto simp: list_all_iff[of wf_port])

lemma planUpdates_refines_plan:
  assumes "wf_inputs listeners pools service nodeList"
  shows "planUpdates listeners pools service nodeList =
    Inr (map line_of (plan listeners pools service nodeList), map (marked (svc_Ports service)) pools)"
proof -
  let ?ports = "svc_Ports service" and ?pools = "map (marked (svc_Ports service)) pools"
  have wf: "list_all wf_pool pools" "list_all is_word nodeList"
    "list_all (\<lambda>kp. list_all wf_pool pools \<and> kp \<in> set ?ports \<and> wf_port kp) ?ports"
    "list_all (\<lambda>p. wf_pool p \<and> list_all is_word nodeList) pools"
    using assms by (auto simp: wf_inputs_def list_all_iff)
  have foldR_map: "foldR f u (map g xs) = foldR (\<lambda>u x. f u (g x)) u xs" for f :: "string list \<Rightarrow> 'x \<Rightarrow> string list res" and u g and xs :: "'y list"
    by (induction xs arbitrary: u) simp_all
  show ?thesis
    using checkForMultiplePoolMemberUpdates_line_of[OF raw_plan_wf[OF assms]]
      nodes_to_delete.loop_ops[OF wf(4), where ports = ?ports] service_changes.loop_ops[OF wf(1), where service = service]
      nodes_to_add.loop_ops[OF wf(1), where ports = ?ports and nodeList = nodeList] ports_added.loop_ops[OF wf(3), where listeners = listeners]
    unfolding planUpdates_def Let_def plan_def raw_plan_def
    by (simp add: fold_listeners_deleted markDeletedPools_ops[OF wf(1)] foldR_map)
qed


lemma merge_from_wf: "list_all wf_operation us \<Longrightarrow> list_all wf_operation (merge_from mu d us)"
  by (induction us arbitrary: d)
    (auto simp: wf_operation_def dest!: member_update_args split: option.splits)

lemma plan_wf: "wf_inputs listeners pools service nodeList \<Longrightarrow> list_all wf_operation (plan listeners pools service nodeList)"
  unfolding plan_def merge_def by (intro merge_from_wf raw_plan_wf)

subsection \<open>A concrete load balancer\<close>

text \<open>
  A service with two ports on two nodes, whose load balancer has a pool for port 80 with a
  stale member and a missing one, and a pool and a listener of a port that is gone.
\<close>

definition ex_port :: "int32 \<Rightarrow> int32 \<Rightarrow> ServicePort" where
  "ex_port p np = \<lparr>sp_Protocol = ''TCP'', sp_Port = p, sp_NodePort = np\<rparr>"

definition ex_service :: Service where
  "ex_service = \<lparr>svc_Name = ''echo'', svc_Namespace = ''default'', svc_UID = ''1234'',
     svc_Annotations = Map.empty, svc_Type = ''LoadBalancer'', svc_Ports = [ex_port 80 30303, ex_port 443 30304],
     svc_ExternalTrafficPolicy = ''Cluster'', svc_HealthCheckNodePort = 0, svc_LoadBalancerClass = None,
     svc_AllocateLoadBalancerNodePorts = None, svc_Ingress = None\<rparr>"

definition ex_ref :: "string \<Rightarrow> string \<Rightarrow> VpcObjectReference" where
  "ex_ref i n = \<lparr>ref_ID = i, ref_Name = n\<rparr>"

definition ex_listener :: "string \<Rightarrow> int64 \<Rightarrow> string \<Rightarrow> string \<Rightarrow> VpcLoadBalancerListener" where
  "ex_listener i p poolID poolName = \<lparr>lsn_ConnectionLimit = 0, lsn_DefaultPool = ex_ref poolID poolName,
     lsn_ID = i, lsn_Port = p, lsn_Protocol = ''tcp'', lsn_ProvisioningStatus = ''active''\<rparr>"

definition ex_member :: "string \<Rightarrow> string \<Rightarrow> int64 \<Rightarrow> VpcLoadBalancerPoolMember" where
  "ex_member i target p = \<lparr>mem_Health = ''ok'', mem_ID = i, mem_Port = p, mem_ProvisioningStatus = ''active'',
     mem_TargetIPAddress = target, mem_TargetInstanceID = [], mem_Weight = 50\<rparr>"

definition ex_pool :: "string \<Rightarrow> string \<Rightarrow> int64 \<Rightarrow> VpcLoadBalancerPoolMember list \<Rightarrow> VpcLoadBalancerPool" where
  "ex_pool i n np ms = \<lparr>pool_Algorithm = ''round_robin'',
     pool_HealthMonitor = \<lparr>hm_Delay = 5, hm_MaxRetries = 2, hm_Port = np, hm_Timeout = 2, hm_Type = ''tcp'', hm_URLPath = []\<rparr>,
     pool_ID = i, pool_Members = ms, pool_Name = n, pool_Protocol = ''tcp'',
     pool_ProvisioningStatus = ''active'', pool_ProxyProtocol = ''disabled'', pool_SessionPersistence = ''None''\<rparr>"

definition ex_listeners :: "VpcLoadBalancerListener list" where
  "ex_listeners = [ex_listener ''r1'' 80 ''p1'' ''tcp-80-30303'', ex_listener ''r2'' 8080 ''p2'' ''tcp-8080-30399'']"

definition ex_pools :: "VpcLoadBalancerPool list" where
  "ex_pools = [ex_pool ''p1'' ''tcp-80-30303'' 30303 [ex_member ''m1'' ''10.0.0.1'' 30303, ex_member ''m2'' ''10.0.0.9'' 30303],
               ex_pool ''p2'' ''tcp-8080-30399'' 30399 [ex_member ''m3'' ''10.0.0.1'' 30399, ex_member ''m4'' ''10.0.0.9'' 30399]]"

definition ex_nodes :: "string list" where
  "ex_nodes = [''10.0.0.1'', ''10.0.0.2'']"

lemma ex_wf_inputs: "wf_inputs ex_listeners ex_pools ex_service ex_nodes"
  by code_simp

subsection \<open>Properties of planning\<close>

text \<open>C12: On well-formed inputs the text-based planner of \<open>UpdateLoadBalancer\<close> (steps 1 to 8) succeeds and its
  lines are, in order, the lines of the typed plan; the pools it leaves are those of the SDK with the
  names of the unwanted ones replaced by the deletion mark.\<close>

theorem planner_implements_plan:
  assumes "wf_inputs listeners pools service nodeList"
  shows "planUpdates listeners pools service nodeList =
    Inr (map line_of (plan listeners pools service nodeList), map (marked (svc_Ports service)) pools)"
  using assms by (rule planUpdates_refines_plan)

theorem planner_implements_plan_witness:
  "wf_inputs ex_listeners ex_pools ex_service ex_nodes \<and>
   planUpdates ex_listeners ex_pools ex_service ex_nodes =
     Inr ([''DELETE-LISTENER tcp-8080-30399 r2'', ''DELETE-POOL tcp-8080-30399 p2'',
           ''REPLACE-POOL-MEMBERS tcp-80-30303 p1'', ''CREATE-POOL tcp-443-30304'',
           ''CREATE-LISTENER tcp-443-30304''],
          [ex_pools ! 0, (ex_pools ! 1)\<lparr>pool_Name := poolToBeDeleted\<rparr>])"
proof -
  have "map line_of (plan ex_listeners ex_pools ex_service ex_nodes) =
    [''DELETE-LISTENER tcp-8080-30399 r2'', ''DELETE-POOL tcp-8080-30399 p2'',
     ''REPLACE-POOL-MEMBERS tcp-80-30303 p1'', ''CREATE-POOL tcp-443-30304'', ''CREATE-LISTENER tcp-443-30304'']"
    by code_simp
  moreover have "map (marked (svc_Ports ex_service)) ex_pools = [ex_pools ! 0, (ex_pools ! 1)\<lparr>pool_Name := poolToBeDeleted\<rparr>]"
    by code_simp
  ultimately show ?thesis using planner_implements_plan[OF ex_wf_inputs] ex_wf_inputs by simp
qed


end
