(* ===== verification/Vpc_Converge.thy ===== *)
theory Vpc_Converge
  imports Vpc_Plan
begin

section \<open>What an update plan achieves\<close>

text \<open>
  The abstract specification of an update. \<open>content\<close> is what the VPC service holds for one
  load balancer; \<open>effect\<close> is the meaning of an operation on it, with the conditions under which the service
  accepts it (a pool is not deleted while a listener uses it, a listener needs its pool, a member, a pool and a
  listener are not created twice); \<open>in_sync\<close> says that the content is what the Kubernetes service and the nodes
  ask for. The plan of \<open>Vpc_Plan\<close> is shown to be executable step by step under these conditions and to end in
  sync, and a load balancer in sync to need no update.
\<close>

subsection \<open>The content of a load balancer\<close>

text \<open>Objects that exist have the identifier the service gave them; those the plan creates are named.\<close>

datatype oid = Old string | New string

record apool =
  ap_ID :: oid
  ap_Name :: string
  ap_Members :: "(oid \<times> string \<times> int64) list"
  ap_Monitor :: "string \<times> int64"
  ap_Proxy :: string

record alistener =
  al_ID :: oid
  al_Protocol :: string
  al_Port :: int64
  al_Pool :: oid

record content =
  ct_Listeners :: "alistener list"
  ct_Pools :: "apool list"

definition abs_member :: "VpcLoadBalancerPoolMember \<Rightarrow> oid \<times> string \<times> int64" where
  "abs_member m = (Old (mem_ID m), mem_TargetIPAddress m, mem_Port m)"

definition abs_pool :: "VpcLoadBalancerPool \<Rightarrow> apool" where
  "abs_pool p = \<lparr>ap_ID = Old (pool_ID p), ap_Name = pool_Name p, ap_Members = map abs_member (pool_Members p),
     ap_Monitor = (hm_Type (pool_HealthMonitor p), hm_Port (pool_HealthMonitor p)), ap_Proxy = pool_ProxyProtocol p\<rparr>"

definition abs_listener :: "VpcLoadBalancerListener \<Rightarrow> alistener" where
  "abs_listener l = \<lparr>al_ID = Old (lsn_ID l), al_Protocol = lsn_Protocol l, al_Port = lsn_Port l,
     al_Pool = Old (ref_ID (lsn_DefaultPool l))\<rparr>"

definition abs_content :: "VpcLoadBalancerListener list \<Rightarrow> VpcLoadBalancerPool list \<Rightarrow> content" where
  "abs_content listeners pools = \<lparr>ct_Listeners = map abs_listener listeners, ct_Pools = map abs_pool pools\<rparr>"

subsection \<open>The effect of an operation\<close>

definition name_fields :: "string \<Rightarrow> VpcPoolNameFields" where
  "name_fields n = (case extractFieldsFromPoolName n of
     Inl _ \<Rightarrow> \<lparr>pnf_Protocol = [], pnf_Port = -1, pnf_NodePort = -1\<rparr> | Inr f \<Rightarrow> f)"

definition new_members :: "string \<Rightarrow> string list \<Rightarrow> (oid \<times> string \<times> int64) list" where
  "new_members n nodeList = map (\<lambda>node. (New node, node, pnf_NodePort (name_fields n))) nodeList"

definition monitor_for :: "ServiceOptions \<Rightarrow> int64 \<Rightarrow> string \<times> int64" where
  "monitor_for options nodePort =
     (if sint (getHealthCheckNodePort options) > 0
      then (LoadBalancerProtocolHTTP, getHealthCheckNodePort options)
      else (LoadBalancerProtocolTCP, nodePort))"

definition proxy_for :: "ServiceOptions \<Rightarrow> string" where
  "proxy_for options = (if isProxyProtocol options then LoadBalancerProxyProtocolV1 else LoadBalancerProxyProtocolDisabled)"

text \<open>Operations on one existing pool, named by its ID.\<close>

fun pool_target :: "operation \<Rightarrow> string option" where
  "pool_target (DeletePoolMember n i m t) = Some i"
| "pool_target (UpdatePool n i) = Some i"
| "pool_target (ReplacePoolMembers n i) = Some i"
| "pool_target (CreatePoolMember n i t) = Some i"
| "pool_target _ = None"

fun pool_effect :: "ServiceOptions \<Rightarrow> string list \<Rightarrow> operation \<Rightarrow> apool \<Rightarrow> apool option" where
  "pool_effect options nodeList (DeletePoolMember n i m t) p =
     (if Old m \<in> fst ` set (ap_Members p)
      then Some (p\<lparr>ap_Members := filter (\<lambda>x. fst x \<noteq> Old m) (ap_Members p)\<rparr>) else None)"
| "pool_effect options nodeList (UpdatePool n i) p =
     Some (p\<lparr>ap_Name := n, ap_Monitor := monitor_for options (pnf_NodePort (name_fields n)),
             ap_Proxy := proxy_for options\<rparr>)"
| "pool_effect options nodeList (ReplacePoolMembers n i) p = Some (p\<lparr>ap_Members := new_members n nodeList\<rparr>)"
| "pool_effect options nodeList (CreatePoolMember n i t) p =
     (if (t, pnf_NodePort (name_fields n)) \<in> snd ` set (ap_Members p) then None
      else Some (p\<lparr>ap_Members := ap_Members p @ new_members n [t]\<rparr>))"
| "pool_effect options nodeList _ p = None"

definition at_pool :: "string \<Rightarrow> (apool \<Rightarrow> apool option) \<Rightarrow> apool list \<Rightarrow> apool list option" where
  "at_pool i f ps =
     (case find (\<lambda>p. ap_ID p = Old i) ps of
        None \<Rightarrow> None
      | Some p \<Rightarrow> map_option (\<lambda>q. map (\<lambda>x. if ap_ID x = Old i then q else x) ps) (f p))"

text \<open>A new pool has the proxy protocol the service gives it by default, whatever was requested.\<close>

definition new_pool :: "ServiceOptions \<Rightarrow> string list \<Rightarrow> string \<Rightarrow> apool" where
  "new_pool options nodeList n = \<lparr>ap_ID = New n, ap_Name = n, ap_Members = new_members n nodeList,
     ap_Monitor = monitor_for options (pnf_NodePort (name_fields n)), ap_Proxy = LoadBalancerProxyProtocolDisabled\<rparr>"

definition new_listener :: "string \<Rightarrow> oid \<Rightarrow> alistener" where
  "new_listener n pool = \<lparr>al_ID = New n, al_Protocol = pnf_Protocol (name_fields n),
     al_Port = pnf_Port (name_fields n), al_Pool = pool\<rparr>"

fun effect :: "ServiceOptions \<Rightarrow> string list \<Rightarrow> operation \<Rightarrow> content \<Rightarrow> content option" where
  "effect options nodeList (DeleteListener n i) c =
     (if Old i \<in> al_ID ` set (ct_Listeners c)
      then Some (c\<lparr>ct_Listeners := filter (\<lambda>l. al_ID l \<noteq> Old i) (ct_Listeners c)\<rparr>) else None)"
| "effect options nodeList (DeletePool n i) c =
     (if Old i \<in> ap_ID ` set (ct_Pools c) \<and> Old i \<notin> al_Pool ` set (ct_Listeners c)
      then Some (c\<lparr>ct_Pools := filter (\<lambda>p. ap_ID p \<noteq> Old i) (ct_Pools c)\<rparr>) else None)"
| "effect options nodeList (CreatePool n) c =
     (if n \<in> ap_Name ` set (ct_Pools c) then None
      else Some (c\<lparr>ct_Pools := ct_Pools c @ [new_pool options nodeList n]\<rparr>))"
| "effect options nodeList (CreateListener n) c =
     (case find (\<lambda>p. ap_Name p = n) (ct_Pools c) of
        None \<Rightarrow> None
      | Some p \<Rightarrow>
          if pnf_Port (name_fields n) \<in> al_Port ` set (ct_Listeners c) then None
          else Some (c\<lparr>ct_Listeners := ct_Listeners c @ [new_listener n (ap_ID p)]\<rparr>))"
| "effect options nodeList u c =
     (case pool_target u of
        None \<Rightarrow> None
      | Some i \<Rightarrow> map_option (\<lambda>ps. c\<lparr>ct_Pools := ps\<rparr>) (at_pool i (pool_effect options nodeList u) (ct_Pools c)))"

fun exec :: "('u \<Rightarrow> 'c \<Rightarrow> 'c option) \<Rightarrow> 'u list \<Rightarrow> 'c \<Rightarrow> 'c option" where
  "exec f [] c = Some c"
| "exec f (u # us) c = (case f u c of None \<Rightarrow> None | Some c' \<Rightarrow> exec f us c')"

subsection \<open>What the service asks for\<close>

definition monitor_in_sync :: "Service \<Rightarrow> ServicePort \<Rightarrow> string \<times> int64 \<Rightarrow> bool" where
  "monitor_in_sync service kp monitor \<longleftrightarrow>
     (svc_ExternalTrafficPolicy service = TrafficPolicyLocal \<and> sint (svc_HealthCheckNodePort service) > 0 \<longrightarrow>
        monitor = (LoadBalancerProtocolHTTP, toInt (svc_HealthCheckNodePort service))) \<and>
     (svc_ExternalTrafficPolicy service = TrafficPolicyCluster \<longrightarrow>
        monitor = (LoadBalancerProtocolTCP, toInt (sp_NodePort kp)))"

definition members_in_sync :: "string list \<Rightarrow> ServicePort \<Rightarrow> (oid \<times> string \<times> int64) list \<Rightarrow> bool" where
  "members_in_sync nodeList kp ms \<longleftrightarrow>
     set (map snd ms) = (\<lambda>node. (node, toInt (sp_NodePort kp))) ` set nodeList \<and> distinct (map snd ms)"

definition pool_in_sync :: "Service \<Rightarrow> string list \<Rightarrow> ServicePort \<Rightarrow> apool \<Rightarrow> bool" where
  "pool_in_sync service nodeList kp p \<longleftrightarrow>
     ap_Name p = genLoadBalancerPoolName kp \<and>
     members_in_sync nodeList kp (ap_Members p) \<and>
     monitor_in_sync service kp (ap_Monitor p) \<and>
     (case ap_ID p of New _ \<Rightarrow> True | Old _ \<Rightarrow> ap_Proxy p = proxy_for (getServiceOptions (Some service)))"

definition listener_in_sync :: "apool list \<Rightarrow> ServicePort \<Rightarrow> alistener \<Rightarrow> bool" where
  "listener_in_sync ps kp l \<longleftrightarrow> al_Port l = toInt (sp_Port kp) \<and> EqualFold (al_Protocol l) (sp_Protocol kp) \<and>
     list_ex (\<lambda>p. ap_ID p = al_Pool l \<and> ap_Name p = genLoadBalancerPoolName kp) ps"

text \<open>Exactly one pool and one listener per service port, and nothing else.\<close>

definition in_sync :: "Service \<Rightarrow> string list \<Rightarrow> content \<Rightarrow> bool" where
  "in_sync service nodeList c \<longleftrightarrow>
     distinct (map ap_Name (ct_Pools c)) \<and>
     set (map ap_Name (ct_Pools c)) = genLoadBalancerPoolName ` set (svc_Ports service) \<and>
     list_all (\<lambda>p. list_ex (\<lambda>kp. pool_in_sync service nodeList kp p) (svc_Ports service)) (ct_Pools c) \<and>
     distinct (map al_Port (ct_Listeners c)) \<and>
     set (map al_Port (ct_Listeners c)) = (\<lambda>kp. toInt (sp_Port kp)) ` set (svc_Ports service) \<and>
     list_all (\<lambda>l. list_ex (\<lambda>kp. listener_in_sync (ct_Pools c) kp l) (svc_Ports service)) (ct_Listeners c)"

subsection \<open>Consistent load balancers\<close>

text \<open>
  What the VPC service guarantees of the objects of a load balancer that this program set up: identifiers are
  unique, there is at most one pool and one listener per external port, the pool of a listener has the
  listener's port, and pool names are spelled the way \<open>genLoadBalancerPoolName\<close> spells them.
\<close>

definition pool_port :: "VpcLoadBalancerPool \<Rightarrow> int64" where
  "pool_port p = (case pool_fields p of None \<Rightarrow> -1 | Some f \<Rightarrow> pnf_Port f)"

definition canonical :: "VpcLoadBalancerPool \<Rightarrow> bool" where
  "canonical p = (case pool_fields p of None \<Rightarrow> False | Some f \<Rightarrow> pnf_Protocol f = ''tcp'' \<and>
     pool_Name p = ''tcp-'' @ show_int (sint (pnf_Port f)) @ ''-'' @ show_int (sint (pnf_NodePort f)))"

definition consistent :: "VpcLoadBalancerListener list \<Rightarrow> VpcLoadBalancerPool list \<Rightarrow> bool" where
  "consistent listeners pools \<longleftrightarrow>
     distinct (map lsn_ID listeners) \<and> distinct (map lsn_Port listeners) \<and>
     distinct (map pool_ID pools) \<and> distinct (map pool_port pools) \<and>
     list_all canonical pools \<and>
     list_all (\<lambda>p. distinct (map mem_ID (pool_Members p)) \<and>
       distinct (map (\<lambda>m. (mem_TargetIPAddress m, mem_Port m)) (pool_Members p))) pools \<and>
     list_all (\<lambda>l. EqualFold (lsn_Protocol l) ''tcp'' \<and>
       list_ex (\<lambda>p. pool_ID p = ref_ID (lsn_DefaultPool l) \<and> pool_port p = lsn_Port l) pools) listeners"

definition distinct_ports :: "Service \<Rightarrow> bool" where
  "distinct_ports service \<longleftrightarrow> distinct (map sp_Port (svc_Ports service))"

subsection \<open>Executing a sequence\<close>

lemma exec_append: "exec f (us @ vs) c = (case exec f us c of None \<Rightarrow> None | Some c' \<Rightarrow> exec f vs c')"
  by (induction us arbitrary: c) (auto split: option.splits)

lemma exec_then: "exec f us c = Some c' \<Longrightarrow> exec f vs c' = r \<Longrightarrow> exec f (us @ vs) c = r"
  by (simp add: exec_append)

text \<open>
  Operations on existing pools act on the pool they name and on no other, so executing a sequence of them
  amounts to executing, for every pool, those that name it.
\<close>

definition hits :: "oid \<Rightarrow> operation \<Rightarrow> bool" where
  "hits i u = (case pool_target u of None \<Rightarrow> False | Some j \<Rightarrow> i = Old j)"

lemma pool_effect_ID: "pool_effect options nodeList u p = Some q \<Longrightarrow> ap_ID q = ap_ID p"
  by (cases u) (auto split: if_splits)

lemma effect_at_pool:
  "pool_target u = Some i \<Longrightarrow> effect options nodeList u c =
     map_option (\<lambda>ps. c\<lparr>ct_Pools := ps\<rparr>) (at_pool i (pool_effect options nodeList u) (ct_Pools c))"
  by (cases u) simp_all

lemma find_distinct: "distinct (map f xs) \<Longrightarrow> x \<in> set xs \<Longrightarrow> find (\<lambda>y. f y = f x) xs = Some x"
  by (induction xs) force+

lemma exec_pools:
  assumes "distinct (map ap_ID ps)"
    and "\<forall>u \<in> set us. \<exists>p \<in> set ps. hits (ap_ID p) u"
    and "\<forall>p \<in> set ps. exec (pool_effect options nodeList) (filter (hits (ap_ID p)) us) p \<noteq> None"
  shows "exec (effect options nodeList) us (c\<lparr>ct_Pools := ps\<rparr>) = Some (c\<lparr>ct_Pools :=
    map (\<lambda>p. the (exec (pool_effect options nodeList) (filter (hits (ap_ID p)) us) p)) ps\<rparr>)"
  using assms
proof (induction us arbitrary: ps)
  case Nil
  then show ?case by (simp add: comp_def)
next
  case (Cons u us)
  from Cons.prems(2) obtain p where p: "p \<in> set ps" "hits (ap_ID p) u" by auto
  then obtain i where i: "pool_target u = Some i" "ap_ID p = Old i"
    by (auto simp: hits_def split: option.splits)
  from Cons.prems(3) p obtain q where q: "pool_effect options nodeList u p = Some q"
    by (fastforce split: option.splits)
  have idq: "ap_ID q = Old i" using pool_effect_ID[OF q] i by simp
  have u_hits: "hits (ap_ID x) u \<longleftrightarrow> ap_ID x = Old i" for x using i by (simp add: hits_def)
  have only: "x = p" if "x \<in> set ps" "ap_ID x = Old i" for x
    using Cons.prems(1) that p(1) i(2) by (metis distinct_map inj_onD)
  define upd where "upd x = (if ap_ID x = Old i then q else x)" for x
  let ?run = "\<lambda>us x. exec (pool_effect options nodeList) (filter (hits (ap_ID x)) us) x"
  have ids [simp]: "ap_ID (upd x) = ap_ID x" for x using idq by (simp add: upd_def)
  have eff: "effect options nodeList u (c\<lparr>ct_Pools := ps\<rparr>) = Some (c\<lparr>ct_Pools := map upd ps\<rparr>)"
    using find_distinct[OF Cons.prems(1) p(1)] i q by (simp add: effect_at_pool at_pool_def upd_def)
  have run: "?run (u # us) x = ?run us (upd x)" if "x \<in> set ps" for x
    using that only[of x] q idq u_hits[of x] by (auto simp: upd_def)
  have "exec (effect options nodeList) us (c\<lparr>ct_Pools := map upd ps\<rparr>) =
      Some (c\<lparr>ct_Pools := map (\<lambda>x. the (?run us x)) (map upd ps)\<rparr>)"
  proof (rule Cons.IH)
    show "distinct (map ap_ID (map upd ps))" using Cons.prems(1) by (simp add: comp_def)
    show "\<forall>u \<in> set us. \<exists>x \<in> set (map upd ps). hits (ap_ID x) u" using Cons.prems(2) by simp
    show "\<forall>x \<in> set (map upd ps). ?run us x \<noteq> None" using Cons.prems(3) run by auto
  qed
  with eff run show ?case by simp
qed

subsection \<open>Merging, pool by pool\<close>

lemma merge_from_plain_left:
  "\<forall>u \<in> set xs. member_update u = None \<Longrightarrow> merge_from mu done (xs @ ys) = xs @ merge_from mu done ys"
  by (induction xs) auto

lemma merge_from_plain_right:
  "\<forall>u \<in> set ys. member_update u = None \<Longrightarrow> merge_from mu done (xs @ ys) = merge_from mu done xs @ ys"
  using merge_from_plain_left[of ys mu _ "[]"]
  by (induction xs arbitrary: "done") (auto split: option.splits)

lemma filter_updates_plain: "\<forall>u \<in> set xs. member_update u = None \<Longrightarrow> filter (updates_of n) xs = []"
  by (auto simp: filter_empty_conv updates_of_None)

lemma merge_frame:
  assumes "\<forall>u \<in> set xs. member_update u = None" "\<forall>u \<in> set zs. member_update u = None"
  shows "merge (xs @ ys @ zs) = xs @ merge ys @ zs"
proof -
  have "multi (xs @ ys @ zs) = multi ys"
    by (rule ext) (simp add: multi_def filter_updates_plain[OF assms(1)] filter_updates_plain[OF assms(2)])
  with assms show ?thesis by (simp add: merge_def merge_from_plain_left merge_from_plain_right)
qed

lemma member_update_target: "member_update u = Some (n, i) \<Longrightarrow> pool_target u = Some i"
  by (cases u) simp_all

lemma filter_merge_from:
  assumes "\<forall>u \<in> set us. \<forall>n i. member_update u = Some (n, i) \<longrightarrow> (n = nm \<longleftrightarrow> i = pid)"
    and "nm \<in> set d1 \<longleftrightarrow> nm \<in> set d2"
  shows "filter (hits (Old pid)) (merge_from mu d1 us) = merge_from mu d2 (filter (hits (Old pid)) us)"
  using assms
proof (induction us arbitrary: d1 d2)
  case (Cons u us)
  note IH = Cons.IH[of d1 d2]
  show ?case
  proof (cases "member_update u")
    case None
    with IH Cons.prems show ?thesis by auto
  next
    case (Some ni)
    then obtain n i where u: "member_update u = Some (n, i)" by (cases ni) auto
    with Cons.prems have n: "n = nm \<longleftrightarrow> i = pid" by simp
    have h: "hits (Old pid) u \<longleftrightarrow> i = pid" "hits (Old pid) (ReplacePoolMembers n i) \<longleftrightarrow> i = pid"
      using member_update_target[OF u] by (auto simp: hits_def)
    have IH': "filter (hits (Old pid)) (merge_from mu (n # d1) us) =
        merge_from mu (if i = pid then n # d2 else d2) (filter (hits (Old pid)) us)"
      using Cons.prems n by (intro Cons.IH) auto
    from u n h IH IH' Cons.prems show ?thesis by auto
  qed
qed simp

subsection \<open>One existing pool\<close>

lemma filter_drop_one:
  assumes "distinct (map f (pre @ m # ms))" "\<And>x. g (h x) \<longleftrightarrow> f x \<noteq> f m"
  shows "filter g (map h (pre @ m # ms)) = map h (pre @ ms)"
proof -
  have "filter (\<lambda>x. f x \<noteq> f m) xs = xs" if "f m \<notin> f ` set xs" for xs
    using that by (intro filter_True) (metis imageI)
  with assms(1) have "filter (\<lambda>x. f x \<noteq> f m) (pre @ m # ms) = pre @ ms" by simp
  moreover have "filter g (map h xs) = map h (filter (\<lambda>x. f x \<noteq> f m) xs)" for xs
    by (simp add: filter_map comp_def assms(2))
  ultimately show ?thesis by (simp only:)
qed

lemma exec_deletes:
  assumes "ap_Members q = map abs_member (pre @ ms)" "distinct (map mem_ID (pre @ ms))"
  shows "exec (pool_effect options nodeList) (map (\<lambda>m. DeletePoolMember n i (mem_ID m) (t m)) (filter P ms)) q =
    Some (q\<lparr>ap_Members := map abs_member (pre @ filter (\<lambda>m. \<not> P m) ms)\<rparr>)"
  using assms
proof (induction ms arbitrary: pre q)
  case (Cons m ms)
  show ?case
  proof (cases "P m")
    case False
    with Cons.IH[of q "pre @ [m]"] Cons.prems show ?thesis by simp
  next
    case True
    have drop: "filter (\<lambda>x. fst x \<noteq> Old (mem_ID m)) (map abs_member (pre @ m # ms)) = map abs_member (pre @ ms)"
      using Cons.prems(2) by (rule filter_drop_one) (simp add: abs_member_def)
    have "Old (mem_ID m) \<in> fst ` set (ap_Members q)" using Cons.prems(1) by (simp add: abs_member_def)
    with True drop Cons.prems Cons.IH[of "q\<lparr>ap_Members := map abs_member (pre @ ms)\<rparr>" pre] show ?thesis
      by simp
  qed
qed simp

lemma new_members_simps [simp]:
  "new_members n [] = []"
  "new_members n (t # ts) = (New t, t, pnf_NodePort (name_fields n)) # new_members n ts"
  "map snd (new_members n ts) = map (\<lambda>t. (t, pnf_NodePort (name_fields n))) ts"
  by (simp_all add: new_members_def)

lemma exec_adds:
  assumes "distinct ts" "\<forall>t \<in> set ts. (t, pnf_NodePort (name_fields n)) \<notin> snd ` set (ap_Members q)"
  shows "exec (pool_effect options nodeList) (map (CreatePoolMember n i) ts) q =
    Some (q\<lparr>ap_Members := ap_Members q @ new_members n ts\<rparr>)"
  using assms
proof (induction ts arbitrary: q)
  case (Cons t ts)
  then have "exec (pool_effect options nodeList) (map (CreatePoolMember n i) ts)
      (q\<lparr>ap_Members := ap_Members q @ new_members n [t]\<rparr>) =
    Some (q\<lparr>ap_Members := ap_Members q @ new_members n (t # ts)\<rparr>)"
    by (subst Cons.IH) auto
  with Cons.prems show ?case by simp
qed simp

lemma name_fields_gen:
  "wf_port kp \<Longrightarrow> name_fields (genLoadBalancerPoolName kp) =
    \<lparr>pnf_Protocol = ''tcp'', pnf_Port = toInt (sp_Port kp), pnf_NodePort = toInt (sp_NodePort kp)\<rparr>"
  by (simp add: name_fields_def wf_port_fields)

lemma gen_inject:
  assumes "wf_port kp" "wf_port kp'" "genLoadBalancerPoolName kp = genLoadBalancerPoolName kp'"
  shows "kp = kp'"
  using name_fields_gen[OF assms(1)] name_fields_gen[OF assms(2)] assms
  by (cases kp; cases kp') (simp add: wf_port_def)

lemma EqualFold_tcp [simp]: "EqualFold ''tcp'' ''TCP''"
  by code_simp

lemma canonicalE:
  assumes "canonical p"
  obtains f where "pool_fields p = Some f" "pnf_Protocol f = ''tcp''" "pool_port p = pnf_Port f"
    "pool_node_port p = pnf_NodePort f" "name_fields (pool_Name p) = f"
    "pool_Name p = ''tcp-'' @ show_int (sint (pnf_Port f)) @ ''-'' @ show_int (sint (pnf_NodePort f))"
proof (cases "pool_fields p")
  case None
  with assms show ?thesis by (simp add: canonical_def)
next
  case (Some f)
  then have "name_fields (pool_Name p) = f" by (auto simp: pool_fields_def name_fields_def split: sum.splits)
  with Some assms show ?thesis by (intro that[of f]) (simp_all add: canonical_def pool_port_def pool_node_port_def)
qed

lemma serves_iff: "canonical p \<Longrightarrow> wf_port kp \<Longrightarrow> serves kp p \<longleftrightarrow> pool_port p = toInt (sp_Port kp)"
  by (erule canonicalE) (simp add: serves_def isServicePortEqualPoolName_def wf_port_def)

lemma canonical_name:
  assumes "canonical p" "wf_port kp" "serves kp p"
  shows "pool_Name p = genLoadBalancerPoolName kp \<longleftrightarrow> pool_node_port p = toInt (sp_NodePort kp)"
proof -
  obtain f where f: "pool_fields p = Some f" "pool_port p = pnf_Port f" "pool_node_port p = pnf_NodePort f"
    "name_fields (pool_Name p) = f"
    "pool_Name p = ''tcp-'' @ show_int (sint (pnf_Port f)) @ ''-'' @ show_int (sint (pnf_NodePort f))"
    using assms(1) by (elim canonicalE)
  have "pnf_Port f = toInt (sp_Port kp)" using assms serves_iff f(2) by metis
  moreover have "genLoadBalancerPoolName kp = ''tcp-'' @ show_int (sint (sp_Port kp)) @ ''-'' @ show_int (sint (sp_NodePort kp))"
    using assms(2) by (simp add: genLoadBalancerPoolName_def wf_port_def)
  ultimately show ?thesis using f name_fields_gen[OF assms(2)] by auto
qed

text \<open>The one service port a pool serves.\<close>

lemma the_port:
  assumes "list_all wf_port ports" "distinct (map sp_Port ports)" "canonical p"
    and "kp \<in> set ports" "serves kp p" "kp' \<in> set ports" "serves kp' p"
  shows "kp' = kp"
proof -
  have "toInt (sp_Port kp') = toInt (sp_Port kp)"
    using assms serves_iff[OF assms(3)] by (metis list_all_iff)
  then show ?thesis using assms(2,4,6) by (simp add: distinct_map inj_on_def)
qed

lemma find_the_port:
  assumes "list_all wf_port ports" "distinct (map sp_Port ports)" "canonical p"
    and "kp \<in> set ports" "serves kp p"
  shows "find (\<lambda>kp. serves kp p) ports = Some kp"
proof (cases "find (\<lambda>kp. serves kp p) ports")
  case None
  with assms show ?thesis by (auto simp: find_None_iff)
next
  case (Some kp')
  then have "kp' \<in> set ports" "serves kp' p" by (auto simp: find_Some_iff)
  with Some the_port[OF assms] show ?thesis by simp
qed

lemma node_port_kept_iff:
  assumes "list_all wf_port ports" "distinct (map sp_Port ports)" "canonical p"
    and "kp \<in> set ports" "serves kp p"
  shows "node_port_kept ports p \<longleftrightarrow> pool_node_port p = toInt (sp_NodePort kp)"
proof -
  obtain f where f: "pool_fields p = Some f" "pool_node_port p = pnf_NodePort f"
    using assms(3) by (elim canonicalE)
  have "isServicePortEqualPoolName kp' f \<longleftrightarrow> kp' = kp" if "kp' \<in> set ports" for kp'
    using the_port[OF assms that] assms(5) f by (auto simp: serves_def)
  then have "nodePortChanged f ports \<longleftrightarrow> pnf_NodePort f \<noteq> toInt (sp_NodePort kp)"
    using assms(4) by (auto simp: nodePortChanged_def list_ex_iff)
  with f assms(4,5) show ?thesis by (auto simp: node_port_kept_def wanted_def list_ex_iff)
qed

lemma monitor_for_in_sync:
  "monitor_in_sync service kp (monitor_for (getServiceOptions (Some service)) (toInt (sp_NodePort kp)))"
  by (auto simp: monitor_in_sync_def monitor_for_def getHealthCheckNodePort_def getServiceOptions_def
      getServiceHealthCheckNodePort_def)

text \<open>The changes of pool and members that the service asks for, in the two cases of the node port.\<close>

lemma poolChangesNeeded_name: "pool_Name p \<noteq> genLoadBalancerPoolName kp \<Longrightarrow> poolChangesNeeded p service kp = (True, True)"
  by (simp add: poolChangesNeeded_def)

lemma poolChangesNeeded_same:
  assumes "pool_Name p = genLoadBalancerPoolName kp"
  shows "poolChangesNeeded p service kp =
    (\<not> (monitor_in_sync service kp (ap_Monitor (abs_pool p)) \<and>
        ap_Proxy (abs_pool p) = proxy_for (getServiceOptions (Some service))), False)"
  using assms
  by (auto simp: poolChangesNeeded_def monitor_in_sync_def proxy_for_def abs_pool_def Let_def)

lemma new_members_in_sync:
  assumes "wf_port kp" "distinct nodeList"
  shows "members_in_sync nodeList kp (new_members (genLoadBalancerPoolName kp) nodeList)"
  unfolding members_in_sync_def new_members_simps name_fields_gen[OF assms(1)]
  using assms(2) by (simp add: distinct_map inj_on_def)

lemma pool_moved:
  assumes ports: "list_all wf_port (svc_Ports service)" "distinct (map sp_Port (svc_Ports service))" "canonical p"
      "kp \<in> set (svc_Ports service)" "serves kp p"
    and moved: "pool_node_port p \<noteq> toInt (sp_NodePort kp)" and nodes: "distinct nodeList"
  defines "us \<equiv> ops_nodes_deleted (svc_Ports service) nodeList p @ ops_service_changes service p @
    ops_nodes_added (svc_Ports service) nodeList p"
  shows "\<exists>q. exec (pool_effect (getServiceOptions (Some service)) nodeList) (merge_from mu [] us) (abs_pool p) = Some q \<and>
    pool_in_sync service nodeList kp q"
proof -
  have kp: "wf_port kp" using ports(1,4) by (simp add: list_all_iff)
  have "pool_Name p \<noteq> genLoadBalancerPoolName kp" using canonical_name[OF ports(3) kp ports(5)] moved by simp
  then have "us = [UpdatePool (genLoadBalancerPoolName kp) (pool_ID p), ReplacePoolMembers (genLoadBalancerPoolName kp) (pool_ID p)]"
    using node_port_kept_iff[OF ports] find_the_port[OF ports] moved
    by (simp add: us_def ops_nodes_deleted_def ops_nodes_added_def ops_service_changes_def poolChangesNeeded_name)
  with nodes show ?thesis
    by (simp add: pool_in_sync_def monitor_for_in_sync new_members_in_sync[OF kp] name_fields_gen[OF kp] abs_pool_def)
qed

text \<open>A pool whose node port is kept: the member updates one by one, or replaced by one.\<close>

lemma merge_from_unmerged:
  "\<forall>u \<in> set us. \<forall>n i. member_update u = Some (n, i) \<longrightarrow> \<not> mu n \<Longrightarrow> merge_from mu d us = us"
  by (induction us) (auto split: option.splits)

lemma merge_from_drop:
  "\<forall>u \<in> set us. member_update u = Some (n, i) \<Longrightarrow> mu n \<Longrightarrow> n \<in> set d \<Longrightarrow> merge_from mu d us = []"
  by (induction us) auto

lemma merge_from_merged:
  assumes "\<forall>u \<in> set ds. member_update u = Some (n, i)" "\<forall>u \<in> set ss. member_update u = None"
    and "\<forall>u \<in> set as. member_update u = Some (n, i)" "mu n" "ds @ as \<noteq> []"
  shows "merge_from mu [] (ds @ ss @ as) =
    (if ds = [] then ss @ [ReplacePoolMembers n i] else ReplacePoolMembers n i # ss)"
proof -
  have fin: "merge_from mu [n] (ss @ as) = ss" using assms by (simp add: merge_from_plain_left merge_from_drop[of as n i])
  have del: "merge_from mu [n] (xs @ ss @ as) = ss" if "set xs \<subseteq> set ds" for xs
    using that fin assms(1,4) by (induction xs) auto
  show ?thesis
  proof (cases ds)
    case Nil
    then obtain a as' where as: "as = a # as'" using assms(5) by (cases as) auto
    with Nil assms show ?thesis by (simp add: merge_from_plain_left merge_from_drop[of as' n i])
  next
    case (Cons d ds')
    with del[of ds'] assms show ?thesis by auto
  qed
qed

lemma pool_kept_unmerged:
  assumes "canonical p" "wf_port kp" "pool_Name p = genLoadBalancerPoolName kp" "pool_node_port p = toInt (sp_NodePort kp)"
    and ids: "distinct (map mem_ID (pool_Members p))"
    and targets: "distinct (map (\<lambda>m. (mem_TargetIPAddress m, mem_Port m)) (pool_Members p))"
    and nodes: "distinct nodeList"
    and ss: "exec (pool_effect options nodeList) ss (abs_pool p\<lparr>ap_Members := ms\<rparr>) = Some (q\<lparr>ap_Members := ms\<rparr>)"
      "ms = map abs_member (filter (member_ok nodeList p) (pool_Members p))"
  defines "us \<equiv> map (\<lambda>m. DeletePoolMember (pool_Name p) (pool_ID p) (mem_ID m) (mem_TargetIPAddress m))
      (filter (\<lambda>m. \<not> member_ok nodeList p m) (pool_Members p)) @ ss @
    map (CreatePoolMember (pool_Name p) (pool_ID p)) (filter (node_missing p) nodeList)"
  shows "\<exists>ms. exec (pool_effect options nodeList) us (abs_pool p) = Some (q\<lparr>ap_Members := ms\<rparr>) \<and>
    members_in_sync nodeList kp ms"
proof -
  let ?np = "toInt (sp_NodePort kp)" and ?miss = "filter (node_missing p) nodeList"
  have np: "pnf_NodePort (name_fields (pool_Name p)) = ?np" using assms(1,4) by (metis canonicalE)
  have del: "exec (pool_effect options nodeList) (map (\<lambda>m. DeletePoolMember (pool_Name p) (pool_ID p) (mem_ID m)
      (mem_TargetIPAddress m)) (filter (\<lambda>m. \<not> member_ok nodeList p m) (pool_Members p))) (abs_pool p) =
      Some (abs_pool p\<lparr>ap_Members := ms\<rparr>)"
    using exec_deletes[of "abs_pool p" "[]" "pool_Members p"] ids ss(2) by (simp add: abs_pool_def)
  have snd_ms: "map snd ms = map (\<lambda>m. (mem_TargetIPAddress m, mem_Port m)) (filter (member_ok nodeList p) (pool_Members p))"
    using ss(2) by (simp add: abs_member_def)
  have absent: "(t, ?np) \<notin> snd ` set ms" if "node_missing p t" for t
    using that snd_ms assms(4) by (auto simp: node_missing_def list_ex_iff ss(2) abs_member_def)
  have "exec (pool_effect options nodeList) (map (CreatePoolMember (pool_Name p) (pool_ID p)) ?miss) (q\<lparr>ap_Members := ms\<rparr>) =
      Some (q\<lparr>ap_Members := ms @ new_members (pool_Name p) ?miss\<rparr>)"
    using exec_adds[of ?miss "pool_Name p" "q\<lparr>ap_Members := ms\<rparr>"] nodes absent np by simp
  with del ss(1) have "exec (pool_effect options nodeList) us (abs_pool p) =
      Some (q\<lparr>ap_Members := ms @ new_members (pool_Name p) ?miss\<rparr>)"
    by (simp add: us_def exec_append)
  moreover have "members_in_sync nodeList kp (ms @ new_members (pool_Name p) ?miss)"
  proof -
    have "set (map snd ms) = {(t, ?np) | t. t \<in> set nodeList \<and> \<not> node_missing p t}"
      unfolding snd_ms by (auto simp: member_ok_def node_missing_def list_ex_iff assms(4)) metis
    moreover have "set (map snd (new_members (pool_Name p) ?miss)) = {(t, ?np) | t. t \<in> set nodeList \<and> node_missing p t}"
      by (auto simp only: new_members_simps np) auto
    moreover have "distinct (map snd ms)" unfolding snd_ms using targets by (simp add: distinct_map_filter)
    moreover have "distinct (map snd (new_members (pool_Name p) ?miss))"
      unfolding new_members_simps using nodes by (simp add: distinct_map inj_on_def)
    ultimately show ?thesis unfolding members_in_sync_def map_append set_append distinct_append by auto
  qed
  ultimately show ?thesis by blast
qed

lemma service_changes_kept:
  assumes ports: "list_all wf_port (svc_Ports service)" "distinct (map sp_Port (svc_Ports service))" "canonical p"
      "kp \<in> set (svc_Ports service)" "serves kp p"
    and name: "pool_Name p = genLoadBalancerPoolName kp"
  obtains q where "\<And>ms. exec (pool_effect (getServiceOptions (Some service)) nodeList) (ops_service_changes service p)
      (abs_pool p\<lparr>ap_Members := ms\<rparr>) = Some (q\<lparr>ap_Members := ms\<rparr>)"
    "\<And>ms. members_in_sync nodeList kp ms \<Longrightarrow> pool_in_sync service nodeList kp (q\<lparr>ap_Members := ms\<rparr>)"
    "\<forall>u \<in> set (ops_service_changes service p). member_update u = None"
proof -
  let ?options = "getServiceOptions (Some service)"
  let ?q = "abs_pool p\<lparr>ap_Monitor := monitor_for ?options (toInt (sp_NodePort kp)), ap_Proxy := proxy_for ?options\<rparr>"
  let ?ok = "monitor_in_sync service kp (ap_Monitor (abs_pool p)) \<and> ap_Proxy (abs_pool p) = proxy_for ?options"
  have kp: "wf_port kp" using ports(1,4) by (simp add: list_all_iff)
  have s: "ops_service_changes service p = (if ?ok then [] else [UpdatePool (genLoadBalancerPoolName kp) (pool_ID p)])"
    using find_the_port[OF ports] poolChangesNeeded_same[OF name] by (simp add: ops_service_changes_def)
  show ?thesis
  proof (cases ?ok)
    case True
    with s name show ?thesis by (intro that[of "abs_pool p"]) (auto simp: pool_in_sync_def abs_pool_def)
  next
    case False
    with s have "ops_service_changes service p = [UpdatePool (genLoadBalancerPoolName kp) (pool_ID p)]" by auto
    with name show ?thesis
      by (intro that[of ?q]) (simp_all add: pool_in_sync_def abs_pool_def monitor_for_in_sync name_fields_gen[OF kp])
  qed
qed

lemma pool_kept:
  assumes ports: "list_all wf_port (svc_Ports service)" "distinct (map sp_Port (svc_Ports service))" "canonical p"
      "kp \<in> set (svc_Ports service)" "serves kp p"
    and kept: "pool_node_port p = toInt (sp_NodePort kp)" and nodes: "distinct nodeList"
    and ids: "distinct (map mem_ID (pool_Members p))"
      "distinct (map (\<lambda>m. (mem_TargetIPAddress m, mem_Port m)) (pool_Members p))"
  defines "D \<equiv> ops_nodes_deleted (svc_Ports service) nodeList p" and "A \<equiv> ops_nodes_added (svc_Ports service) nodeList p"
  assumes mu: "mu (pool_Name p) \<Longrightarrow> D @ A \<noteq> []"
  shows "\<exists>q. exec (pool_effect (getServiceOptions (Some service)) nodeList)
      (merge_from mu [] (D @ ops_service_changes service p @ A)) (abs_pool p) = Some q \<and> pool_in_sync service nodeList kp q"
proof -
  let ?eff = "pool_effect (getServiceOptions (Some service)) nodeList" and ?S = "ops_service_changes service p"
  have kp: "wf_port kp" using ports(1,4) by (simp add: list_all_iff)
  have name: "pool_Name p = genLoadBalancerPoolName kp" using canonical_name[OF ports(3) kp ports(5)] kept by simp
  obtain q where q: "\<And>ms. exec ?eff ?S (abs_pool p\<lparr>ap_Members := ms\<rparr>) = Some (q\<lparr>ap_Members := ms\<rparr>)"
    "\<And>ms. members_in_sync nodeList kp ms \<Longrightarrow> pool_in_sync service nodeList kp (q\<lparr>ap_Members := ms\<rparr>)"
    and plain: "\<forall>u \<in> set ?S. member_update u = None"
    by (rule service_changes_kept[OF ports name, where nodeList = nodeList]) (rule that)
  have q0: "exec ?eff ?S (abs_pool p) = Some (q\<lparr>ap_Members := ap_Members (abs_pool p)\<rparr>)"
    using q(1)[of "ap_Members (abs_pool p)"] by simp
  have D: "D = map (\<lambda>m. DeletePoolMember (pool_Name p) (pool_ID p) (mem_ID m) (mem_TargetIPAddress m))
      (filter (\<lambda>m. \<not> member_ok nodeList p m) (pool_Members p))"
    and A: "A = map (CreatePoolMember (pool_Name p) (pool_ID p)) (filter (node_missing p) nodeList)"
    using node_port_kept_iff[OF ports] kept by (simp_all add: D_def A_def ops_nodes_deleted_def ops_nodes_added_def)
  have upd: "\<forall>u \<in> set D. member_update u = Some (pool_Name p, pool_ID p)"
    "\<forall>u \<in> set A. member_update u = Some (pool_Name p, pool_ID p)" by (auto simp: D A)
  show ?thesis
  proof (cases "mu (pool_Name p)")
    case False
    then have "merge_from mu [] (D @ ?S @ A) = D @ ?S @ A"
      using upd plain by (intro merge_from_unmerged) auto
    then show ?thesis
      using pool_kept_unmerged[OF ports(3) kp name kept ids nodes q(1) refl] q(2) unfolding D A by auto
  next
    case True
    then have m: "merge_from mu [] (D @ ?S @ A) = (if D = [] then ?S @ [ReplacePoolMembers (pool_Name p) (pool_ID p)]
        else ReplacePoolMembers (pool_Name p) (pool_ID p) # ?S)"
      using mu by (intro merge_from_merged[OF upd(1) plain upd(2)]) auto
    have "exec ?eff (merge_from mu [] (D @ ?S @ A)) (abs_pool p) =
        Some (q\<lparr>ap_Members := new_members (pool_Name p) nodeList\<rparr>)"
      unfolding m using q(1) q0 by (simp add: exec_append)
    with q(2) new_members_in_sync[OF kp nodes] name show ?thesis by auto
  qed
qed

lemma exec_pool_ID: "exec (pool_effect options nodeList) us p = Some q \<Longrightarrow> ap_ID q = ap_ID p"
  by (induction us arbitrary: p) (auto dest: pool_effect_ID split: option.splits)

subsection \<open>The phases of a plan\<close>

text \<open>First the listeners of ports that are gone are deleted, then the pools, which no listener uses any more.\<close>

definition listener_wanted :: "ServicePort list \<Rightarrow> VpcLoadBalancerListener \<Rightarrow> bool" where
  "listener_wanted ports l = list_ex (\<lambda>kp. isServicePortEqualListener kp l) ports"

lemma exec_listeners_deleted:
  assumes "ct_Listeners c = map abs_listener (pre @ ls)" "distinct (map lsn_ID (pre @ ls))"
  shows "exec (effect options nodeList) (concat (map (ops_listener_deleted ports) ls)) c =
    Some (c\<lparr>ct_Listeners := map abs_listener (pre @ filter (listener_wanted ports) ls)\<rparr>)"
  using assms
proof (induction ls arbitrary: pre c)
  case (Cons l ls)
  show ?case
  proof (cases "listener_wanted ports l")
    case True
    with Cons.IH[of c "pre @ [l]"] Cons.prems show ?thesis
      by (simp add: ops_listener_deleted_def listener_wanted_def)
  next
    case False
    have drop: "filter (\<lambda>x. al_ID x \<noteq> Old (lsn_ID l)) (map abs_listener (pre @ l # ls)) = map abs_listener (pre @ ls)"
      using Cons.prems(2) by (rule filter_drop_one) (simp add: abs_listener_def)
    have "Old (lsn_ID l) \<in> al_ID ` set (ct_Listeners c)" using Cons.prems(1) by (simp add: abs_listener_def)
    with False drop Cons.prems Cons.IH[of "c\<lparr>ct_Listeners := map abs_listener (pre @ ls)\<rparr>" pre] show ?thesis
      by (simp add: ops_listener_deleted_def listener_wanted_def)
  qed
qed simp

lemma exec_pools_deleted:
  assumes "ct_Pools c = map abs_pool (pre @ ps)" "distinct (map pool_ID (pre @ ps))"
    and "\<forall>p \<in> set ps. \<not> wanted ports p \<longrightarrow> Old (pool_ID p) \<notin> al_Pool ` set (ct_Listeners c)"
  shows "exec (effect options nodeList) (concat (map (ops_pool_deleted ports) ps)) c =
    Some (c\<lparr>ct_Pools := map abs_pool (pre @ filter (wanted ports) ps)\<rparr>)"
  using assms
proof (induction ps arbitrary: pre c)
  case (Cons p ps)
  show ?case
  proof (cases "wanted ports p")
    case True
    with Cons.IH[of c "pre @ [p]"] Cons.prems show ?thesis by (simp add: ops_pool_deleted_def)
  next
    case False
    have drop: "filter (\<lambda>x. ap_ID x \<noteq> Old (pool_ID p)) (map abs_pool (pre @ p # ps)) = map abs_pool (pre @ ps)"
      using Cons.prems(2) by (rule filter_drop_one) (simp add: abs_pool_def)
    have "Old (pool_ID p) \<in> ap_ID ` set (ct_Pools c)" using Cons.prems(1) by (simp add: abs_pool_def)
    with False drop Cons.prems Cons.IH[of "c\<lparr>ct_Pools := map abs_pool (pre @ ps)\<rparr>" pre] show ?thesis
      by (simp add: ops_pool_deleted_def)
  qed
qed simp

text \<open>Then the kept pools are updated, each by the operations that name it.\<close>

definition pool_ops :: "Service \<Rightarrow> string list \<Rightarrow> VpcLoadBalancerPool list \<Rightarrow> operation list" where
  "pool_ops service nodeList pools =
     concat (map (ops_nodes_deleted (svc_Ports service) nodeList) pools) @
     concat (map (ops_service_changes service) pools) @
     concat (map (ops_nodes_added (svc_Ports service) nodeList) pools)"

lemma ops_targets:
  assumes "u \<in> set (ops_nodes_deleted ports nodeList p) \<union> set (ops_service_changes service p) \<union>
    set (ops_nodes_added ports nodeList p)"
  shows "pool_target u = Some (pool_ID p)"
  using assms
  by (auto simp: ops_nodes_deleted_def ops_service_changes_def ops_nodes_added_def split: if_splits option.splits)

lemma ops_member_update:
  assumes "u \<in> set (ops_nodes_deleted ports nodeList p) \<union> set (ops_service_changes service p) \<union>
    set (ops_nodes_added ports nodeList p)" "member_update u = Some (n, i)"
  shows "n = pool_Name p \<and> i = pool_ID p"
  using assms
  by (auto simp: ops_nodes_deleted_def ops_service_changes_def ops_nodes_added_def split: if_splits option.splits)

lemma filter_concat_map:
  assumes "distinct xs" "x \<in> set xs" "\<And>y. y \<in> set xs \<Longrightarrow> \<forall>u \<in> set (f y). P u \<longleftrightarrow> y = x"
  shows "filter P (concat (map f xs)) = f x"
  using assms
proof (induction xs)
  case (Cons y ys)
  show ?case
  proof (cases "y = x")
    case True
    then have "filter P (f y) = f x" using Cons.prems(3)[of y] by (simp add: filter_id_conv)
    moreover have "filter P (concat (map f ys)) = []"
      using Cons.prems True by (fastforce simp: filter_empty_conv)
    ultimately show ?thesis by simp
  next
    case False
    then have "filter P (f y) = []" using Cons.prems(3)[of y] by (auto simp: filter_empty_conv)
    with False Cons show ?thesis by simp
  qed
qed simp

lemma hits_pool_ops:
  assumes "distinct (map pool_ID pools)" "p \<in> set pools"
  shows "filter (hits (Old (pool_ID p))) (pool_ops service nodeList pools) =
    ops_nodes_deleted (svc_Ports service) nodeList p @ ops_service_changes service p @
    ops_nodes_added (svc_Ports service) nodeList p"
proof -
  have d: "distinct pools" using assms(1) by (simp add: distinct_map)
  have id: "pool_ID y = pool_ID p \<longleftrightarrow> y = p" if "y \<in> set pools" for y
    using assms that by (metis distinct_map inj_onD)
  have h: "hits (Old (pool_ID p)) u \<longleftrightarrow> y = p" if "y \<in> set pools" "pool_target u = Some (pool_ID y)" for y u
    using that id[of y] by (auto simp: hits_def)
  show ?thesis unfolding pool_ops_def filter_append
    using h ops_targets by (intro arg_cong2[of _ _ _ _ append] filter_concat_map[OF d assms(2)]) blast+
qed

lemma merge_from_targets:
  assumes "u \<in> set (merge_from mu d us)"
  shows "\<exists>v \<in> set us. pool_target v = pool_target u"
  using assms
proof (induction us arbitrary: d)
  case (Cons v us)
  then show ?case
    by (cases "member_update v") (auto dest: member_update_target split: if_splits)
qed simp

lemma pool_opsE:
  assumes "u \<in> set (pool_ops service nodeList pools)"
  obtains p where "p \<in> set pools" "u \<in> set (ops_nodes_deleted (svc_Ports service) nodeList p) \<union>
    set (ops_service_changes service p) \<union> set (ops_nodes_added (svc_Ports service) nodeList p)"
  using assms by (auto simp: pool_ops_def)

text \<open>The pools of one load balancer, and the ports of one service, as a plan finds them.\<close>

definition plannable :: "Service \<Rightarrow> string list \<Rightarrow> VpcLoadBalancerPool list \<Rightarrow> bool" where
  "plannable service nodeList pools \<longleftrightarrow>
     list_all wf_port (svc_Ports service) \<and> distinct (map sp_Port (svc_Ports service)) \<and> distinct nodeList \<and>
     distinct (map pool_ID pools) \<and> distinct (map pool_port pools) \<and> list_all canonical pools \<and>
     list_all (\<lambda>p. distinct (map mem_ID (pool_Members p)) \<and>
       distinct (map (\<lambda>m. (mem_TargetIPAddress m, mem_Port m)) (pool_Members p))) pools"

lemma plannable_names:
  assumes "plannable service nodeList pools" "p \<in> set pools" "p' \<in> set pools"
  shows "pool_Name p = pool_Name p' \<longleftrightarrow> p = p'" "pool_ID p = pool_ID p' \<longleftrightarrow> p = p'" "pool_port p = pool_port p' \<longleftrightarrow> p = p'"
proof -
  have c: "canonical p" "canonical p'" using assms by (auto simp: plannable_def list_all_iff)
  have "inj_on pool_ID (set pools)" "inj_on pool_port (set pools)" using assms(1) by (auto simp: plannable_def distinct_map)
  then show "pool_ID p = pool_ID p' \<longleftrightarrow> p = p'" and pp: "pool_port p = pool_port p' \<longleftrightarrow> p = p'"
    using assms(2,3) by (auto dest: inj_onD)
  have "pool_Name p = pool_Name p' \<Longrightarrow> pool_port p = pool_port p'" using c by (metis canonicalE)
  with pp show "pool_Name p = pool_Name p' \<longleftrightarrow> p = p'" by blast
qed

lemma filter_hits_merge:
  assumes pl: "plannable service nodeList pools" and p: "p \<in> set pools"
  defines "ops \<equiv> pool_ops service nodeList pools"
  shows "filter (hits (Old (pool_ID p))) (merge ops) = merge_from (multi ops) []
     (ops_nodes_deleted (svc_Ports service) nodeList p @ ops_service_changes service p @
      ops_nodes_added (svc_Ports service) nodeList p)"
    and "multi ops (pool_Name p) \<Longrightarrow> ops_nodes_deleted (svc_Ports service) nodeList p @
      ops_nodes_added (svc_Ports service) nodeList p \<noteq> []"
proof -
  have ni: "n = pool_Name p \<longleftrightarrow> i = pool_ID p" if "u \<in> set ops" "member_update u = Some (n, i)" for u n i
    using that(1) unfolding ops_def
  proof (rule pool_opsE)
    fix p' assume p': "p' \<in> set pools" and "u \<in> set (ops_nodes_deleted (svc_Ports service) nodeList p') \<union>
      set (ops_service_changes service p') \<union> set (ops_nodes_added (svc_Ports service) nodeList p')"
    then have "n = pool_Name p'" "i = pool_ID p'" using ops_member_update that(2) by blast+
    with plannable_names[OF pl p' p] show ?thesis by simp
  qed
  have d: "distinct (map pool_ID pools)" using pl by (simp add: plannable_def)
  show "filter (hits (Old (pool_ID p))) (merge ops) = merge_from (multi ops) []
     (ops_nodes_deleted (svc_Ports service) nodeList p @ ops_service_changes service p @
      ops_nodes_added (svc_Ports service) nodeList p)"
    unfolding hits_pool_ops[OF d p, symmetric] merge_def ops_def[symmetric]
    using ni by (intro filter_merge_from) auto
  assume "multi ops (pool_Name p)"
  then have "filter (updates_of (pool_Name p)) ops \<noteq> []" by (auto simp: multi_def)
  then obtain u where u: "u \<in> set ops" "updates_of (pool_Name p) u" by (auto simp: filter_empty_conv)
  then obtain i where i: "member_update u = Some (pool_Name p, i)"
    by (auto simp: updates_of_def split: option.splits)
  with ni[OF u(1)] have "hits (Old (pool_ID p)) u" by (auto simp: hits_def dest: member_update_target)
  with u(1) have "u \<in> set (filter (hits (Old (pool_ID p))) ops)" by simp
  then have "u \<in> set (ops_nodes_deleted (svc_Ports service) nodeList p) \<union> set (ops_service_changes service p) \<union>
      set (ops_nodes_added (svc_Ports service) nodeList p)"
    unfolding ops_def hits_pool_ops[OF d p] by auto
  moreover have "u \<notin> set (ops_service_changes service p)"
    using i by (auto simp: ops_service_changes_def split: option.splits if_splits)
  ultimately show "ops_nodes_deleted (svc_Ports service) nodeList p @ ops_nodes_added (svc_Ports service) nodeList p \<noteq> []"
    by auto
qed

lemma exec_pools_updated:
  assumes pl: "plannable service nodeList pools" and w: "list_all (wanted (svc_Ports service)) pools"
  shows "\<exists>g. exec (effect (getServiceOptions (Some service)) nodeList) (merge (pool_ops service nodeList pools))
      (c\<lparr>ct_Pools := map abs_pool pools\<rparr>) = Some (c\<lparr>ct_Pools := map g pools\<rparr>) \<and>
    (\<forall>p \<in> set pools. \<forall>kp \<in> set (svc_Ports service). ap_ID (g p) = Old (pool_ID p) \<and>
      (serves kp p \<longrightarrow> pool_in_sync service nodeList kp (g p)))"
proof -
  let ?ops = "pool_ops service nodeList pools" and ?eff = "pool_effect (getServiceOptions (Some service)) nodeList"
  let ?run = "\<lambda>p. exec ?eff (filter (hits (ap_ID p)) (merge ?ops)) p"
  have one: "\<exists>q. ?run (abs_pool p) = Some q \<and> pool_in_sync service nodeList kp q"
    if p: "p \<in> set pools" and kp: "kp \<in> set (svc_Ports service)" "serves kp p" for p kp
  proof -
    have ports: "list_all wf_port (svc_Ports service)" "distinct (map sp_Port (svc_Ports service))" "canonical p"
      and nodes: "distinct nodeList" and ids: "distinct (map mem_ID (pool_Members p))"
        "distinct (map (\<lambda>m. (mem_TargetIPAddress m, mem_Port m)) (pool_Members p))"
      using pl p by (auto simp: plannable_def list_all_iff)
    have "filter (hits (ap_ID (abs_pool p))) (merge ?ops) = filter (hits (Old (pool_ID p))) (merge ?ops)"
      by (simp add: abs_pool_def)
    with filter_hits_merge[OF pl p] pool_moved[OF ports kp _ nodes, of "multi ?ops"]
      pool_kept[OF ports kp _ nodes ids, of "multi ?ops"]
    show ?thesis by (cases "pool_node_port p = toInt (sp_NodePort kp)") auto
  qed
  have ex: "\<exists>kp \<in> set (svc_Ports service). serves kp p" if "p \<in> set pools" for p
    using w that by (auto simp: list_all_iff wanted_def list_ex_iff)
  have run: "?run (abs_pool p) \<noteq> None" if "p \<in> set pools" for p using one ex that by blast
  have "exec (effect (getServiceOptions (Some service)) nodeList) (merge ?ops) (c\<lparr>ct_Pools := map abs_pool pools\<rparr>) =
      Some (c\<lparr>ct_Pools := map (\<lambda>p. the (?run p)) (map abs_pool pools)\<rparr>)"
  proof (rule exec_pools)
    show "distinct (map ap_ID (map abs_pool pools))"
      using pl by (simp add: plannable_def abs_pool_def comp_def distinct_map inj_on_def)
    show "\<forall>u \<in> set (merge ?ops). \<exists>p \<in> set (map abs_pool pools). hits (ap_ID p) u"
    proof
      fix u assume "u \<in> set (merge ?ops)"
      then obtain v where "v \<in> set ?ops" "pool_target v = pool_target u"
        unfolding merge_def using merge_from_targets by blast
      then obtain p where "p \<in> set pools" "pool_target u = Some (pool_ID p)"
        using ops_targets by (metis pool_opsE)
      then show "\<exists>p \<in> set (map abs_pool pools). hits (ap_ID p) u" by (auto simp: hits_def abs_pool_def)
    qed
    show "\<forall>p \<in> set (map abs_pool pools). ?run p \<noteq> None" using run by auto
  qed
  moreover have "ap_ID (the (?run (abs_pool p))) = Old (pool_ID p)" if "p \<in> set pools" for p
    using run[OF that] exec_pool_ID by (fastforce simp: abs_pool_def)
  moreover have "pool_in_sync service nodeList kp (the (?run (abs_pool p)))"
    if "p \<in> set pools" "kp \<in> set (svc_Ports service)" "serves kp p" for p kp
    using one[OF that] by auto
  ultimately show ?thesis by (intro exI[of _ "\<lambda>p. the (?run (abs_pool p))"]) (simp add: comp_def)
qed

text \<open>Finally a pool and a listener are created for every port that has none.\<close>

lemma listener_in_sync_append: "listener_in_sync ps kp l \<Longrightarrow> listener_in_sync (ps @ qs) kp l"
  by (simp add: listener_in_sync_def)

lemma new_listener_in_sync:
  assumes "wf_port kp" "find (\<lambda>p. ap_Name p = genLoadBalancerPoolName kp) ps = Some p"
  shows "listener_in_sync ps kp (new_listener (genLoadBalancerPoolName kp) (ap_ID p))"
  using assms name_fields_gen[OF assms(1)]
  by (auto simp: listener_in_sync_def new_listener_def wf_port_def list_ex_iff find_Some_iff)

definition created_pools ::
  "ServiceOptions \<Rightarrow> string list \<Rightarrow> VpcLoadBalancerPool list \<Rightarrow> ServicePort list \<Rightarrow> apool list" where
  "created_pools options nodeList pools kps = map (\<lambda>kp. new_pool options nodeList (genLoadBalancerPoolName kp))
     (filter (\<lambda>kp. \<not> list_ex (serves kp) pools) kps)"

definition created_ports :: "VpcLoadBalancerListener list \<Rightarrow> ServicePort list \<Rightarrow> int64 list" where
  "created_ports listeners kps = map (\<lambda>kp. toInt (sp_Port kp))
     (filter (\<lambda>kp. \<not> list_ex (isServicePortEqualListener kp) listeners) kps)"

lemma created_Cons:
  "created_pools options nodeList pools (kp # kps) =
     created_pools options nodeList pools [kp] @ created_pools options nodeList pools kps"
  "created_ports listeners (kp # kps) = created_ports listeners [kp] @ created_ports listeners kps"
  by (simp_all add: created_pools_def created_ports_def)

lemma created_set:
  "ap_Name ` set (created_pools options nodeList pools [kp]) \<subseteq> {genLoadBalancerPoolName kp}"
  "set (created_ports listeners [kp]) \<subseteq> {toInt (sp_Port kp)}"
  by (auto simp: created_pools_def created_ports_def new_pool_def)

lemma exec_port_added:
  fixes options nodeList
  assumes kp: "wf_port kp"
    and P: "list_ex (serves kp) pools \<longleftrightarrow> genLoadBalancerPoolName kp \<in> ap_Name ` set (ct_Pools c)"
    and L: "list_ex (isServicePortEqualListener kp) listeners \<longleftrightarrow> toInt (sp_Port kp) \<in> al_Port ` set (ct_Listeners c)"
  defines "ps \<equiv> ct_Pools c @ created_pools options nodeList pools [kp]"
  shows "\<exists>ls. exec (effect options nodeList) (ops_port_added listeners pools kp) c =
      Some (c\<lparr>ct_Pools := ps, ct_Listeners := ct_Listeners c @ ls\<rparr>) \<and>
    map al_Port ls = created_ports listeners [kp] \<and> (\<forall>l \<in> set ls. listener_in_sync ps kp l)"
proof -
  let ?n = "genLoadBalancerPoolName kp"
  have "?n \<in> ap_Name ` set ps" using P by (auto simp: ps_def created_pools_def new_pool_def)
  then obtain p where p: "find (\<lambda>p. ap_Name p = ?n) ps = Some p"
    by (cases "find (\<lambda>p. ap_Name p = ?n) ps") (auto simp: find_None_iff)
  have pools: "exec (effect options nodeList) (if list_ex (serves kp) pools then [] else [CreatePool ?n]) c = Some (c\<lparr>ct_Pools := ps\<rparr>)"
    using P by (simp add: ps_def created_pools_def)
  show ?thesis
  proof (cases "list_ex (isServicePortEqualListener kp) listeners")
    case True
    with pools show ?thesis by (intro exI[of _ "[]"]) (simp add: ops_port_added_def created_ports_def)
  next
    case False
    then have "exec (effect options nodeList) [CreateListener ?n] (c\<lparr>ct_Pools := ps\<rparr>) =
        Some (c\<lparr>ct_Pools := ps, ct_Listeners := ct_Listeners c @ [new_listener ?n (ap_ID p)]\<rparr>)"
      using L p name_fields_gen[OF kp] by simp
    with False pools new_listener_in_sync[OF kp p] name_fields_gen[OF kp] show ?thesis
      unfolding ops_port_added_def exec_append
      by (intro exI[of _ "[new_listener ?n (ap_ID p)]"]) (simp add: new_listener_def created_ports_def)
  qed
qed

lemma exec_ports_added:
  assumes "list_all wf_port kps" "distinct (map sp_Port kps)"
    and "\<forall>kp \<in> set kps. list_ex (serves kp) pools \<longleftrightarrow> genLoadBalancerPoolName kp \<in> ap_Name ` set (ct_Pools c)"
    and "\<forall>kp \<in> set kps. list_ex (isServicePortEqualListener kp) listeners \<longleftrightarrow> toInt (sp_Port kp) \<in> al_Port ` set (ct_Listeners c)"
  shows "\<exists>ls. exec (effect options nodeList) (concat (map (ops_port_added listeners pools) kps)) c =
      Some (c\<lparr>ct_Pools := ct_Pools c @ created_pools options nodeList pools kps, ct_Listeners := ct_Listeners c @ ls\<rparr>) \<and>
    map al_Port ls = created_ports listeners kps \<and>
    (\<forall>l \<in> set ls. \<exists>kp \<in> set kps. listener_in_sync (ct_Pools c @ created_pools options nodeList pools kps) kp l)"
  using assms
proof (induction kps arbitrary: c)
  case Nil
  then show ?case by (simp add: created_pools_def created_ports_def)
next
  case (Cons kp kps)
  let ?add = "created_pools options nodeList pools [kp]" and ?rest = "created_pools options nodeList pools kps"
  have "\<exists>ls. exec (effect options nodeList) (ops_port_added listeners pools kp) c =
      Some (c\<lparr>ct_Pools := ct_Pools c @ ?add, ct_Listeners := ct_Listeners c @ ls\<rparr>) \<and>
    map al_Port ls = created_ports listeners [kp] \<and> (\<forall>l \<in> set ls. listener_in_sync (ct_Pools c @ ?add) kp l)"
    using Cons.prems by (intro exec_port_added) simp_all
  then obtain ls where ls: "exec (effect options nodeList) (ops_port_added listeners pools kp) c =
      Some (c\<lparr>ct_Pools := ct_Pools c @ ?add, ct_Listeners := ct_Listeners c @ ls\<rparr>)"
    "map al_Port ls = created_ports listeners [kp]" "\<forall>l \<in> set ls. listener_in_sync (ct_Pools c @ ?add) kp l"
    by blast
  let ?c = "c\<lparr>ct_Pools := ct_Pools c @ ?add, ct_Listeners := ct_Listeners c @ ls\<rparr>"
  have other: "genLoadBalancerPoolName kp' \<noteq> genLoadBalancerPoolName kp" "sp_Port kp' \<noteq> sp_Port kp" if "kp' \<in> set kps" for kp'
    using that Cons.prems(1,2) gen_inject[of kp' kp] by (auto simp: list_all_iff image_iff)
  have "al_Port ` set ls \<subseteq> {toInt (sp_Port kp)}"
    using arg_cong[OF ls(2), of set] created_set(2)[of listeners kp] by auto
  with other have L: "\<forall>kp' \<in> set kps. list_ex (isServicePortEqualListener kp') listeners \<longleftrightarrow> toInt (sp_Port kp') \<in> al_Port ` set (ct_Listeners ?c)"
    using Cons.prems(4) by (fastforce simp: image_Un)
  from other have P: "\<forall>kp' \<in> set kps. list_ex (serves kp') pools \<longleftrightarrow> genLoadBalancerPoolName kp' \<in> ap_Name ` set (ct_Pools ?c)"
    using Cons.prems(3) created_set(1)[of options nodeList pools kp] by (auto simp: image_Un)
  have "list_all wf_port kps" "distinct (map sp_Port kps)" using Cons.prems(1,2) by simp_all
  from Cons.IH[OF this P L] obtain ls' where ls': "exec (effect options nodeList) (concat (map (ops_port_added listeners pools) kps)) ?c =
      Some (?c\<lparr>ct_Pools := ct_Pools ?c @ ?rest, ct_Listeners := ct_Listeners ?c @ ls'\<rparr>)"
    "map al_Port ls' = created_ports listeners kps"
    "\<forall>l \<in> set ls'. \<exists>kp \<in> set kps. listener_in_sync (ct_Pools ?c @ ?rest) kp l"
    by blast
  show ?case
  proof (intro exI[of _ "ls @ ls'"] conjI ballI)
    show "map al_Port (ls @ ls') = created_ports listeners (kp # kps)"
      using ls(2) ls'(2) created_Cons(2)[of listeners kp kps] by simp
    fix l assume "l \<in> set (ls @ ls')"
    then show "\<exists>kp' \<in> set (kp # kps). listener_in_sync (ct_Pools c @ created_pools options nodeList pools (kp # kps)) kp' l"
      using ls(3) ls'(3) listener_in_sync_append[of "ct_Pools c @ ?add" kp l ?rest]
        created_Cons(1)[of options nodeList pools kp kps] by auto
  qed (use ls(1) ls'(1) created_Cons(1)[of options nodeList pools kp kps] in \<open>simp add: exec_append\<close>)
qed

subsection \<open>The whole plan\<close>

lemma plan_phases:
  "plan listeners pools service nodeList =
    (concat (map (ops_listener_deleted (svc_Ports service)) listeners) @
     concat (map (ops_pool_deleted (svc_Ports service)) pools)) @
    merge (pool_ops service nodeList (filter (wanted (svc_Ports service)) pools)) @
    concat (map (ops_port_added listeners pools) (svc_Ports service))"
proof -
  let ?ports = "svc_Ports service"
  have drop: "concat (map f (filter (wanted ?ports) pools)) = concat (map f pools)"
    if "\<And>p. \<not> wanted ?ports p \<Longrightarrow> f p = []" for f :: "VpcLoadBalancerPool \<Rightarrow> operation list"
    using that by (induction pools) auto
  have "find (\<lambda>kp. serves kp p) ?ports = None" if "\<not> wanted ?ports p" for p
    using that by (auto simp: wanted_def find_None_iff list_ex_iff)
  then have "pool_ops service nodeList (filter (wanted ?ports) pools) = pool_ops service nodeList pools"
    unfolding pool_ops_def
    by (intro arg_cong2[of _ _ _ _ append] drop)
      (auto simp: ops_nodes_deleted_def ops_nodes_added_def node_port_kept_def ops_service_changes_def)
  then show ?thesis
    unfolding plan_def raw_plan_def Let_def
    by (subst merge_frame[symmetric])
      (auto simp: pool_ops_def ops_listener_deleted_def ops_pool_deleted_def ops_port_added_def split: if_splits)
qed

lemma EqualFold_TCP: "EqualFold x ''tcp'' \<Longrightarrow> EqualFold x ''TCP''"
  by (simp add: EqualFold_def)

lemma listener_equal_iff:
  "wf_port kp \<Longrightarrow> EqualFold (lsn_Protocol l) ''tcp'' \<Longrightarrow>
   isServicePortEqualListener kp l \<longleftrightarrow> lsn_Port l = toInt (sp_Port kp)"
  by (auto simp: isServicePortEqualListener_def wf_port_def EqualFold_TCP)

lemma consistent_listener:
  assumes "list_all wf_port ports" "consistent listeners pools" "l \<in> set listeners" "listener_wanted ports l"
  obtains kp p where "kp \<in> set ports" "p \<in> set pools" "serves kp p" "lsn_Port l = toInt (sp_Port kp)"
    "EqualFold (lsn_Protocol l) (sp_Protocol kp)" "pool_ID p = ref_ID (lsn_DefaultPool l)"
proof -
  obtain kp where kp: "kp \<in> set ports" "isServicePortEqualListener kp l"
    using assms(4) by (auto simp: listener_wanted_def list_ex_iff)
  obtain p where p: "p \<in> set pools" "pool_ID p = ref_ID (lsn_DefaultPool l)" "pool_port p = lsn_Port l" "canonical p"
    using assms(2,3) by (auto simp: consistent_def list_all_iff list_ex_iff)
  have "serves kp p" using serves_iff[OF p(4), of kp] assms(1) kp p(3)
    by (auto simp: list_all_iff isServicePortEqualListener_def)
  with kp p that show ?thesis by (auto simp: isServicePortEqualListener_def)
qed

text \<open>What holds of the pools and listeners that survive the deletions, once the pools have been updated.\<close>

lemma updated_pools:
  assumes ports: "list_all wf_port ports" "distinct (map sp_Port ports)" "ports = svc_Ports service"
    and pl: "plannable service nodeList pools"
    and g: "\<forall>p \<in> set (filter (wanted ports) pools). \<forall>kp \<in> set ports.
      serves kp p \<longrightarrow> pool_in_sync service nodeList kp (g p)"
  defines "kept \<equiv> filter (wanted ports) pools"
  shows "distinct (map ap_Name (map g kept))"
    and "\<forall>kp \<in> set ports. list_ex (serves kp) pools \<longleftrightarrow> genLoadBalancerPoolName kp \<in> ap_Name ` set (map g kept)"
    and "set (map ap_Name (map g kept)) \<subseteq> genLoadBalancerPoolName ` set ports"
    and "\<forall>q \<in> set (map g kept). \<exists>kp \<in> set ports. pool_in_sync service nodeList kp q"
proof -
  have port: "\<exists>kp \<in> set ports. serves kp p \<and> pool_in_sync service nodeList kp (g p) \<and> ap_Name (g p) = genLoadBalancerPoolName kp"
    if "p \<in> set kept" for p
    using that g by (auto simp: kept_def wanted_def list_ex_iff pool_in_sync_def)
  have inj: "p = p'" if "p \<in> set kept" "p' \<in> set kept" "ap_Name (g p) = ap_Name (g p')" for p p'
  proof -
    from port that obtain kp kp' where kp: "kp \<in> set ports" "serves kp p" "kp' \<in> set ports" "serves kp' p'"
      "genLoadBalancerPoolName kp = genLoadBalancerPoolName kp'" by metis
    with ports(1) have "kp = kp'" by (auto simp: list_all_iff intro: gen_inject)
    moreover have "canonical p" "canonical p'" "p \<in> set pools" "p' \<in> set pools"
      using pl that by (auto simp: plannable_def list_all_iff kept_def)
    ultimately show ?thesis
      using plannable_names(3)[OF pl, of p p'] kp ports(1) serves_iff by (metis list_all_iff)
  qed
  have "distinct kept" using pl by (auto simp: plannable_def distinct_map kept_def)
  with inj show "distinct (map ap_Name (map g kept))" by (auto simp: distinct_map inj_on_def)
  show "set (map ap_Name (map g kept)) \<subseteq> genLoadBalancerPoolName ` set ports"
    and "\<forall>q \<in> set (map g kept). \<exists>kp \<in> set ports. pool_in_sync service nodeList kp q"
    using port by fastforce+
  show "\<forall>kp \<in> set ports. list_ex (serves kp) pools \<longleftrightarrow> genLoadBalancerPoolName kp \<in> ap_Name ` set (map g kept)"
  proof (intro ballI iffI)
    fix kp assume kp: "kp \<in> set ports"
    { assume "list_ex (serves kp) pools"
      then obtain p where p: "p \<in> set pools" "serves kp p" by (auto simp: list_ex_iff)
      with kp have "p \<in> set kept" by (auto simp: kept_def wanted_def list_ex_iff)
      moreover have "ap_Name (g p) = genLoadBalancerPoolName kp"
        using g kp p \<open>p \<in> set kept\<close> by (auto simp: kept_def pool_in_sync_def)
      ultimately show "genLoadBalancerPoolName kp \<in> ap_Name ` set (map g kept)"
        by (metis image_eqI image_set) }
    { assume "genLoadBalancerPoolName kp \<in> ap_Name ` set (map g kept)"
      then obtain p where p: "p \<in> set kept" "ap_Name (g p) = genLoadBalancerPoolName kp" by auto
      with port obtain kp' where "kp' \<in> set ports" "serves kp' p" "genLoadBalancerPoolName kp' = genLoadBalancerPoolName kp"
        by metis
      with ports(1) kp have "serves kp p" using gen_inject[of kp' kp] by (auto simp: list_all_iff)
      with p show "list_ex (serves kp) pools" by (auto simp: list_ex_iff kept_def) }
  qed
qed

lemma kept_listeners:
  assumes ports: "list_all wf_port ports" and con: "consistent listeners pools"
  defines "kept \<equiv> filter (listener_wanted ports) listeners"
  shows "\<forall>kp \<in> set ports. list_ex (isServicePortEqualListener kp) listeners \<longleftrightarrow>
      toInt (sp_Port kp) \<in> al_Port ` set (map abs_listener kept)"
    and "distinct (map al_Port (map abs_listener kept))"
    and "set (map al_Port (map abs_listener kept)) \<subseteq> (\<lambda>kp. toInt (sp_Port kp)) ` set ports"
proof -
  have al: "al_Port (abs_listener l) = lsn_Port l" for l by (simp add: abs_listener_def)
  have eq: "isServicePortEqualListener kp l \<longleftrightarrow> lsn_Port l = toInt (sp_Port kp)"
    if "kp \<in> set ports" "l \<in> set listeners" for kp l
    using that ports con by (intro listener_equal_iff) (auto simp: list_all_iff consistent_def)
  show "\<forall>kp \<in> set ports. list_ex (isServicePortEqualListener kp) listeners \<longleftrightarrow>
      toInt (sp_Port kp) \<in> al_Port ` set (map abs_listener kept)"
    using eq by (fastforce simp: kept_def listener_wanted_def list_ex_iff al image_iff)
  show "distinct (map al_Port (map abs_listener kept))"
    using con by (simp add: consistent_def al comp_def kept_def distinct_map_filter)
  show "set (map al_Port (map abs_listener kept)) \<subseteq> (\<lambda>kp. toInt (sp_Port kp)) ` set ports"
    using eq by (auto simp: kept_def listener_wanted_def list_ex_iff al)
qed

lemma exec_deletions:
  assumes ports: "list_all wf_port (svc_Ports service)" and con: "consistent listeners pools"
  shows "exec (effect options nodeList) (concat (map (ops_listener_deleted (svc_Ports service)) listeners) @
      concat (map (ops_pool_deleted (svc_Ports service)) pools)) (abs_content listeners pools) =
    Some (abs_content (filter (listener_wanted (svc_Ports service)) listeners) (filter (wanted (svc_Ports service)) pools))"
proof -
  let ?ports = "svc_Ports service"
  let ?c = "\<lparr>ct_Listeners = map abs_listener (filter (listener_wanted ?ports) listeners), ct_Pools = map abs_pool pools\<rparr>"
  have "exec (effect options nodeList) (concat (map (ops_listener_deleted ?ports) listeners)) (abs_content listeners pools) = Some ?c"
    using exec_listeners_deleted[of "abs_content listeners pools" "[]" listeners] con
    by (simp add: abs_content_def consistent_def)
  moreover have "exec (effect options nodeList) (concat (map (ops_pool_deleted ?ports) pools)) ?c =
      Some (?c\<lparr>ct_Pools := map abs_pool (filter (wanted ?ports) pools)\<rparr>)"
  proof (rule exec_pools_deleted[of _ "[]", simplified append_Nil])
    show "distinct (map pool_ID pools)" using con by (simp add: consistent_def)
    show "\<forall>p \<in> set pools. \<not> wanted ?ports p \<longrightarrow> Old (pool_ID p) \<notin> al_Pool ` set (ct_Listeners ?c)"
    proof (intro ballI impI notI)
      fix p assume p: "p \<in> set pools" "\<not> wanted ?ports p" "Old (pool_ID p) \<in> al_Pool ` set (ct_Listeners ?c)"
      then obtain l where l: "l \<in> set listeners" "listener_wanted ?ports l" "pool_ID p = ref_ID (lsn_DefaultPool l)"
        by (auto simp: abs_listener_def)
      obtain kp p' where "kp \<in> set ?ports" "p' \<in> set pools" "serves kp p'" "pool_ID p' = ref_ID (lsn_DefaultPool l)"
        by (rule consistent_listener[OF ports con l(1,2)]) (rule that)
      moreover have "inj_on pool_ID (set pools)" using con by (simp add: consistent_def distinct_map)
      ultimately have "p' = p" using l(3) p(1) by (simp add: inj_on_def)
      with \<open>serves kp p'\<close> \<open>kp \<in> set ?ports\<close> p(2) show False by (auto simp: wanted_def list_ex_iff)
    qed
  qed simp
  ultimately show ?thesis by (simp add: exec_append abs_content_def)
qed

lemma new_pool_in_sync:
  assumes "wf_port kp" "distinct nodeList"
  shows "pool_in_sync service nodeList kp (new_pool (getServiceOptions (Some service)) nodeList (genLoadBalancerPoolName kp))"
  using assms by (simp add: pool_in_sync_def new_pool_def new_members_in_sync monitor_for_in_sync name_fields_gen)

lemma append_created:
  assumes "\<forall>kp \<in> set kps. P kp \<longleftrightarrow> f kp \<in> set xs" "distinct (map f kps)" "distinct xs" "set xs \<subseteq> f ` set kps"
  shows "distinct (xs @ map f (filter (\<lambda>kp. \<not> P kp) kps))" "set (xs @ map f (filter (\<lambda>kp. \<not> P kp) kps)) = f ` set kps"
  using assms by (auto simp: distinct_map_filter)

lemma plan_reaches_sync:
  assumes ports: "list_all wf_port (svc_Ports service)" "distinct_ports service"
    and con: "consistent listeners pools" and nodes: "distinct nodeList"
  shows "\<exists>c. exec (effect (getServiceOptions (Some service)) nodeList) (plan listeners pools service nodeList)
      (abs_content listeners pools) = Some c \<and> in_sync service nodeList c"
proof -
  let ?ports = "svc_Ports service" and ?options = "getServiceOptions (Some service)"
  let ?ls = "filter (listener_wanted ?ports) listeners" and ?ps = "filter (wanted ?ports) pools"
  have d: "distinct (map sp_Port ?ports)" using ports(2) by (simp add: distinct_ports_def)
  have pl: "plannable service nodeList pools" and pl': "plannable service nodeList ?ps"
    using con ports(1) d nodes by (auto simp: consistent_def plannable_def list_all_iff distinct_map_filter)
  obtain g where g: "exec (effect ?options nodeList) (merge (pool_ops service nodeList ?ps)) (abs_content ?ls ?ps) =
      Some ((abs_content ?ls ?ps)\<lparr>ct_Pools := map g ?ps\<rparr>)"
    "\<forall>p \<in> set ?ps. \<forall>kp \<in> set ?ports. ap_ID (g p) = Old (pool_ID p) \<and> (serves kp p \<longrightarrow> pool_in_sync service nodeList kp (g p))"
    using exec_pools_updated[OF pl', of "abs_content ?ls ?ps"] by (auto simp: abs_content_def list_all_iff)
  let ?c = "(abs_content ?ls ?ps)\<lparr>ct_Pools := map g ?ps\<rparr>"
  have g2: "\<forall>p \<in> set ?ps. \<forall>kp \<in> set ?ports. serves kp p \<longrightarrow> pool_in_sync service nodeList kp (g p)" using g(2) by blast
  note pools = updated_pools[OF ports(1) d refl pl g2] and lsts = kept_listeners[OF ports(1) con]
  let ?new = "created_pools ?options nodeList pools ?ports"
  obtain nls where nls: "exec (effect ?options nodeList) (concat (map (ops_port_added listeners pools) ?ports)) ?c =
      Some (?c\<lparr>ct_Pools := map g ?ps @ ?new, ct_Listeners := map abs_listener ?ls @ nls\<rparr>)"
    "map al_Port nls = created_ports listeners ?ports"
    "\<forall>l \<in> set nls. \<exists>kp \<in> set ?ports. listener_in_sync (map g ?ps @ ?new) kp l"
    using exec_ports_added[OF ports(1) d, of pools ?c listeners ?options nodeList] pools(2) lsts(1)
    by (auto simp: abs_content_def)
  let ?fin = "\<lparr>ct_Listeners = map abs_listener ?ls @ nls, ct_Pools = map g ?ps @ ?new\<rparr>"
  have "exec (effect ?options nodeList) (plan listeners pools service nodeList) (abs_content listeners pools) = Some ?fin"
    unfolding plan_phases
    by (rule exec_then[OF exec_deletions[OF ports(1) con]], rule exec_then[OF g(1)]) (use nls(1) in \<open>simp add: abs_content_def\<close>)
  moreover have "in_sync service nodeList ?fin"
  proof -
    have old: "\<exists>kp \<in> set ?ports. listener_in_sync (map g ?ps @ ?new) kp (abs_listener l)" if "l \<in> set ?ls" for l
    proof -
      from that have l: "l \<in> set listeners" "listener_wanted ?ports l" by auto
      obtain kp p where kp: "kp \<in> set ?ports" "p \<in> set pools" "serves kp p" "lsn_Port l = toInt (sp_Port kp)"
        "EqualFold (lsn_Protocol l) (sp_Protocol kp)" "pool_ID p = ref_ID (lsn_DefaultPool l)"
        by (rule consistent_listener[OF ports(1) con l]) (rule that)
      then have "p \<in> set ?ps" by (auto simp: wanted_def list_ex_iff)
      with kp g(2) have "ap_ID (g p) = Old (pool_ID p)" "ap_Name (g p) = genLoadBalancerPoolName kp"
        by (auto simp: pool_in_sync_def)
      with kp \<open>p \<in> set ?ps\<close> show ?thesis
        by (intro bexI[of _ kp]) (auto simp: listener_in_sync_def abs_listener_def list_ex_iff)
    qed
    have names: "map ap_Name ?new = map genLoadBalancerPoolName (filter (\<lambda>kp. \<not> list_ex (serves kp) pools) ?ports)"
      by (simp add: created_pools_def new_pool_def)
    have gen: "distinct (map genLoadBalancerPoolName ?ports)"
      using ports(1) d gen_inject by (fastforce simp: distinct_map inj_on_def list_all_iff)
    have prt: "distinct (map (\<lambda>kp. toInt (sp_Port kp)) ?ports)" using d by (simp add: distinct_map inj_on_def)
    have 1: "distinct (map ap_Name (map g ?ps @ ?new))"
      using append_created(1)[OF _ gen pools(1,3)] pools(2) names by (simp only: map_append set_map)
    have 2: "set (map ap_Name (map g ?ps @ ?new)) = genLoadBalancerPoolName ` set ?ports"
      using append_created(2)[OF _ gen pools(1,3)] pools(2) names by (simp only: map_append set_map)
    have 3: "list_all (\<lambda>p. list_ex (\<lambda>kp. pool_in_sync service nodeList kp p) ?ports) (map g ?ps @ ?new)"
      using pools(4) new_pool_in_sync[OF _ nodes] ports(1)
      by (auto simp: list_all_iff list_ex_iff created_pools_def) blast
    have 4: "distinct (map al_Port (map abs_listener ?ls @ nls))"
      using append_created(1)[OF _ prt lsts(2,3)] lsts(1) nls(2) by (simp only: map_append set_map created_ports_def)
    have 5: "set (map al_Port (map abs_listener ?ls @ nls)) = (\<lambda>kp. toInt (sp_Port kp)) ` set ?ports"
      using append_created(2)[OF _ prt lsts(2,3)] lsts(1) nls(2) by (simp only: map_append set_map created_ports_def)
    have 6: "list_all (\<lambda>l. list_ex (\<lambda>kp. listener_in_sync (map g ?ps @ ?new) kp l) ?ports) (map abs_listener ?ls @ nls)"
      using old nls(3) by (auto simp: list_all_iff list_ex_iff)
    from 1 2 3 4 5 6 show ?thesis by (simp add: in_sync_def)
  qed
  ultimately show ?thesis by blast
qed

subsection \<open>A load balancer in sync needs no update\<close>

lemma pool_in_sync_no_ops:
  assumes ports: "list_all wf_port (svc_Ports service)" "distinct (map sp_Port (svc_Ports service))" "canonical p"
    and kp: "kp \<in> set (svc_Ports service)" "pool_in_sync service nodeList kp (abs_pool p)"
  shows "serves kp p" "ops_nodes_deleted (svc_Ports service) nodeList p = []" "ops_service_changes service p = []"
    "ops_nodes_added (svc_Ports service) nodeList p = []"
proof -
  have w: "wf_port kp" using ports(1) kp(1) by (simp add: list_all_iff)
  have name: "pool_Name p = genLoadBalancerPoolName kp"
    and ms: "members_in_sync nodeList kp (map abs_member (pool_Members p))"
    and mon: "monitor_in_sync service kp (ap_Monitor (abs_pool p))"
      "ap_Proxy (abs_pool p) = proxy_for (getServiceOptions (Some service))"
    using kp(2) by (simp_all add: pool_in_sync_def abs_pool_def)
  show sv: "serves kp p" using wf_port_serves(1)[OF w name] .
  have np: "pool_node_port p = toInt (sp_NodePort kp)" using canonical_name[OF ports(3) w sv] name by simp
  have set: "(\<lambda>m. (mem_TargetIPAddress m, mem_Port m)) ` set (pool_Members p) = (\<lambda>node. (node, toInt (sp_NodePort kp))) ` set nodeList"
    using ms by (auto simp: members_in_sync_def abs_member_def image_image)
  have "member_ok nodeList p m" if "m \<in> set (pool_Members p)" for m
    using that set np by (fastforce simp: member_ok_def)
  then show "ops_nodes_deleted (svc_Ports service) nodeList p = []"
    by (auto simp: ops_nodes_deleted_def filter_empty_conv)
  have "\<not> node_missing p t" if "t \<in> set nodeList" for t
  proof -
    have "(t, toInt (sp_NodePort kp)) \<in> (\<lambda>m. (mem_TargetIPAddress m, mem_Port m)) ` set (pool_Members p)"
      using that set by simp
    with np show ?thesis by (auto simp: node_missing_def list_ex_iff)
  qed
  then show "ops_nodes_added (svc_Ports service) nodeList p = []"
    by (auto simp: ops_nodes_added_def filter_empty_conv)
  show "ops_service_changes service p = []"
    using find_the_port[OF ports kp(1) sv] poolChangesNeeded_same[OF name] mon by (simp add: ops_service_changes_def)
qed

lemma in_sync_no_plan:
  assumes ports: "list_all wf_port (svc_Ports service)" "distinct_ports service"
    and con: "consistent listeners pools" and sync: "in_sync service nodeList (abs_content listeners pools)"
  shows "plan listeners pools service nodeList = []"
proof -
  let ?ports = "svc_Ports service"
  have d: "distinct (map sp_Port ?ports)" using ports(2) by (simp add: distinct_ports_def)
  have p: "\<exists>kp \<in> set ?ports. canonical p \<and> pool_in_sync service nodeList kp (abs_pool p)" if "p \<in> set pools" for p
    using sync con that by (fastforce simp: in_sync_def abs_content_def consistent_def list_all_iff list_ex_iff)
  have pool: "wanted ?ports p \<and> ops_nodes_deleted ?ports nodeList p = [] \<and> ops_service_changes service p = [] \<and>
      ops_nodes_added ?ports nodeList p = []" if pin: "p \<in> set pools" for p
  proof -
    from p[OF pin] obtain kp where kp: "kp \<in> set ?ports" "canonical p" "pool_in_sync service nodeList kp (abs_pool p)" by blast
    from pool_in_sync_no_ops[OF ports(1) d kp(2,1,3)] kp(1) show ?thesis by (auto simp: wanted_def list_ex_iff)
  qed
  have lsn: "listener_wanted ?ports l" if "l \<in> set listeners" for l
  proof -
    from sync that obtain kp where "kp \<in> set ?ports" "listener_in_sync (map abs_pool pools) kp (abs_listener l)"
      by (auto simp: in_sync_def abs_content_def list_all_iff list_ex_iff)
    then show ?thesis
      by (auto simp: listener_wanted_def list_ex_iff listener_in_sync_def abs_listener_def isServicePortEqualListener_def)
  qed
  have port: "ops_port_added listeners pools kp = []" if kp: "kp \<in> set ?ports" for kp
  proof -
    have w: "wf_port kp" using ports(1) kp by (simp add: list_all_iff)
    have "genLoadBalancerPoolName kp \<in> pool_Name ` set pools" "toInt (sp_Port kp) \<in> lsn_Port ` set listeners"
      using sync kp by (auto simp: in_sync_def abs_content_def abs_pool_def abs_listener_def image_image)
    then obtain p l where "p \<in> set pools" "pool_Name p = genLoadBalancerPoolName kp" "l \<in> set listeners" "lsn_Port l = toInt (sp_Port kp)"
      by auto
    moreover from this(3) con have "EqualFold (lsn_Protocol l) ''tcp''" by (simp add: consistent_def list_all_iff)
    ultimately show ?thesis
      using wf_port_serves(1)[OF w] listener_equal_iff[OF w, of l] by (auto simp: ops_port_added_def list_ex_iff)
  qed
  have "raw_plan listeners pools service nodeList = []"
    using pool lsn port by (auto simp: raw_plan_def Let_def ops_listener_deleted_def ops_pool_deleted_def listener_wanted_def)
  then show ?thesis by (simp add: plan_def merge_def)
qed

subsection \<open>Properties\<close>

lemma ex_consistent: "consistent ex_listeners ex_pools"
  by code_simp

lemma ex_distinct: "distinct_ports ex_service" "distinct ex_nodes"
  by code_simp+

lemma wf_inputs_ports: "wf_inputs listeners pools service nodeList \<Longrightarrow> list_all wf_port (svc_Ports service)"
  by (simp add: wf_inputs_def)

text \<open>C7: The plan of \<open>UpdateLoadBalancer\<close> does what it is for. From any consistent load balancer planning succeeds, the
  planned lines are those of operations that can be carried out one after the other (no pool is deleted while in use,
  no listener is created before its pool, nothing is created twice), and the result is in sync with the service: one pool
  and one listener per service port and no other, every pool with exactly the nodes as members on the service's node
  port and with the health check of the traffic policy, every listener attached to the pool of its port. Of pools that are there it
  has the proxy protocol, too; those that the plan creates start without it (see \<open>Vpc_Effects\<close>).\<close>

theorem update_plan_converges:
  assumes "wf_inputs listeners pools service nodeList" "consistent listeners pools"
    and "distinct_ports service" "distinct nodeList"
  shows "\<exists>us pools' c. planUpdates listeners pools service nodeList = Inr (map line_of us, pools') \<and>
    exec (effect (getServiceOptions (Some service)) nodeList) us (abs_content listeners pools) = Some c \<and>
    in_sync service nodeList c"
  using planUpdates_refines_plan[OF assms(1)] plan_reaches_sync[OF wf_inputs_ports[OF assms(1)] assms(3,2,4)] by blast

theorem update_plan_converges_witness:
  "wf_inputs ex_listeners ex_pools ex_service ex_nodes \<and> consistent ex_listeners ex_pools \<and>
   (\<exists>us pools' c. planUpdates ex_listeners ex_pools ex_service ex_nodes = Inr (map line_of us, pools') \<and>
     exec (effect (getServiceOptions (Some ex_service)) ex_nodes) us (abs_content ex_listeners ex_pools) = Some c \<and>
     in_sync ex_service ex_nodes c)"
  using update_plan_converges[OF ex_wf_inputs ex_consistent ex_distinct] ex_wf_inputs ex_consistent by blast

text \<open>C9: An update has nothing to do exactly when the load balancer is in sync with the service and the nodes: no
  difference goes unnoticed, and no operation is planned without one.\<close>

theorem plan_empty_iff_in_sync:
  assumes "wf_inputs listeners pools service nodeList" "consistent listeners pools"
    and "distinct_ports service" "distinct nodeList"
  shows "(\<exists>pools'. planUpdates listeners pools service nodeList = Inr ([], pools')) \<longleftrightarrow>
    in_sync service nodeList (abs_content listeners pools)"
proof -
  note ports = wf_inputs_ports[OF assms(1)]
  have "plan listeners pools service nodeList = [] \<longleftrightarrow> in_sync service nodeList (abs_content listeners pools)"
    using plan_reaches_sync[OF ports assms(3,2,4)] in_sync_no_plan[OF ports assms(3,2)] by auto
  then show ?thesis using planUpdates_refines_plan[OF assms(1)] by simp
qed

theorem plan_empty_iff_in_sync_witness:
  "(\<exists>pools'. planUpdates [] [] (ex_service\<lparr>svc_Ports := []\<rparr>) ex_nodes = Inr ([], pools')) \<and>
   \<not> in_sync ex_service ex_nodes (abs_content ex_listeners ex_pools)"
proof -
  have "wf_inputs [] [] (ex_service\<lparr>svc_Ports := []\<rparr>) ex_nodes" "consistent [] []"
    "distinct_ports (ex_service\<lparr>svc_Ports := []\<rparr>)" "in_sync (ex_service\<lparr>svc_Ports := []\<rparr>) ex_nodes (abs_content [] [])"
    by code_simp+
  moreover have "plan ex_listeners ex_pools ex_service ex_nodes \<noteq> []" by code_simp
  ultimately show ?thesis
    using plan_empty_iff_in_sync[OF ex_wf_inputs ex_consistent ex_distinct] planUpdates_refines_plan[OF ex_wf_inputs]
      plan_empty_iff_in_sync[of "[]" "[]" "ex_service\<lparr>svc_Ports := []\<rparr>" ex_nodes] ex_distinct(2) by simp
qed

end
