(* ===== verification/Vpc_Update.thy ===== *)
theory Vpc_Update
  imports Vpc_Converge
begin

section \<open>Carrying out an update\<close>

text \<open>
  The order of the operations of a plan, what \<open>UpdateLoadBalancer\<close> rejects before it changes anything, the wait for a
  ready load balancer, and the loop that carries the plan out: it is shown to perform exactly the typed operations of
  the plan, in their order, each on a load balancer that was ready when last seen.
\<close>

subsection \<open>The order of operations\<close>

text \<open>The rules in the comment of \<open>UpdateLoadBalancer\<close>: deletions in the order listener, pool, member, then creations.\<close>

fun rank :: "operation \<Rightarrow> nat option" where
  "rank (DeleteListener n i) = Some 0"
| "rank (DeletePool n i) = Some 1"
| "rank (DeletePoolMember n i m t) = Some 2"
| "rank (UpdatePool n i) = None"
| "rank (ReplacePoolMembers n i) = None"
| "rank (CreatePoolMember n i t) = Some 3"
| "rank (CreatePool n) = Some 4"
| "rank (CreateListener n) = Some 4"

definition ranks :: "operation list \<Rightarrow> nat list" where
  "ranks us = List.map_filter rank us"

lemma ranks_simps [simp]:
  "ranks [] = []" "ranks (u # us) = (case rank u of None \<Rightarrow> ranks us | Some r \<Rightarrow> r # ranks us)"
  "ranks (us @ vs) = ranks us @ ranks vs"
  by (simp_all add: ranks_def map_filter_def split: option.splits)

lemma ranks_merge_from: "subseq (ranks (merge_from mu d us)) (ranks us)"
  by (induction us arbitrary: d) (auto split: option.splits)

lemma sorted_subseq: "subseq xs ys \<Longrightarrow> sorted ys \<Longrightarrow> sorted (xs :: nat list)"
  by (induction rule: list_emb.induct) (auto dest: list_emb_set)

lemma ranks_concat: "(\<And>x. x \<in> set xs \<Longrightarrow> set (ranks (f x)) \<subseteq> A) \<Longrightarrow> set (ranks (concat (map f xs))) \<subseteq> A"
  by (induction xs) auto

lemma ranks_map: "(\<And>x. rank (f x) = Some r) \<Longrightarrow> ranks (map f xs) = replicate (length xs) r"
  by (induction xs) auto

lemma ranks_ops:
  "set (ranks (ops_listener_deleted ports l)) \<subseteq> {0}"
  "set (ranks (ops_pool_deleted ports p)) \<subseteq> {1}"
  "set (ranks (ops_nodes_deleted ports nodeList p)) \<subseteq> {2}"
  "set (ranks (ops_service_changes service p)) \<subseteq> {}"
  "set (ranks (ops_nodes_added ports nodeList p)) \<subseteq> {3}"
  "set (ranks (ops_port_added listeners pools kp)) \<subseteq> {4}"
  by (auto simp: ops_listener_deleted_def ops_pool_deleted_def ops_nodes_deleted_def ops_service_changes_def
      ops_nodes_added_def ops_port_added_def ranks_map split: option.splits)

lemma sorted_const: "set xs \<subseteq> {r :: nat} \<Longrightarrow> sorted xs"
  by (induction xs) auto

lemma sorted_phases:
  assumes "set a \<subseteq> {0 :: nat}" "set b \<subseteq> {1}" "set c \<subseteq> {2}" "set d \<subseteq> {}" "set e \<subseteq> {3}" "set f \<subseteq> {4}"
  shows "sorted (a @ b @ c @ d @ e @ f)"
  using assms sorted_const[of a] sorted_const[of b] sorted_const[of c] sorted_const[of e] sorted_const[of f]
  by (fastforce simp: sorted_append)

lemma ranks_raw_plan: "sorted (ranks (raw_plan listeners pools service nodeList))"
proof -
  let ?ports = "svc_Ports service"
  show ?thesis
    unfolding raw_plan_def Let_def ranks_simps by (intro sorted_phases ranks_concat ranks_ops)
qed

lemma plan_sorted: "sorted (ranks (plan listeners pools service nodeList))"
  unfolding plan_def merge_def by (rule sorted_subseq[OF ranks_merge_from ranks_raw_plan])

subsection \<open>Failures of planning\<close>

lemma extract_Err: "extractFieldsFromPoolName n = Inl e \<Longrightarrow> \<exists>msg. e = Err msg"
proof -
  have "Atoi x = Inl e \<Longrightarrow> \<exists>msg. e = Err msg" for x by (auto simp: Atoi_def split: sum.splits if_splits)
  then show "extractFieldsFromPoolName n = Inl e \<Longrightarrow> \<exists>msg. e = Err msg"
    by (auto simp: extractFieldsFromPoolName_def extractProtocolPortsFromPoolName_def Let_def bindR_eq_Inl
        split: if_splits prod.splits)
qed

lemma markDeletedPools_bad:
  assumes "pool \<in> set pools" "pool_fields pool = None"
  shows "\<exists>msg. markDeletedPools u pools ports = Inl (Err msg)"
  using assms(1)
proof (induction pools arbitrary: u)
  case (Cons p ps)
  show ?case
  proof (cases "extractFieldsFromPoolName (pool_Name p)")
    case (Inl e)
    with extract_Err[OF Inl] show ?thesis by (auto simp: checkPoolForExtPortDeletedFromService_def)
  next
    case (Inr f)
    with assms(2) have "pool \<noteq> p" by (auto simp: pool_fields_def)
    with Cons.prems have mem: "pool \<in> set ps" by simp
    have "\<exists>u' p'. checkPoolForExtPortDeletedFromService u p ports = Inr (u', p')"
      using Inr by (simp add: checkPoolForExtPortDeletedFromService_def)
    then obtain u' p' where "checkPoolForExtPortDeletedFromService u p ports = Inr (u', p')" by blast
    with Cons.IH[OF mem, of u'] show ?thesis by auto
  qed
qed simp

lemma planUpdates_bad:
  assumes "pool \<in> set pools" "pool_fields pool = None"
  shows "\<exists>msg. planUpdates listeners pools service nodeList = Inl (Err msg)"
proof -
  obtain msg where "markDeletedPools (fold (\<lambda>listener u. checkListenerForExtPortDeletedFromService u listener (svc_Ports service))
      listeners []) pools (svc_Ports service) = Inl (Err msg)"
    using markDeletedPools_bad[OF assms] by blast
  then show ?thesis by (simp add: planUpdates_def Let_def)
qed

subsection \<open>Waiting\<close>

lemma waitLoop_ready: "waitLoop rt sdk i st ms mw n lb s = (Inr lb', s') \<Longrightarrow> IsReady lb'"
proof (induction n arbitrary: lb s)
  case (Suc n)
  then show ?case by (auto split: if_splits elim!: bindM_eq_InrE)
qed simp

lemma WaitLoadBalancerReady_ready: "WaitLoadBalancerReady rt sdk lb ms mw s = (Inr lb', s') \<Longrightarrow> IsReady lb'"
  by (auto simp: WaitLoadBalancerReady_def dest: waitLoop_ready split: if_splits)

lemma refreshLoadBalancer_ready: "refreshLoadBalancer rt sdk lb s = (Inr lb', s') \<Longrightarrow> IsReady lb'"
  by (auto simp: refreshLoadBalancer_def Let_def elim!: bindM_eq_InrE dest: WaitLoadBalancerReady_ready split: if_splits)

subsection \<open>The update loop on operations\<close>

text \<open>The loop of \<open>processUpdates\<close>, over any operations and any way of carrying them out.\<close>

fun run_ops ::
  "'s Runtime \<Rightarrow> 's CloudVpcSdk \<Rightarrow> (VpcLoadBalancer \<Rightarrow> 'u \<Rightarrow> ('s, unit) io) \<Rightarrow> nat \<Rightarrow> VpcLoadBalancer \<Rightarrow> 'u list \<Rightarrow>
   ('s, VpcLoadBalancer) io" where
  "run_ops rt sdk act i lb [] = returnM lb"
| "run_ops rt sdk act i lb (u # us) =
     bindM (if i > 0 then refreshLoadBalancer rt sdk lb else returnM lb) (\<lambda>lb.
     bindM (act lb u) (\<lambda>_. run_ops rt sdk act (Suc i) lb us))"

lemma processUpdates_run_ops:
  "list_all wf_operation us \<Longrightarrow> processUpdates rt sdk nodeList pools options i lb (map line_of us) =
     run_ops rt sdk (\<lambda>lb. perform sdk lb nodeList pools options) i lb us"
  by (induction us arbitrary: i lb) (simp_all add: processUpdate_line_of)

definition guarded :: "(VpcLoadBalancer \<Rightarrow> 'u \<Rightarrow> ('s, unit) io) \<Rightarrow> VpcLoadBalancer \<Rightarrow> 'u \<Rightarrow> ('s, unit) io" where
  "guarded act lb u = (if IsReady lb then act lb u else raiseM (Panic ''update of a load balancer that is not ready''))"

lemma bindM_cong_Inr: "(\<And>x s'. m s = (Inr x, s') \<Longrightarrow> f x s' = g x s') \<Longrightarrow> bindM m f s = bindM m g s"
  by (auto simp: bindM_def split: prod.splits sum.splits)

lemma run_ops_guarded:
  "i = 0 \<longrightarrow> IsReady lb \<Longrightarrow> run_ops rt sdk act i lb us s = run_ops rt sdk (guarded act) i lb us s"
proof (induction us arbitrary: i lb s)
  case (Cons u us)
  show ?case
    unfolding run_ops.simps
  proof (rule bindM_cong_Inr)
    fix lb1 s1 assume "(if i > 0 then refreshLoadBalancer rt sdk lb else returnM lb) s = (Inr lb1, s1)"
    with Cons.prems have "IsReady lb1" by (auto dest: refreshLoadBalancer_ready split: if_splits)
    then have "guarded act lb1 u = act lb1 u" by (simp add: guarded_def)
    with Cons.IH[of "Suc i" lb1] show "bindM (act lb1 u) (\<lambda>_. run_ops rt sdk act (Suc i) lb1 us) s1 =
        bindM (guarded act lb1 u) (\<lambda>_. run_ops rt sdk (guarded act) (Suc i) lb1 us) s1"
      by (auto intro: bindM_cong_Inr)
  qed
qed simp

subsection \<open>Validation and selection do not panic\<close>

lemma okR_validateService: "okR (\<lambda>options. options = getServiceOptions (Some service) \<and>
    list_all (\<lambda>kp. sp_Protocol kp = ProtocolTCP) (svc_Ports service)) (validateService service)"
  by (auto simp: validateService_def Let_def find_None_iff list_all_iff split: option.splits)

lemma okR_validateServiceTypeNotUpdated: "okR (\<lambda>_. True) (validateServiceTypeNotUpdated options lb)"
  by (simp add: validateServiceTypeNotUpdated_def Let_def)

lemma okR_matchSubnet: "okR (\<lambda>_. True) (matchSubnet service vpcID i subnets)"
  by (induction subnets) (auto simp: annotation_error_def)

lemma okR_validateServiceSubnets: "okR (\<lambda>_. True) (validateServiceSubnets ro service l vpcID subnets)"
proof -
  have "okR (\<lambda>_. True) (desiredSubnet_step service vpcID subnets acc x)" for acc x
    unfolding desiredSubnet_step_def
    by (rule okR_bind[OF okR_matchSubnet]) (simp add: annotation_error_def split: option.split)
  then show ?thesis unfolding validateServiceSubnets_def by (intro okR_bind okR_foldR) auto
qed

lemma okR_validateServiceSubnetsNotUpdated: "okR (\<lambda>_. True) (validateServiceSubnetsNotUpdated ro service lb subnets)"
  unfolding validateServiceSubnetsNotUpdated_def Let_def
  by (auto intro!: okR_bind[OF okR_validateServiceSubnets])

lemma okR_validateServiceZone: "okR (\<lambda>_. True) (validateServiceZone service zone subnets)"
  by (simp add: validateServiceZone_def Let_def annotation_error_def)

lemma set_findNodes: "set (findNodesMatchingLabelValue nodes l v) \<subseteq> set nodes"
  by (auto simp: findNodesMatchingLabelValue_def)

lemma set_selectNodes: "set (selectNodes service zone nodes) \<subseteq> set nodes"
  using set_findNodes
  by (auto simp: selectNodes_def filterNodesByEdgeLabel_def filterNodesByZone_def Let_def split: prod.splits) blast+

text \<open>Node addresses that the text lines can carry.\<close>

definition word_nodes :: "Node list \<Rightarrow> bool" where
  "word_nodes nodes = list_all (\<lambda>node. getNodeInternalIP node = [] \<or> is_word (getNodeInternalIP node)) nodes"

definition natural_ports :: "Service \<Rightarrow> bool" where
  "natural_ports service = list_all (\<lambda>kp. 0 \<le> sint (sp_Port kp) \<and> 0 \<le> sint (sp_NodePort kp)) (svc_Ports service)"

lemma word_nodes_selected: "word_nodes nodes \<Longrightarrow> list_all is_word (getNodeIDs (selectNodes service zone nodes))"
  using set_selectNodes[of service zone nodes] by (fastforce simp: word_nodes_def getNodeIDs_def list_all_iff)

lemma okR_planUpdates:
  assumes "list_all word_listener listeners" "list_all word_pool pools" "list_all wf_port (svc_Ports service)"
    "list_all is_word nodeList"
  shows "okR (\<lambda>(us, _). \<exists>ops. us = map line_of ops \<and> list_all wf_operation ops) (planUpdates listeners pools service nodeList)"
proof (cases "\<exists>pool \<in> set pools. pool_fields pool = None")
  case True
  then obtain pool where "pool \<in> set pools" "pool_fields pool = None" by blast
  from planUpdates_bad[OF this, of listeners service nodeList] show ?thesis by auto
next
  case False
  with assms have wf: "wf_inputs listeners pools service nodeList" by (auto simp: wf_inputs_def wf_pool_def list_all_iff)
  with planUpdates_refines_plan[OF wf] plan_wf[OF wf] show ?thesis by auto
qed

subsection \<open>The steps of \<open>UpdateLoadBalancer\<close>\<close>

text \<open>What is left once the load balancer is ready, the service valid and the subnets known.\<close>

definition updateWork ::
  "'s Runtime \<Rightarrow> 's CloudVpcSdk \<Rightarrow> VpcLoadBalancer \<Rightarrow> Service \<Rightarrow> Node list \<Rightarrow> ServiceOptions \<Rightarrow>
   (string list \<Rightarrow> string list) \<Rightarrow> VpcSubnet list \<Rightarrow> ('s, VpcLoadBalancer) io" where
  "updateWork rt sdk lb service nodes options ro vpcSubnets =
      bindM (liftM (validateServiceSubnetsNotUpdated ro service lb vpcSubnets)) (\<lambda>_.
        if length (selectNodes service (getServiceZone options) nodes) = 0
        then raiseM (Err ''There are no available nodes for this load balancer'')
        else
        bindM (sdk_ListLoadBalancerListeners sdk (lb_ID lb)) (\<lambda>listeners.
        bindM (sdk_ListLoadBalancerPools sdk (lb_ID lb)) (\<lambda>pools0.
        bindM (liftM (planUpdates listeners pools0 service (getNodeIDs (selectNodes service (getServiceZone options) nodes))))
          (\<lambda>(us, pools). if length us = 0 then returnM lb
             else processUpdates rt sdk (getNodeIDs (selectNodes service (getServiceZone options) nodes)) pools options 0 lb us))))"

lemma UpdateLoadBalancer_steps:
  "IsReady lb \<Longrightarrow> UpdateLoadBalancer rt c (Some lb) (Some service) (Some nodes) =
     bindM (liftM (validateService service)) (\<lambda>options.
     bindM (liftM (validateServiceTypeNotUpdated options lb)) (\<lambda>_.
     bindM (sdk_ListSubnets (vpc_Sdk c)) (\<lambda>vpcSubnets s.
       updateWork rt (vpc_Sdk c) lb service nodes options (rt_range rt s) vpcSubnets s)))"
  by (rule ext) (simp only: UpdateLoadBalancer_def updateWork_def Let_def option.case prod.case not_True_eq_False if_False)

lemma UpdateLoadBalancer_run_ops:
  assumes "IsReady lb" "validateService service = Inr options" "validateServiceTypeNotUpdated options lb = Inr ()"
    and "sdk_ListSubnets (vpc_Sdk c) s = (Inr subnets, s1)"
    and "validateServiceSubnetsNotUpdated (rt_range rt s1) service lb subnets = Inr ()"
    and "nodeList = getNodeIDs (selectNodes service (getServiceZone options) nodes)"
    and "selectNodes service (getServiceZone options) nodes \<noteq> []"
    and "sdk_ListLoadBalancerListeners (vpc_Sdk c) (lb_ID lb) s1 = (Inr listeners, s2)"
    and "sdk_ListLoadBalancerPools (vpc_Sdk c) (lb_ID lb) s2 = (Inr pools, s3)"
    and "wf_inputs listeners pools service nodeList"
  shows "UpdateLoadBalancer rt c (Some lb) (Some service) (Some nodes) s =
    run_ops rt (vpc_Sdk c) (\<lambda>lb. perform (vpc_Sdk c) lb nodeList (map (marked (svc_Ports service)) pools) options) 0 lb
      (plan listeners pools service nodeList) s3"
  using assms(1-5,7-9) planUpdates_refines_plan[OF assms(10)]
  by (simp add: UpdateLoadBalancer_steps updateWork_def bindM_def assms(6)[symmetric]
      processUpdates_run_ops[OF plan_wf[OF assms(10)]])

subsection \<open>Updates on any SDK that meets its contract\<close>

context vpc_service
begin

lemma safe_waitLoop: "safe Inv IsReady (waitLoop rt sdk i st ms mw n lb)"
proof (induction n arbitrary: lb)
  case 0
  then show ?case by (simp add: safe_def)
next
  case (Suc n)
  then show ?case
    unfolding waitLoop.simps[abs_def] safe_def
    using safe_seq[OF sdk_reads(1)[of i] Suc.IH] sleep by (auto simp: safe_def)
qed

lemma safe_WaitLoadBalancerReady: "ms \<noteq> 0 \<Longrightarrow> safe Inv IsReady (WaitLoadBalancerReady rt sdk lb ms mw)"
  using safe_waitLoop by (auto simp: safe_def WaitLoadBalancerReady_def)

lemma safe_refresh: "safe Inv IsReady (refreshLoadBalancer rt sdk lb)"
  unfolding refreshLoadBalancer_def Let_def
  by (intro safe_rules sdk_reads safe_WaitLoadBalancerReady) auto

lemma safe_perform: "safe Inv (\<lambda>_. True) (perform sdk lb nodeList pools options u)"
  by (cases u)
    (auto simp: unit_of_def split: option.splits
      intro!: safe_rules sdk_creates sdk_deletes sdk_updates)

lemma safe_run_ops:
  assumes "\<And>lb u. safe Inv (\<lambda>_. True) (act lb u)"
  shows "i = 0 \<longrightarrow> IsReady lb \<Longrightarrow> us = [] \<longrightarrow> IsReady lb \<Longrightarrow> safe Inv IsReady (run_ops rt sdk act i lb us)"
proof (induction us arbitrary: i lb)
  case Nil
  then show ?case unfolding run_ops.simps by (intro safe_return) simp
next
  case (Cons u us)
  have "safe Inv IsReady (if i > 0 then refreshLoadBalancer rt sdk lb else returnM lb)"
    using Cons.prems by (auto intro: safe_refresh safe_return)
  then show ?case
    unfolding run_ops.simps
    by (rule safe_bind) (auto intro!: safe_seq[OF assms] Cons.IH)
qed

lemma safe_UpdateLoadBalancer:
  assumes "vpc_Sdk c = sdk" "word_nodes nodes" "natural_ports service"
  shows "safe Inv IsReady (UpdateLoadBalancer rt c (Some lb) (Some service) (Some nodes))"
proof (cases "IsReady lb")
  case False
  then show ?thesis by (auto simp: UpdateLoadBalancer_def safe_def Let_def)
next
  case True
  let ?tcp = "list_all (\<lambda>kp. sp_Protocol kp = ProtocolTCP) (svc_Ports service)"
  have loop: "safe Inv IsReady (bindM (liftM (planUpdates listeners pools service nodeList)) (\<lambda>(us, pools).
      if length us = 0 then returnM lb else processUpdates rt sdk nodeList pools options 0 lb us))"
    if "list_all word_listener listeners" "list_all word_pool pools" "list_all is_word nodeList" ?tcp
    for listeners pools nodeList options
  proof -
    have "list_all wf_port (svc_Ports service)"
      using that(4) assms(3) by (auto simp: list_all_iff wf_port_def natural_ports_def)
    note plan = okR_planUpdates[OF that(1,2) this that(3)]
    show ?thesis
      by (rule safe_bind[OF safe_lift[OF plan]])
        (use True in \<open>auto simp: processUpdates_run_ops intro!: safe_rules safe_run_ops safe_perform\<close>)
  qed
  have "safe Inv IsReady (updateWork rt sdk lb service nodes options ro vpcSubnets)" if ?tcp for options ro vpcSubnets
    unfolding updateWork_def
    by (rule safe_seq[OF safe_lift[OF okR_validateServiceSubnetsNotUpdated]], rule safe_if, rule safe_raise,
        rule safe_bind[OF sdk_lists(1)], rule safe_bind[OF sdk_lists(2)])
      (rule loop[OF _ _ word_nodes_selected[OF assms(2)] that])
  then have "safe Inv IsReady (\<lambda>s. updateWork rt sdk lb service nodes options (rt_range rt s) vpcSubnets s)" if ?tcp for options vpcSubnets
    using that by (auto simp: safe_def)
  then have "safe Inv IsReady (bindM (liftM (validateService service)) (\<lambda>options.
      bindM (liftM (validateServiceTypeNotUpdated options lb)) (\<lambda>_.
      bindM (sdk_ListSubnets sdk) (\<lambda>vpcSubnets s. updateWork rt sdk lb service nodes options (rt_range rt s) vpcSubnets s))))"
    by (intro safe_bind[OF safe_lift[OF okR_validateService]] safe_seq[OF safe_lift[OF okR_validateServiceTypeNotUpdated]]
        safe_seq[OF sdk_reads(3)]) auto
  then show ?thesis unfolding UpdateLoadBalancer_steps[OF True] assms(1) .
qed

end

subsection \<open>A concrete update\<close>

text \<open>A service on the port of the mock's pool, with one of the mock's two members and a new node.\<close>

definition ex_node :: "string \<Rightarrow> Node" where
  "ex_node ip = \<lparr>node_Name = ip, node_Labels = Map.empty, node_Addresses = [\<lparr>addr_Type = ''InternalIP'', addr_Address = ip\<rparr>],
     node_ProviderID = [], node_TaintKeys = [], node_ConditionTypes = []\<rparr>"

definition ex_node_list :: "Node list" where
  "ex_node_list = [ex_node ''192.168.1.1'', ex_node ''192.168.3.3'']"

definition ex_web :: Service where
  "ex_web = ex_service\<lparr>svc_Ports := [ex_port 80 30303]\<rparr>"

definition ex_config :: ConfigVpc where
  "ex_config = \<lparr>cfg_AccountID = ''account'', cfg_APIKeySecret = ''key'', cfg_ClusterID = ''clusterID'', cfg_EnablePrivate = True,
     cfg_IamEndpointOverride = [], cfg_IKSPrivateEndpointHostname = [], cfg_ProviderType = ''fake'', cfg_Region = ''us-south'',
     cfg_ResourceGroupName = ''group'', cfg_RmEndpointOverride = [], cfg_SubnetNames = ''subnet1,subnet2'',
     cfg_WorkerAccountID = [], cfg_VpcName = ''vpc'', cfg_VpcEndpointOverride = [], cfg_endpointURL = [],
     cfg_resourceGroupID = [], cfg_tokenExchangeURL = []\<rparr>"

definition ex_cloud :: "FakeWorld CloudVpc" where
  "ex_cloud = \<lparr>vpc_Config = ex_config, vpc_Sdk = VpcSdkFake_sdk, vpc_Recorder = Some fake_record\<rparr>"

lemma new_world_calls:
  "sdk_ListSubnets (vpc_Sdk ex_cloud) new_world = (Inr [fake_subnet1, fake_subnet2], new_world)"
  "sdk_ListLoadBalancerListeners (vpc_Sdk ex_cloud) i new_world = (Inr [fake_listener], new_world)"
  "sdk_ListLoadBalancerPools (vpc_Sdk ex_cloud) i new_world = (Inr [fake_pool], new_world)"
  by (simp_all add: ex_cloud_def VpcSdkFake_sdk_def fake_defs fake_call_def new_world_def NewVpcSdkFake_def VpcSdkFake.defs)

subsection \<open>Properties\<close>

text \<open>C8: \<open>UpdateLoadBalancer\<close> carries out the plan: when the load balancer is ready, the service valid and unchanged in type and
  subnets, and nodes are left, then after listing the subnets, listeners and pools it does exactly this: it performs
  the SDK calls of the typed operations of the plan, one after the other, stopping at the first that fails; and before every operation the
  load balancer it acts on was seen ready (a check for that could be added in front of every operation without changing anything).\<close>

theorem update_performs_plan:
  assumes "IsReady lb" "validateService service = Inr options" "validateServiceTypeNotUpdated options lb = Inr ()"
    and "sdk_ListSubnets (vpc_Sdk c) s = (Inr subnets, s1)"
    and "validateServiceSubnetsNotUpdated (rt_range rt s1) service lb subnets = Inr ()"
    and "nodeList = getNodeIDs (selectNodes service (getServiceZone options) nodes)"
    and "selectNodes service (getServiceZone options) nodes \<noteq> []"
    and "sdk_ListLoadBalancerListeners (vpc_Sdk c) (lb_ID lb) s1 = (Inr listeners, s2)"
    and "sdk_ListLoadBalancerPools (vpc_Sdk c) (lb_ID lb) s2 = (Inr pools, s3)"
    and "wf_inputs listeners pools service nodeList"
  shows "UpdateLoadBalancer rt c (Some lb) (Some service) (Some nodes) s =
    run_ops rt (vpc_Sdk c)
      (guarded (\<lambda>lb. perform (vpc_Sdk c) lb nodeList (map (marked (svc_Ports service)) pools) options)) 0 lb
      (plan listeners pools service nodeList) s3"
  unfolding UpdateLoadBalancer_run_ops[OF assms] by (rule run_ops_guarded) (simp add: assms(1))

theorem update_performs_plan_witness:
  "UpdateLoadBalancer fake_runtime ex_cloud (Some fake_lbReady) (Some ex_web) (Some ex_node_list) new_world =
    run_ops fake_runtime (vpc_Sdk ex_cloud)
      (guarded (\<lambda>lb. perform (vpc_Sdk ex_cloud) lb [''192.168.1.1'', ''192.168.3.3''] (map (marked (svc_Ports ex_web)) [fake_pool])
        (getServiceOptions (Some ex_web)))) 0 fake_lbReady
      [ReplacePoolMembers ''tcp-80-30303'' ''poolID'', UpdatePool ''tcp-80-30303'' ''poolID''] new_world"
proof -
  let ?nodes = "[''192.168.1.1'', ''192.168.3.3'']"
  let ?options = "getServiceOptions (Some ex_web)"
  have 1: "IsReady fake_lbReady" by code_simp
  have 2: "validateService ex_web = Inr ?options"
    by (simp add: validateService_def ex_web_def ex_service_def ex_port_def)
  have 3: "validateServiceTypeNotUpdated ?options fake_lbReady = Inr ()" by code_simp
  have 4: "validateServiceSubnetsNotUpdated (rt_range fake_runtime new_world) ex_web fake_lbReady
      [fake_subnet1, fake_subnet2] = Inr ()"
    by code_simp
  have 5: "?nodes = getNodeIDs (selectNodes ex_web (getServiceZone ?options) ex_node_list)"
    by code_simp
  have "length (selectNodes ex_web (getServiceZone ?options) ex_node_list) = 2" by code_simp
  then have 6: "selectNodes ex_web (getServiceZone ?options) ex_node_list \<noteq> []" by auto
  have 7: "wf_inputs [fake_listener] [fake_pool] ex_web ?nodes" by code_simp
  have "plan [fake_listener] [fake_pool] ex_web ?nodes =
      [ReplacePoolMembers ''tcp-80-30303'' ''poolID'', UpdatePool ''tcp-80-30303'' ''poolID'']"
    by code_simp
  then show ?thesis
    using update_performs_plan[OF 1 2 3 new_world_calls(1) 4 5 6 new_world_calls(2) new_world_calls(3) 7] by (simp only:)
qed

text \<open>C15: Order of a plan, the rules stated in \<open>UpdateLoadBalancer\<close>: the operations planned for a well-formed load balancer delete listeners first, then
  pools, then members, and create members and then pools and listeners only after all deletions.\<close>

theorem plan_order:
  assumes "wf_inputs listeners pools service nodeList"
  shows "\<exists>us pools'. planUpdates listeners pools service nodeList = Inr (map line_of us, pools') \<and> sorted (ranks us)"
  using planUpdates_refines_plan[OF assms] plan_sorted by blast

theorem plan_order_witness:
  "\<exists>us pools'. planUpdates ex_listeners ex_pools ex_service ex_nodes = Inr (map line_of us, pools') \<and> sorted (ranks us)"
  using plan_order[OF ex_wf_inputs] .

text \<open>C16: A pool whose name is not of the form protocol-port-nodePort stops the update before anything is changed: planning fails with an
  error (it does not panic), and \<open>UpdateLoadBalancer\<close> returns that error in the state left by the three list calls.\<close>

theorem bad_pool_name_stops_update:
  assumes "pool \<in> set pools" "pool_fields pool = None"
    and "IsReady lb" "validateService service = Inr options" "validateServiceTypeNotUpdated options lb = Inr ()"
    and "sdk_ListSubnets (vpc_Sdk c) s = (Inr subnets, s1)"
    and "validateServiceSubnetsNotUpdated (rt_range rt s1) service lb subnets = Inr ()"
    and "selectNodes service (getServiceZone options) nodes \<noteq> []"
    and "sdk_ListLoadBalancerListeners (vpc_Sdk c) (lb_ID lb) s1 = (Inr listeners, s2)"
    and "sdk_ListLoadBalancerPools (vpc_Sdk c) (lb_ID lb) s2 = (Inr pools, s3)"
  shows "\<exists>msg. UpdateLoadBalancer rt c (Some lb) (Some service) (Some nodes) s = (Inl (Err msg), s3)"
proof -
  obtain msg where "planUpdates listeners pools service (getNodeIDs (selectNodes service (getServiceZone options) nodes)) = Inl (Err msg)"
    using planUpdates_bad[OF assms(1,2)] by blast
  with assms(3-10) show ?thesis by (simp add: UpdateLoadBalancer_steps updateWork_def bindM_def)
qed

definition ex_bad_world :: FakeWorld where
  "ex_bad_world = new_world\<lparr>fake_Pool := fake_pool\<lparr>pool_Name := ''tcp-80''\<rparr>\<rparr>"

theorem bad_pool_name_stops_update_witness:
  "\<exists>msg. UpdateLoadBalancer fake_runtime ex_cloud (Some fake_lbReady) (Some ex_web) (Some ex_node_list) ex_bad_world =
     (Inl (Err msg), ex_bad_world)"
proof -
  let ?options = "getServiceOptions (Some ex_web)"
  have calls: "sdk_ListSubnets (vpc_Sdk ex_cloud) ex_bad_world = (Inr [fake_subnet1, fake_subnet2], ex_bad_world)"
    "sdk_ListLoadBalancerListeners (vpc_Sdk ex_cloud) (lb_ID fake_lbReady) ex_bad_world = (Inr [fake_listener], ex_bad_world)"
    "sdk_ListLoadBalancerPools (vpc_Sdk ex_cloud) (lb_ID fake_lbReady) ex_bad_world =
       (Inr [fake_pool\<lparr>pool_Name := ''tcp-80''\<rparr>], ex_bad_world)"
    by (simp_all add: ex_bad_world_def ex_cloud_def VpcSdkFake_sdk_def fake_defs fake_call_def new_world_def NewVpcSdkFake_def
        VpcSdkFake.defs)
  have 1: "pool_fields (fake_pool\<lparr>pool_Name := ''tcp-80''\<rparr>) = None" by code_simp
  have 2: "IsReady fake_lbReady" by code_simp
  have 3: "validateService ex_web = Inr ?options"
    by (simp add: validateService_def ex_web_def ex_service_def ex_port_def)
  have 4: "validateServiceTypeNotUpdated ?options fake_lbReady = Inr ()" by code_simp
  have 5: "validateServiceSubnetsNotUpdated (rt_range fake_runtime ex_bad_world) ex_web fake_lbReady
      [fake_subnet1, fake_subnet2] = Inr ()"
    by code_simp
  have "length (selectNodes ex_web (getServiceZone ?options) ex_node_list) = 2" by code_simp
  then have 6: "selectNodes ex_web (getServiceZone ?options) ex_node_list \<noteq> []" by auto
  show ?thesis
    using bad_pool_name_stops_update[OF _ 1 2 3 4 calls(1) 5 6 calls(2) calls(3)] by simp
qed

text \<open>C13: On any SDK that meets its contract (no panics, identifiers that are words), \<open>UpdateLoadBalancer\<close> keeps the invariant of the
  world behind the SDK, never panics, and returns a load balancer only if it is ready.\<close>

theorem update_never_panics:
  assumes "vpc_service (vpc_Sdk c) rt Inv" "Inv s" "word_nodes nodes" "natural_ports service"
    and "UpdateLoadBalancer rt c (Some lb) (Some service) (Some nodes) s = (r, s')"
  shows "Inv s' \<and> (case r of Inl e \<Rightarrow> (\<exists>msg. e = Err msg) | Inr lb' \<Rightarrow> IsReady lb')"
proof -
  have "safe Inv IsReady (UpdateLoadBalancer rt c (Some lb) (Some service) (Some nodes))"
    using vpc_service.safe_UpdateLoadBalancer[OF assms(1) refl assms(3,4)] .
  then have "Inv s'" "okR IsReady r" using assms(2,5) unfolding safe_def by (metis fst_conv snd_conv)+
  then show ?thesis by (auto simp: okR_def split: sum.splits go_err.splits)
qed

theorem update_never_panics_witness:
  "fake_inv new_world \<and> fake_inv (snd (UpdateLoadBalancer fake_runtime ex_cloud (Some fake_lbNotReady) (Some ex_web) (Some ex_node_list) new_world))"
proof -
  have "vpc_service (vpc_Sdk ex_cloud) fake_runtime fake_inv"
    using fake.vpc_service_axioms by (simp add: ex_cloud_def)
  moreover have "word_nodes ex_node_list" "natural_ports ex_web" by code_simp+
  ultimately show ?thesis
    using update_never_panics[of ex_cloud fake_runtime fake_inv new_world ex_node_list ex_web fake_lbNotReady, OF _ fake_inv_new(2)]
      fake_inv_new(2) by (metis prod.collapse)
qed

subsection \<open>The wait ends on a poll that nobody looks at\<close>

text \<open>
  A load balancer that becomes ready with the last poll of the wait is reported as not ready: the loop ends after fetching
  it, before looking at it.
\<close>

lemma wait_ignores_last_poll:
  "\<not> IsReady lb \<Longrightarrow> \<exists>e. fst (waitLoop rt sdk i st ms mw 1 lb s) = Inl e"
  by (auto simp: bindM_def split: prod.splits sum.splits)

end
