(* ===== verification/Vpc_Provider.thy ===== *)
theory Vpc_Provider
  imports Vpc_Update
begin

section \<open>The VPC cloud provider (\<open>pkg/vpcctl/vpc_provider.go\<close>)\<close>

text \<open>
  The entry points the cloud controller calls: ensuring, deleting and updating the load balancer of a service, its status,
  and the monitor that compares the services of the cluster with the load balancers of the VPC, deletes stale ones and
  records events. A service pointer that is nil where the code reads through it panics, as in Go.
\<close>

subsection \<open>Events\<close>

definition creatingCloudLoadBalancerFailed :: string where
  "creatingCloudLoadBalancerFailed = ''CreatingCloudLoadBalancerFailed''"
definition deletingCloudLoadBalancerFailed :: string where
  "deletingCloudLoadBalancerFailed = ''DeletingCloudLoadBalancerFailed''"
definition gettingCloudLoadBalancerFailed :: string where
  "gettingCloudLoadBalancerFailed = ''GettingCloudLoadBalancerFailed''"
definition updatingCloudLoadBalancerFailed :: string where
  "updatingCloudLoadBalancerFailed = ''UpdatingCloudLoadBalancerFailed''"
definition verifyingCloudLoadBalancerFailed :: string where
  "verifyingCloudLoadBalancerFailed = ''VerifyingCloudLoadBalancerFailed''"

definition vpcLbStatusOnlineActive :: string where
  "vpcLbStatusOnlineActive = LoadBalancerOperatingStatusOnline @ ''/'' @ LoadBalancerProvisioningStatusActive"
definition vpcLbStatusOfflineMaintenancePending :: string where
  "vpcLbStatusOfflineMaintenancePending =
     LoadBalancerOperatingStatusOffline @ ''/'' @ LoadBalancerProvisioningStatusMaintenancePending"
definition vpcLbStatusOfflineFailed :: string where
  "vpcLbStatusOfflineFailed = LoadBalancerOperatingStatusOffline @ ''/'' @ LoadBalancerProvisioningStatusFailed"
definition vpcLbStatusOfflineNotFound :: string where
  "vpcLbStatusOfflineNotFound = LoadBalancerOperatingStatusOffline @ ''/not_found''"

definition getEventMessage :: "string \<Rightarrow> string" where
  "getEventMessage status =
     (if status = vpcLbStatusOfflineFailed
      then ''The VPC load balancer that routes requests to this Kubernetes LoadBalancer service is offline. For troubleshooting steps, see <https://ibm.biz/vpc-lb-ts>''
      else if status = vpcLbStatusOfflineMaintenancePending
      then ''The VPC load balancer that routes requests to this Kubernetes LoadBalancer service is under maintenance.''
      else if status = vpcLbStatusOfflineNotFound
      then ''The VPC load balancer that routes requests to this Kubernetes LoadBalancer service was not found. To recreate the VPC load balancer, restart the Kubernetes master by running 'ibmcloud ks cluster master refresh --cluster <cluster_name_or_id>'.''
      else ''The VPC load balancer that routes requests to this Kubernetes LoadBalancer service is currently '' @ status @ ''.'')"

definition recordServiceNormalEvent ::
  "'s CloudVpc \<Rightarrow> Service \<Rightarrow> string \<Rightarrow> string \<Rightarrow> ('s, unit) io" where
  "recordServiceNormalEvent c lbService lbName eventMessage s =
     (case vpc_Recorder c of
        None \<Rightarrow> (Inr (), s)
      | Some record \<Rightarrow>
          let message = ''Event on cloud load balancer '' @ lbName @ '' for service '' @ NamespacedName lbService @
                '' with UID '' @ svc_UID lbService @ '': '' @ eventMessage
          in (Inr (), record (service_event lbService EventTypeNormal ''CloudVPCLoadBalancerNormalEvent'' message) s))"

text \<open>The error that represents the event is the value returned.\<close>

definition recordServiceWarningEvent ::
  "'s CloudVpc \<Rightarrow> Service option \<Rightarrow> string \<Rightarrow> string \<Rightarrow> string \<Rightarrow> ('s, string) io" where
  "recordServiceWarningEvent c lbService reason lbName errorMessage s =
     (case lbService of
        None \<Rightarrow> (Inl nil_dereference, s)
      | Some svc \<Rightarrow>
          let message = ''Error on cloud load balancer '' @ lbName @ '' for service '' @ NamespacedName svc @
                '' with UID '' @ svc_UID svc @ '': '' @ errorMessage
          in (case vpc_Recorder c of
                None \<Rightarrow> (Inr message, s)
              | Some record \<Rightarrow> (Inr message, record (service_event svc EventTypeWarning reason message) s)))"

text \<open>\<open>return nil, c.recordServiceWarningEvent(...)\<close>\<close>

definition failWith :: "'s CloudVpc \<Rightarrow> Service option \<Rightarrow> string \<Rightarrow> string \<Rightarrow> string \<Rightarrow> ('s, 'a) io" where
  "failWith c service reason lbName errString =
     bindM (recordServiceWarningEvent c service reason lbName errString) (\<lambda>message. raiseM (Err message))"

subsection \<open>Names\<close>

definition GenerateLoadBalancerName :: "Service \<Rightarrow> string \<Rightarrow> string" where
  "GenerateLoadBalancerName service clusterID =
     (let serviceLbName = map_get (svc_Annotations service) serviceAnnotationLbName in
      if serviceLbName \<noteq> [] then serviceLbName
      else
        let serviceID = RemoveAll (CHR ''-'') (svc_UID service);
            lbName = VpcLbNamePrefix @ ''-'' @ clusterID @ ''-'' @ serviceID
        in if length lbName > 63 then take 63 lbName else lbName)"

definition CloudVpc_GenerateLoadBalancerName :: "'s CloudVpc \<Rightarrow> Service \<Rightarrow> string" where
  "CloudVpc_GenerateLoadBalancerName c service = GenerateLoadBalancerName service (cfg_ClusterID (vpc_Config c))"

subsection \<open>Ensuring, deleting, updating\<close>

definition updateExisting ::
  "'s Runtime \<Rightarrow> 's CloudVpc \<Rightarrow> string \<Rightarrow> Service option \<Rightarrow> Node list option \<Rightarrow> VpcLoadBalancer \<Rightarrow>
   ('s, LoadBalancerStatus) io" where
  "updateExisting rt c lbName service nodes lb =
     (if \<not> IsReady lb
      then failWith c service creatingCloudLoadBalancerFailed lbName (''LoadBalancer is busy: '' @ GetStatus lb)
      else tryM (UpdateLoadBalancer rt c (Some lb) service nodes)
        (\<lambda>err. failWith c service creatingCloudLoadBalancerFailed lbName (''Failed ensuring LoadBalancer: '' @ err))
        (\<lambda>lb. returnM (GetLoadBalancerStatus lb)))"

definition EnsureLoadBalancer ::
  "'s Runtime \<Rightarrow> 's CloudVpc \<Rightarrow> string \<Rightarrow> Service option \<Rightarrow> Node list option \<Rightarrow> ('s, LoadBalancerStatus) io" where
  "EnsureLoadBalancer rt c lbName service nodes =
     tryM (FindLoadBalancer c lbName)
       (\<lambda>err. failWith c service creatingCloudLoadBalancerFailed lbName (''Failed getting LoadBalancer: '' @ err))
       (\<lambda>found. case found of
          None \<Rightarrow>
            tryM (CreateLoadBalancer rt c lbName service nodes)
              (\<lambda>err. failWith c service creatingCloudLoadBalancerFailed lbName (''Failed ensuring LoadBalancer: '' @ err))
              (\<lambda>lb. if IsReady lb \<or> \<not> IsNLB lb then returnM (GetLoadBalancerStatus lb)
                     else updateExisting rt c lbName service nodes lb)
        | Some lb \<Rightarrow> updateExisting rt c lbName service nodes lb)"

definition EnsureLoadBalancerDeleted :: "'s CloudVpc \<Rightarrow> string \<Rightarrow> Service option \<Rightarrow> ('s, unit) io" where
  "EnsureLoadBalancerDeleted c lbName service =
     tryM (FindLoadBalancer c lbName)
       (\<lambda>err. failWith c service deletingCloudLoadBalancerFailed lbName (''Failed getting LoadBalancer: '' @ err))
       (\<lambda>found. case found of
          None \<Rightarrow> returnM ()
        | Some lb \<Rightarrow>
            tryM (DeleteLoadBalancer c (Some lb))
              (\<lambda>err. failWith c service deletingCloudLoadBalancerFailed lbName (''Failed deleting LoadBalancer: '' @ err))
              (\<lambda>_. returnM ()))"

definition EnsureLoadBalancerUpdated ::
  "'s Runtime \<Rightarrow> 's CloudVpc \<Rightarrow> string \<Rightarrow> Service option \<Rightarrow> Node list option \<Rightarrow> ('s, unit) io" where
  "EnsureLoadBalancerUpdated rt c lbName service nodes =
     tryM (FindLoadBalancer c lbName)
       (\<lambda>err. failWith c service updatingCloudLoadBalancerFailed lbName (''Failed getting LoadBalancer: '' @ err))
       (\<lambda>found. case found of
          None \<Rightarrow> returnM ()
        | Some lb \<Rightarrow>
            if \<not> IsReady lb
            then failWith c service updatingCloudLoadBalancerFailed lbName (''LoadBalancer is busy: '' @ GetStatus lb)
            else tryM (UpdateLoadBalancer rt c (Some lb) service nodes)
              (\<lambda>err. failWith c service updatingCloudLoadBalancerFailed lbName (''Failed updating LoadBalancer: '' @ err))
              (\<lambda>_. returnM ()))"

definition GetLoadBalancer ::
  "'s CloudVpc \<Rightarrow> string \<Rightarrow> Service option \<Rightarrow> ('s, LoadBalancerStatus option \<times> bool) io" where
  "GetLoadBalancer c lbName service =
     tryM (FindLoadBalancer c lbName)
       (\<lambda>err. failWith c service gettingCloudLoadBalancerFailed lbName (''Failed getting LoadBalancer: '' @ err))
       (\<lambda>found. case found of
          None \<Rightarrow> returnM (None, False)
        | Some lb \<Rightarrow>
            if \<not> IsReady lb
            then (case service of
                    None \<Rightarrow> raiseM nil_dereference
                  | Some svc \<Rightarrow>
                      if svc_Ingress svc \<noteq> None then returnM (Some (GetLoadBalancerStatus lb), True)
                      else returnM (Some [], True))
            else returnM (Some (GetLoadBalancerStatus lb), True))"

subsection \<open>Gathering and monitoring\<close>

text \<open>The maps are association lists in insertion order; loops over them visit the keys in the run time's order.\<close>

definition vpcLbMap :: "string \<Rightarrow> VpcLoadBalancer list \<Rightarrow> (string \<times> VpcLoadBalancer) list" where
  "vpcLbMap clusterID lbs =
     (let lbPrefix = VpcLbNamePrefix @ ''-'' @ clusterID @ ''-'' in
      fold (\<lambda>lb m. if HasPrefix (lb_Name lb) lbPrefix then AList.update (lb_Name lb) lb m else m) lbs [])"

definition kubeLbMap :: "string \<Rightarrow> string \<Rightarrow> Service list \<Rightarrow> (string \<times> Service) list" where
  "kubeLbMap clusterID serviceType services =
     fold (\<lambda>service m. if svc_Type service = serviceType
         then AList.update (GenerateLoadBalancerName service clusterID) service m else m) services []"

definition isStale ::
  "(string \<times> Service) list \<Rightarrow> (string \<times> Service) list \<Rightarrow> VpcLoadBalancer \<Rightarrow> bool" where
  "isStale lbMap npMap lb \<longleftrightarrow>
     IsReady lb \<and> map_of lbMap (lb_Name lb) = None \<and> map_of npMap (lb_Name lb) = None"

definition deleteStale ::
  "'s CloudVpc \<Rightarrow> (string \<times> Service) list \<Rightarrow> (string \<times> Service) list \<Rightarrow> (string \<times> VpcLoadBalancer) list \<Rightarrow> string \<Rightarrow>
   ('s, unit) io" where
  "deleteStale c lbMap npMap vpcMap name =
     (case map_of vpcMap name of
        None \<Rightarrow> returnM ()
      | Some lb \<Rightarrow>
          if isStale lbMap npMap lb
          then tryM (DeleteLoadBalancer c (Some lb)) (\<lambda>_. returnM ()) (\<lambda>_. returnM ())
          else returnM ())"

definition GatherLoadBalancers ::
  "'s Runtime \<Rightarrow> 's CloudVpc \<Rightarrow> Service list option \<Rightarrow> ('s, (string \<times> Service) list \<times> (string \<times> VpcLoadBalancer) list) io" where
  "GatherLoadBalancers rt c services =
     (case services of
        None \<Rightarrow> raiseM missing_argument
      | Some items \<Rightarrow>
          bindM (sdk_ListLoadBalancers (vpc_Sdk c)) (\<lambda>lbs s.
            let clusterID = cfg_ClusterID (vpc_Config c);
                vpcMap = vpcLbMap clusterID lbs;
                lbMap = kubeLbMap clusterID ServiceTypeLoadBalancer items;
                npMap = kubeLbMap clusterID ServiceTypeNodePort items
            in bindM (forM (deleteStale c lbMap npMap vpcMap) (rt_range rt s (map fst vpcMap)))
                 (\<lambda>_. returnM (lbMap, vpcMap)) s))"

type_synonym LbStatus = "string \<rightharpoonup> string"

definition monitorService ::
  "'s CloudVpc \<Rightarrow> (string \<times> VpcLoadBalancer) list \<Rightarrow> LbStatus \<Rightarrow> string \<Rightarrow> Service \<Rightarrow> ('s, LbStatus) io" where
  "monitorService c vpcMap status lbName service =
     (let serviceID = svc_UID service;
          oldStatus = map_get status serviceID
      in case map_of vpcMap lbName of
           Some vpcLB \<Rightarrow>
             let newStatus = GetStatus vpcLB; status' = status(serviceID \<mapsto> newStatus) in
             if newStatus = vpcLbStatusOnlineActive
             then (if oldStatus \<noteq> vpcLbStatusOnlineActive
                   then bindM (recordServiceNormalEvent c service lbName (getEventMessage newStatus)) (\<lambda>_. returnM status')
                   else returnM status')
             else (if oldStatus = newStatus
                   then bindM (recordServiceWarningEvent c (Some service) verifyingCloudLoadBalancerFailed lbName
                          (getEventMessage newStatus)) (\<lambda>_. returnM status')
                   else returnM status')
         | None \<Rightarrow>
             let newStatus = vpcLbStatusOfflineNotFound; status' = status(serviceID \<mapsto> newStatus) in
             if oldStatus = newStatus
             then bindM (recordServiceWarningEvent c (Some service) verifyingCloudLoadBalancerFailed lbName
                    (getEventMessage newStatus)) (\<lambda>_. returnM status')
             else returnM status')"

fun monitorLoop ::
  "'s CloudVpc \<Rightarrow> (string \<times> Service) list \<Rightarrow> (string \<times> VpcLoadBalancer) list \<Rightarrow> LbStatus \<Rightarrow> string list \<Rightarrow> ('s, LbStatus) io" where
  "monitorLoop c lbMap vpcMap status [] = returnM status"
| "monitorLoop c lbMap vpcMap status (lbName # names) =
     (case map_of lbMap lbName of
        None \<Rightarrow> monitorLoop c lbMap vpcMap status names
      | Some service \<Rightarrow>
          bindM (monitorService c vpcMap status lbName service) (\<lambda>status'.
            monitorLoop c lbMap vpcMap status' names))"

text \<open>The caller's status map is updated in place; the model returns it.\<close>

definition MonitorLoadBalancers ::
  "'s Runtime \<Rightarrow> 's CloudVpc \<Rightarrow> Service list option \<Rightarrow> LbStatus \<Rightarrow> ('s, LbStatus) io" where
  "MonitorLoadBalancers rt c services status =
     (case services of
        None \<Rightarrow> returnM status
      | Some items \<Rightarrow>
          tryM (GatherLoadBalancers rt c (Some items)) (\<lambda>_. returnM status)
            (\<lambda>(lbMap, vpcMap) s. monitorLoop c lbMap vpcMap status (rt_range rt s (map fst lbMap)) s))"

subsection \<open>The provider object\<close>

text \<open>\<open>persistentCloudVpc\<close> is the package's global variable.\<close>

definition GetCloudVpc :: "'s CloudVpc option \<Rightarrow> 's CloudVpc option" where
  "GetCloudVpc persistentCloudVpc = persistentCloudVpc"

definition ResetCloudVpc :: "'s CloudVpc option \<Rightarrow> 's CloudVpc option" where
  "ResetCloudVpc persistentCloudVpc = None"

definition SetCloudVpc :: "'s CloudVpc option \<Rightarrow> 's CloudVpc option \<Rightarrow> 's CloudVpc option" where
  "SetCloudVpc vpc persistentCloudVpc = vpc"

definition CloudVpc_initialize :: "ConfigVpc \<Rightarrow> ConfigVpc res" where
  [simp]: "CloudVpc_initialize config = config_initialize config"

text \<open>The result, the global variable and the state afterwards; the constructors of the SDK are arguments.\<close>

definition NewCloudVpc ::
  "(ConfigVpc \<Rightarrow> ('s, 's CloudVpcSdk) io) \<Rightarrow> ('s, 's CloudVpcSdk) io \<Rightarrow> ConfigVpc option \<Rightarrow> (Event \<Rightarrow> 's \<Rightarrow> 's) option \<Rightarrow>
   's CloudVpc option \<Rightarrow> 's \<Rightarrow> ('s CloudVpc res \<times> 's CloudVpc option) \<times> 's" where
  "NewCloudVpc newVpcSdkProvider newVpcSdkFake config recorder persistentCloudVpc s =
     (case config of
        None \<Rightarrow> ((Inl (Err ''Missing cloud configuration''), persistentCloudVpc), s)
      | Some config \<Rightarrow>
          (case CloudVpc_initialize config of
             Inl e \<Rightarrow> ((Inl e, persistentCloudVpc), s)
           | Inr config \<Rightarrow>
               (case NewCloudVpcSdk newVpcSdkProvider newVpcSdkFake config s of
                  (Inl e, s') \<Rightarrow> ((Inl e, persistentCloudVpc), s')
                | (Inr sdk, s') \<Rightarrow>
                    let c = \<lparr>vpc_Config = config, vpc_Sdk = sdk, vpc_Recorder = recorder\<rparr>
                    in ((Inr c, SetCloudVpc (Some c) persistentCloudVpc), s'))))"

subsection \<open>The steps of \<open>CreateLoadBalancer\<close>\<close>

definition createWork ::
  "'s CloudVpcSdk \<Rightarrow> string \<Rightarrow> Service \<Rightarrow> Node list \<Rightarrow> ServiceOptions \<Rightarrow> string list res \<Rightarrow> ('s, VpcLoadBalancer) io" where
  "createWork sdk n service nodes options subnetIDs =
    bindM (liftM subnetIDs) (\<lambda>subnetList.
      if length (selectNodes service (getServiceZone options) nodes) = 0
      then raiseM (Err ''There are no available nodes for this service'')
      else bindM (liftM (getServicePoolNames (Some service))) (\<lambda>poolList.
        sdk_CreateLoadBalancer sdk n (getNodeIDs (selectNodes service (getServiceZone options) nodes)) poolList subnetList options))"

definition createSubnets ::
  "(string list \<Rightarrow> string list) \<Rightarrow> Service \<Rightarrow> ServiceOptions \<Rightarrow> VpcSubnet \<Rightarrow> VpcSubnet list \<Rightarrow> VpcSubnet list \<Rightarrow> string list res" where
  "createSubnets ro service options firstSubnet vpcSubnets clusterSubnets =
      (if options_getServiceSubnets options \<noteq> []
       then validateServiceSubnets ro service (options_getServiceSubnets options) (ref_ID (sub_Vpc firstSubnet)) vpcSubnets
       else if getServiceZone options \<noteq> [] then validateServiceZone service (getServiceZone options) clusterSubnets
       else Inr (getSubnetIDs clusterSubnets))"

lemma CreateLoadBalancer_steps:
  "n \<noteq> [] \<Longrightarrow> CreateLoadBalancer rt c n (Some service) (Some nodes) =
     bindM (liftM (validateService service)) (\<lambda>options.
     bindM (sdk_ListSubnets (vpc_Sdk c)) (\<lambda>allSubnets s.
       let vpcSubnets = filterSubnetsByVpcName allSubnets (cfg_VpcName (vpc_Config c));
           clusterSubnets = filterSubnetsByName vpcSubnets (cfg_SubnetNames (vpc_Config c))
       in case clusterSubnets of
         [] \<Rightarrow> (Inl (Err (''None of the configured VPC subnets ('' @ cfg_SubnetNames (vpc_Config c) @ '') were found'')), s)
       | firstSubnet # _ \<Rightarrow> createWork (vpc_Sdk c) n service nodes options
           (createSubnets (rt_range rt s) service options firstSubnet vpcSubnets clusterSubnets) s))"
  by (rule ext) (simp only: CreateLoadBalancer_def createWork_def createSubnets_def Let_def option.case prod.case
      not_True_eq_False if_False)

lemma okR_createSubnets: "okR (\<lambda>_. True) (createSubnets ro service options f vs cs)"
  by (simp add: createSubnets_def okR_validateServiceSubnets okR_validateServiceZone)

subsection \<open>Entry points on any SDK that meets its contract\<close>

context vpc_service
begin

lemma safe_FindLoadBalancer:
  assumes "vpc_Sdk c = sdk"
  shows "safe Inv (\<lambda>_. True) (FindLoadBalancer c n)"
  unfolding FindLoadBalancer_def assms by (intro safe_rules sdk_reads) simp

lemma safe_DeleteLoadBalancer:
  assumes "vpc_Sdk c = sdk"
  shows "safe Inv (\<lambda>_. True) (DeleteLoadBalancer c (Some lb))"
  unfolding DeleteLoadBalancer_def assms option.case by (rule sdk_deletes)

lemma safe_createWork: "okR (\<lambda>_. True) ids \<Longrightarrow> safe Inv (\<lambda>_. True) (createWork sdk n service nodes options ids)"
  unfolding createWork_def
  by (intro safe_seq safe_lift safe_if safe_raise sdk_creates) (simp_all add: getServicePoolNames_def)

lemma safe_CreateLoadBalancer:
  assumes "vpc_Sdk c = sdk"
  shows "safe Inv (\<lambda>_. True) (CreateLoadBalancer rt c n (Some service) (Some nodes))"
proof (cases "n = []")
  case True
  then show ?thesis by (simp add: safe_def CreateLoadBalancer_def Let_def)
next
  case False
  have work: "Inv s \<Longrightarrow> Inv (snd (createWork sdk n service nodes options (createSubnets ro service options f vs cs) s)) \<and>
      okR (\<lambda>_. True) (fst (createWork sdk n service nodes options (createSubnets ro service options f vs cs) s))"
    for s options ro f vs cs
    using safe_createWork[OF okR_createSubnets] by (auto simp: safe_def)
  show ?thesis
    unfolding CreateLoadBalancer_steps[OF False] assms Let_def
    by (intro safe_seq safe_lift sdk_reads okR_weaken[OF okR_validateService])
      (auto simp: safe_def work split: list.split)
qed

end

locale vpc_cloud = vpc_service sdk rt Inv
  for sdk :: "'s CloudVpcSdk" and rt :: "'s Runtime" and Inv :: "'s \<Rightarrow> bool" +
  fixes c :: "'s CloudVpc"
  assumes cloud_sdk: "vpc_Sdk c = sdk"
    and recorder: "vpc_Recorder c = Some record \<Longrightarrow> Inv s \<Longrightarrow> Inv (record e s)"
begin

lemma safe_failWith: "safe Inv post (failWith c (Some service) reason lbName err)"
  unfolding failWith_def
  by (rule safe_seq) (auto simp: safe_def recordServiceWarningEvent_def Let_def recorder split: option.split)

lemma safe_normalEvent: "safe Inv (\<lambda>_. True) (recordServiceNormalEvent c service lbName msg)"
  by (auto simp: safe_def recordServiceNormalEvent_def Let_def recorder split: option.split)

lemma safe_warningEvent: "safe Inv (\<lambda>_. True) (recordServiceWarningEvent c (Some service) reason lbName msg)"
  by (auto simp: safe_def recordServiceWarningEvent_def Let_def recorder split: option.split)

lemma safe_updateExisting:
  assumes "word_nodes nodes" "natural_ports service"
  shows "safe Inv (\<lambda>_. True) (updateExisting rt c lbName (Some service) (Some nodes) lb)"
  unfolding updateExisting_def
  by (intro safe_if safe_failWith safe_try[OF safe_UpdateLoadBalancer[OF cloud_sdk assms]] safe_return) simp

lemma safe_EnsureLoadBalancer:
  assumes "word_nodes nodes" "natural_ports service"
  shows "safe Inv (\<lambda>_. True) (EnsureLoadBalancer rt c lbName (Some service) (Some nodes))"
  unfolding EnsureLoadBalancer_def
  by (rule safe_try[OF safe_FindLoadBalancer[OF cloud_sdk] safe_failWith])
    (auto split: option.split simp del: io_simps
      intro!: safe_updateExisting[OF assms] safe_try[OF safe_CreateLoadBalancer[OF cloud_sdk] safe_failWith] safe_if safe_return)

lemma safe_EnsureLoadBalancerDeleted: "safe Inv (\<lambda>_. True) (EnsureLoadBalancerDeleted c lbName (Some service))"
  unfolding EnsureLoadBalancerDeleted_def
  by (rule safe_try[OF safe_FindLoadBalancer[OF cloud_sdk] safe_failWith])
    (auto split: option.split simp del: io_simps
      intro!: safe_try[OF safe_DeleteLoadBalancer[OF cloud_sdk] safe_failWith] safe_return)

lemma safe_GetLoadBalancer: "safe Inv (\<lambda>_. True) (GetLoadBalancer c lbName (Some service))"
  unfolding GetLoadBalancer_def
  by (rule safe_try[OF safe_FindLoadBalancer[OF cloud_sdk] safe_failWith])
    (auto split: option.split simp del: io_simps intro!: safe_return)

lemma safe_EnsureLoadBalancerUpdated:
  assumes "word_nodes nodes" "natural_ports service"
  shows "safe Inv (\<lambda>_. True) (EnsureLoadBalancerUpdated rt c lbName (Some service) (Some nodes))"
  unfolding EnsureLoadBalancerUpdated_def
  by (rule safe_try[OF safe_FindLoadBalancer[OF cloud_sdk] safe_failWith])
    (auto split: option.split simp del: io_simps
      intro!: safe_try[OF safe_UpdateLoadBalancer[OF cloud_sdk assms] safe_failWith] safe_if safe_return safe_failWith)

lemma safe_GatherLoadBalancers: "safe Inv (\<lambda>_. True) (GatherLoadBalancers rt c (Some items))"
proof -
  have "safe Inv (\<lambda>_. True) (deleteStale c lbMap npMap vpcMap name)" for lbMap npMap vpcMap name
    unfolding deleteStale_def
    by (auto split: option.split simp del: io_simps
        intro!: safe_if safe_return safe_try[OF safe_DeleteLoadBalancer[OF cloud_sdk]])
  then have loop: "safe Inv (\<lambda>_. True) (bindM (forM (deleteStale c lbMap npMap vpcMap) names) (\<lambda>_. returnM r))"
    for lbMap npMap vpcMap names and r :: "(string \<times> Service) list \<times> (string \<times> VpcLoadBalancer) list"
    by (intro safe_seq safe_for safe_return) auto
  show ?thesis
    unfolding GatherLoadBalancers_def option.case Let_def cloud_sdk
    by (rule safe_seq[OF sdk_reads(2)]) (use loop in \<open>auto simp: safe_def\<close>)
qed

lemma safe_monitorLoop: "safe Inv (\<lambda>_. True) (monitorLoop c lbMap vpcMap status names)"
proof (induction names arbitrary: status)
  case (Cons n names)
  have "safe Inv (\<lambda>_. True) (monitorService c vpcMap status n service)" for service
    unfolding monitorService_def Let_def
    by (auto split: option.split simp del: io_simps
        intro!: safe_if safe_return safe_seq[OF safe_normalEvent] safe_seq[OF safe_warningEvent])
  with Cons.IH show ?case by (auto split: option.split intro!: safe_seq)
qed (simp add: safe_return del: io_simps)

lemma safe_MonitorLoadBalancers: "safe Inv (\<lambda>_. True) (MonitorLoadBalancers rt c services status)"
proof (cases services)
  case None
  then show ?thesis by (simp add: MonitorLoadBalancers_def safe_return del: io_simps)
next
  case (Some items)
  show ?thesis
    unfolding MonitorLoadBalancers_def Some option.case
    by (rule safe_try[OF safe_GatherLoadBalancers safe_return])
      (use safe_monitorLoop in \<open>auto simp: safe_def split: prod.splits\<close>)
qed

end

interpretation fake_cloud: vpc_cloud VpcSdkFake_sdk fake_runtime fake_inv ex_cloud
  by unfold_locales (auto simp: ex_cloud_def fake_record_def fake_inv_def)

subsection \<open>The maps of the monitor\<close>

text \<open>A map filled in a loop: the last item with a key wins.\<close>

lemma map_of_fold_update:
  "map_of (fold (\<lambda>x m. if P x then AList.update (k x) x m else m) xs []) n = find (\<lambda>x. P x \<and> k x = n) (rev xs)"
proof (induction xs rule: rev_induct)
  case (snoc x xs)
  then show ?case by (auto simp: update_conv)
qed simp

lemma distinct_fold_update:
  "distinct (map fst m) \<Longrightarrow> distinct (map fst (fold (\<lambda>x m. if P x then AList.update (k x) x m else m) xs m))"
  by (induction xs arbitrary: m) (simp_all add: distinct_update)

lemma find_SomeD: "find P xs = Some x \<Longrightarrow> x \<in> set xs \<and> P x"
  by (induction xs) (auto split: if_splits)

lemma vpcLbMap_Some:
  assumes "map_of (vpcLbMap clusterID lbs) n = Some lb"
  shows "lb \<in> set lbs" "lb_Name lb = n" "HasPrefix n (VpcLbNamePrefix @ ''-'' @ clusterID @ ''-'')"
  using assms by (auto simp: vpcLbMap_def Let_def map_of_fold_update dest!: find_SomeD)

lemma vpcLbMap_lookup:
  assumes "distinct (map lb_Name lbs)" "lb \<in> set lbs" "HasPrefix (lb_Name lb) (VpcLbNamePrefix @ ''-'' @ clusterID @ ''-'')"
  shows "map_of (vpcLbMap clusterID lbs) (lb_Name lb) = Some lb"
proof (cases "map_of (vpcLbMap clusterID lbs) (lb_Name lb)")
  case None
  with assms show ?thesis by (auto simp: vpcLbMap_def Let_def map_of_fold_update find_None_iff)
next
  case (Some lb')
  with vpcLbMap_Some[OF Some] assms(1,2) show ?thesis by (metis distinct_map inj_onD)
qed

lemma kubeLbMap_None:
  "map_of (kubeLbMap clusterID ty items) n = None \<longleftrightarrow>
   (\<forall>service \<in> set items. svc_Type service = ty \<longrightarrow> GenerateLoadBalancerName service clusterID \<noteq> n)"
  by (auto simp: kubeLbMap_def map_of_fold_update find_None_iff)

lemma kubeLbMap_Some:
  assumes "map_of (kubeLbMap clusterID ty items) n = Some service"
  shows "service \<in> set items" "svc_Type service = ty" "GenerateLoadBalancerName service clusterID = n"
  using assms by (auto simp: kubeLbMap_def map_of_fold_update dest!: find_SomeD)

lemma map_keys: "distinct (map fst (vpcLbMap clusterID lbs))" "distinct (map fst (kubeLbMap clusterID ty items))"
  unfolding vpcLbMap_def kubeLbMap_def Let_def by (rule distinct_fold_update, simp)+

subsection \<open>Stale load balancers\<close>

definition stale ::
  "string \<Rightarrow> Service list \<Rightarrow> VpcLoadBalancer \<Rightarrow> bool" where
  "stale clusterID items lb \<longleftrightarrow>
     IsReady lb \<and> HasPrefix (lb_Name lb) (VpcLbNamePrefix @ ''-'' @ clusterID @ ''-'') \<and>
     (\<forall>service \<in> set items. svc_Type service = ServiceTypeLoadBalancer \<or> svc_Type service = ServiceTypeNodePort \<longrightarrow>
        GenerateLoadBalancerName service clusterID \<noteq> lb_Name lb)"

definition delete_all :: "'s CloudVpcSdk \<Rightarrow> string list \<Rightarrow> 's \<Rightarrow> 's" where
  "delete_all sdk ids s = fold (\<lambda>i s. snd (sdk_DeleteLoadBalancer sdk i s)) ids s"

lemma forM_deleteStale:
  assumes "forM (deleteStale c lbMap npMap vpcMap) names s = (r, s')"
  shows "\<exists>ids. s' = delete_all (vpc_Sdk c) ids s \<and>
    set ids \<subseteq> {lb_ID lb | lb n. n \<in> set names \<and> map_of vpcMap n = Some lb \<and> isStale lbMap npMap lb} \<and>
    (r = Inr () \<longrightarrow> {lb_ID lb | lb n. n \<in> set names \<and> map_of vpcMap n = Some lb \<and> isStale lbMap npMap lb} \<subseteq> set ids)"
  using assms
proof (induction names arbitrary: s)
  case Nil
  then show ?case by (auto simp: delete_all_def intro: exI[of _ "[]"])
next
  case (Cons n names)
  let ?D = "\<lambda>ns. {lb_ID lb | lb n. n \<in> set ns \<and> map_of vpcMap n = Some lb \<and> isStale lbMap npMap lb}"
  show ?case
  proof (cases "\<exists>lb. map_of vpcMap n = Some lb \<and> isStale lbMap npMap lb")
    case False
    then have "deleteStale c lbMap npMap vpcMap n = returnM ()" by (auto simp: deleteStale_def split: option.split)
    with Cons.prems have "forM (deleteStale c lbMap npMap vpcMap) names s = (r, s')" by simp
    moreover have "?D (n # names) = ?D names" using False by auto
    ultimately show ?thesis using Cons.IH[of s] by simp
  next
    case True
    then obtain lb where lb: "map_of vpcMap n = Some lb" "isStale lbMap npMap lb" by blast
    have D: "?D (n # names) = insert (lb_ID lb) (?D names)" using lb by auto
    obtain r1 s1 where del: "sdk_DeleteLoadBalancer (vpc_Sdk c) (lb_ID lb) s = (r1, s1)"
      by (cases "sdk_DeleteLoadBalancer (vpc_Sdk c) (lb_ID lb) s")
    have step: "delete_all (vpc_Sdk c) (lb_ID lb # ids) s = delete_all (vpc_Sdk c) ids s1" for ids
      by (simp add: delete_all_def del)
    consider p where "r1 = Inl (Panic p)" | "\<nexists>p. r1 = Inl (Panic p)" by blast
    then show ?thesis
    proof cases
      case 1
      with Cons.prems lb del have "r = Inl (Panic p)" "s' = s1"
        by (auto simp: bindM_def deleteStale_def tryM_def DeleteLoadBalancer_def)
      then show ?thesis unfolding D using step[of "[]"] by (intro exI[of _ "[lb_ID lb]"]) (auto simp: delete_all_def)
    next
      case 2
      with lb del have "deleteStale c lbMap npMap vpcMap n s = (Inr (), s1)"
        by (auto simp: deleteStale_def tryM_def DeleteLoadBalancer_def split: sum.splits go_err.splits)
      with Cons.prems have "forM (deleteStale c lbMap npMap vpcMap) names s1 = (r, s')" by (simp add: bindM_def)
      with Cons.IH[of s1] obtain ids where "s' = delete_all (vpc_Sdk c) ids s1" "set ids \<subseteq> ?D names"
        "r = Inr () \<longrightarrow> ?D names \<subseteq> set ids" by blast
      then show ?thesis unfolding D using step[of ids] by (intro exI[of _ "lb_ID lb # ids"]) auto
    qed
  qed
qed

lemma isStale_stale:
  assumes "map_of (vpcLbMap clusterID lbs) n = Some lb"
  shows "isStale (kubeLbMap clusterID ServiceTypeLoadBalancer items) (kubeLbMap clusterID ServiceTypeNodePort items) lb \<longleftrightarrow>
    stale clusterID items lb"
  using vpcLbMap_Some[OF assms] by (auto simp: isStale_def stale_def kubeLbMap_None)

lemma map_of_keys: "map_of m n = Some x \<Longrightarrow> n \<in> set (map fst m)"
  by (force dest: map_of_SomeD)

lemma deleteStale_Inl: "deleteStale c lbMap npMap vpcMap n s = (Inl e, s') \<Longrightarrow> \<exists>p. e = Panic p"
  by (auto simp: deleteStale_def tryM_def split: prod.splits sum.splits go_err.splits option.splits if_splits)

lemma forM_Inl:
  assumes "\<And>x s e s'. f x s = (Inl e, s') \<Longrightarrow> P e"
  shows "forM f xs s = (Inl e, s') \<Longrightarrow> P e"
proof (induction xs arbitrary: s)
  case (Cons x xs)
  show ?case
  proof (cases "f x s")
    case (Pair r1 s1)
    with Cons assms[of x s] show ?thesis by (cases r1) (auto simp: bindM_def)
  qed
qed simp

lemma gather_deletes:
  assumes "GatherLoadBalancers rt c (Some items) s = (r, s')" "sdk_ListLoadBalancers (vpc_Sdk c) s = (Inr lbs, s1)"
    and "range_order (rt_range rt s1)"
  defines "cid \<equiv> cfg_ClusterID (vpc_Config c)"
  shows "\<exists>ids. s' = delete_all (vpc_Sdk c) ids s1 \<and> set ids \<subseteq> lb_ID ` {lb \<in> set lbs. stale cid items lb} \<and>
    (case r of Inl e \<Rightarrow> \<exists>p. e = Panic p
     | Inr _ \<Rightarrow> distinct (map lb_Name lbs) \<longrightarrow> set ids = lb_ID ` {lb \<in> set lbs. stale cid items lb})"
proof -
  let ?vpc = "vpcLbMap cid lbs" and ?lb = "kubeLbMap cid ServiceTypeLoadBalancer items" and ?np = "kubeLbMap cid ServiceTypeNodePort items"
  let ?names = "rt_range rt s1 (map fst ?vpc)"
  let ?D = "{lb_ID lb | lb n. n \<in> set ?names \<and> map_of ?vpc n = Some lb \<and> isStale ?lb ?np lb}"
  obtain r1 s2 where r1: "forM (deleteStale c ?lb ?np ?vpc) ?names s1 = (r1, s2)"
    by (cases "forM (deleteStale c ?lb ?np ?vpc) ?names s1")
  have rs: "s' = s2" "r = (case r1 of Inl e \<Rightarrow> Inl e | Inr _ \<Rightarrow> Inr (?lb, ?vpc))"
    using assms(1,2) r1 by (auto simp: GatherLoadBalancers_def bindM_def Let_def cid_def split: sum.splits)
  have names: "set ?names = set (map fst ?vpc)" using range_order_set[OF assms(3)] .
  have D: "?D \<subseteq> lb_ID ` {lb \<in> set lbs. stale cid items lb}"
  proof
    fix i assume "i \<in> ?D"
    then obtain lb n where "map_of ?vpc n = Some lb" "isStale ?lb ?np lb" "i = lb_ID lb" by blast
    with vpcLbMap_Some(1) isStale_stale show "i \<in> lb_ID ` {lb \<in> set lbs. stale cid items lb}" by blast
  qed
  have D': "lb_ID ` {lb \<in> set lbs. stale cid items lb} \<subseteq> ?D" if "distinct (map lb_Name lbs)"
  proof
    fix i assume "i \<in> lb_ID ` {lb \<in> set lbs. stale cid items lb}"
    then obtain lb where lb: "lb \<in> set lbs" "stale cid items lb" "i = lb_ID lb" by auto
    have "map_of ?vpc (lb_Name lb) = Some lb" using vpcLbMap_lookup[OF that lb(1)] lb(2) by (simp add: stale_def)
    moreover from this have "lb_Name lb \<in> set ?names" unfolding names by (rule map_of_keys)
    ultimately show "i \<in> ?D" using lb isStale_stale by blast
  qed
  from forM_deleteStale[OF r1] rs(1) obtain ids where ids: "s' = delete_all (vpc_Sdk c) ids s1" "set ids \<subseteq> ?D"
    "r1 = Inr () \<longrightarrow> ?D \<subseteq> set ids"
    by blast
  show ?thesis
  proof (cases r1)
    case (Inl e)
    with r1 have "forM (deleteStale c ?lb ?np ?vpc) ?names s1 = (Inl e, s2)" by simp
    from forM_Inl[of _ "\<lambda>e. \<exists>p. e = Panic p", OF deleteStale_Inl this] have "\<exists>p. e = Panic p" .
    with ids D rs(2) Inl show ?thesis by (intro exI[of _ ids]) auto
  next
    case (Inr u)
    with ids D D' rs(2) show ?thesis by (intro exI[of _ ids]) auto
  qed
qed

subsection \<open>One run of the monitor\<close>

definition observed :: "(string \<times> VpcLoadBalancer) list \<Rightarrow> string \<Rightarrow> string" where
  "observed vpcMap n = (case map_of vpcMap n of Some lb \<Rightarrow> GetStatus lb | None \<Rightarrow> vpcLbStatusOfflineNotFound)"

text \<open>The event for a service, from the status of the previous run and that of this run.\<close>

definition monitor_events :: "string \<Rightarrow> string \<Rightarrow> Service \<Rightarrow> string \<Rightarrow> Event list" where
  "monitor_events old lbName service new =
     (if new = vpcLbStatusOnlineActive
      then (if old = vpcLbStatusOnlineActive then []
            else [service_event service EventTypeNormal ''CloudVPCLoadBalancerNormalEvent''
              (''Event on cloud load balancer '' @ lbName @ '' for service '' @ NamespacedName service @
               '' with UID '' @ svc_UID service @ '': '' @ getEventMessage new)])
      else if old = new
      then [service_event service EventTypeWarning verifyingCloudLoadBalancerFailed
              (''Error on cloud load balancer '' @ lbName @ '' for service '' @ NamespacedName service @
               '' with UID '' @ svc_UID service @ '': '' @ getEventMessage new)]
      else [])"

lemma vpcLbStatus_distinct: "vpcLbStatusOfflineNotFound \<noteq> vpcLbStatusOnlineActive"
  by (simp add: vpcLbStatusOfflineNotFound_def vpcLbStatusOnlineActive_def vpc_consts)

lemma monitorService_run:
  assumes "vpc_Recorder c = Some record"
  shows "monitorService c vpcMap status n service s =
    (Inr (status(svc_UID service \<mapsto> observed vpcMap n)),
     fold record (monitor_events (map_get status (svc_UID service)) n service (observed vpcMap n)) s)"
  using assms vpcLbStatus_distinct
  by (auto simp: monitorService_def observed_def monitor_events_def Let_def bindM_def recordServiceNormalEvent_def
      recordServiceWarningEvent_def split: option.split)

definition new_status :: "(string \<times> Service) list \<Rightarrow> (string \<times> VpcLoadBalancer) list \<Rightarrow> LbStatus \<Rightarrow> string list \<Rightarrow> LbStatus" where
  "new_status lbMap vpcMap status names = fold (\<lambda>n st. case map_of lbMap n of
     None \<Rightarrow> st | Some service \<Rightarrow> st(svc_UID service \<mapsto> observed vpcMap n)) names status"

definition run_events :: "(string \<times> Service) list \<Rightarrow> (string \<times> VpcLoadBalancer) list \<Rightarrow> LbStatus \<Rightarrow> string list \<Rightarrow> Event list" where
  "run_events lbMap vpcMap status names = concat (map (\<lambda>n. case map_of lbMap n of
     None \<Rightarrow> [] | Some service \<Rightarrow> monitor_events (map_get status (svc_UID service)) n service (observed vpcMap n)) names)"

text \<open>No two names of the map stand for services with the same UID.\<close>

definition unique_uids :: "(string \<times> Service) list \<Rightarrow> bool" where
  "unique_uids lbMap \<longleftrightarrow> (\<forall>n n' service service'. map_of lbMap n = Some service \<longrightarrow> map_of lbMap n' = Some service' \<longrightarrow>
     svc_UID service = svc_UID service' \<longrightarrow> n = n')"

lemma monitorLoop_run:
  assumes rec: "vpc_Recorder c = Some record" and uids: "unique_uids lbMap"
  shows "distinct names \<Longrightarrow> monitorLoop c lbMap vpcMap status names s =
    (Inr (new_status lbMap vpcMap status names), fold record (run_events lbMap vpcMap status names) s)"
proof (induction names arbitrary: status s)
  case Nil
  then show ?case by (simp add: new_status_def run_events_def)
next
  case (Cons n names)
  show ?case
  proof (cases "map_of lbMap n")
    case None
    with Cons show ?thesis by (simp add: new_status_def run_events_def)
  next
    case (Some service)
    let ?st = "status(svc_UID service \<mapsto> observed vpcMap n)"
    have "map_get ?st (svc_UID service') = map_get status (svc_UID service')"
      if "n' \<in> set names" "map_of lbMap n' = Some service'" for n' service'
    proof -
      have "n \<noteq> n'" using that(1) Cons.prems by auto
      with uids Some that(2) have "svc_UID service' \<noteq> svc_UID service" unfolding unique_uids_def by metis
      then show ?thesis by (simp add: map_get_def)
    qed
    then have "run_events lbMap vpcMap ?st names = run_events lbMap vpcMap status names"
      unfolding run_events_def by (intro arg_cong[of _ _ concat] map_cong refl) (auto split: option.split)
    with Some Cons show ?thesis
      by (simp add: bindM_def monitorService_run[OF rec] new_status_def run_events_def)
  qed
qed

lemma new_status_lookup:
  assumes "unique_uids lbMap" "distinct names"
  shows "n \<in> set names \<Longrightarrow> map_of lbMap n = Some service \<Longrightarrow>
      new_status lbMap vpcMap status names (svc_UID service) = Some (observed vpcMap n)"
    and "(\<And>n service. n \<in> set names \<Longrightarrow> map_of lbMap n = Some service \<Longrightarrow> svc_UID service \<noteq> uid) \<Longrightarrow>
      new_status lbMap vpcMap status names uid = status uid"
proof -
  show other: "new_status lbMap vpcMap status names uid = status uid"
    if "\<And>n service. n \<in> set names \<Longrightarrow> map_of lbMap n = Some service \<Longrightarrow> svc_UID service \<noteq> uid" for uid names status
    using that
  proof (induction names arbitrary: status)
    case (Cons n names)
    have "new_status lbMap vpcMap st names uid = st uid" for st using Cons.prems by (intro Cons.IH) auto
    with Cons.prems[of n] show ?case by (auto simp: new_status_def split: option.split)
  qed (simp add: new_status_def)
  show "new_status lbMap vpcMap status names (svc_UID service) = Some (observed vpcMap n)"
    if "n \<in> set names" "map_of lbMap n = Some service"
    using assms(2) that
  proof (induction names arbitrary: status)
    case (Cons m names)
    show ?case
    proof (cases "m = n")
      case True
      have "new_status lbMap vpcMap (status(svc_UID service \<mapsto> observed vpcMap n)) names (svc_UID service) =
          (status(svc_UID service \<mapsto> observed vpcMap n)) (svc_UID service)"
        using assms(1) Cons.prems True by (intro other) (auto simp: unique_uids_def)
      with True Cons.prems show ?thesis by (simp add: new_status_def)
    next
      case False
      with Cons show ?thesis by (simp add: new_status_def split: option.split)
    qed
  qed simp
qed

lemma kubeLbMap_lookup:
  assumes "service \<in> set items" "svc_Type service = ty"
    and "inj_on (\<lambda>service. GenerateLoadBalancerName service clusterID) (set items)"
  shows "map_of (kubeLbMap clusterID ty items) (GenerateLoadBalancerName service clusterID) = Some service"
proof (cases "map_of (kubeLbMap clusterID ty items) (GenerateLoadBalancerName service clusterID)")
  case None
  with assms show ?thesis by (auto simp: kubeLbMap_None)
next
  case (Some service')
  with kubeLbMap_Some[OF Some] assms show ?thesis by (metis inj_onD)
qed

lemma unique_uids_kubeLbMap: "distinct (map svc_UID items) \<Longrightarrow> unique_uids (kubeLbMap clusterID ty items)"
  unfolding unique_uids_def by (metis kubeLbMap_Some(1,3) distinct_map inj_onD)

text \<open>A run of the monitor, in terms of its maps; then, service by service.\<close>

lemma monitor_runs:
  assumes "\<And>s. range_order (rt_range rt s)" "vpc_Recorder c = Some record" "distinct (map svc_UID items)"
    and "sdk_ListLoadBalancers (vpc_Sdk c) s = (Inr lbs, s1)" "distinct (map lb_Name lbs)"
    and "MonitorLoadBalancers rt c (Some items) status s = (Inr status', s')"
  defines "clusterID \<equiv> cfg_ClusterID (vpc_Config c)"
  defines "lbMap \<equiv> kubeLbMap clusterID ServiceTypeLoadBalancer items" and "vpcMap \<equiv> vpcLbMap clusterID lbs"
  obtains ids names where "set ids = lb_ID ` {lb \<in> set lbs. stale clusterID items lb}" "distinct names" "set names = set (map fst lbMap)"
    "status' = new_status lbMap vpcMap status names" "s' = fold record (run_events lbMap vpcMap status names) (delete_all (vpc_Sdk c) ids s1)"
proof -
  obtain r s2 where g: "GatherLoadBalancers rt c (Some items) s = (r, s2)" by (cases "GatherLoadBalancers rt c (Some items) s")
  from gather_deletes[OF g assms(4,1)] obtain ids where ids: "s2 = delete_all (vpc_Sdk c) ids s1"
    and gathered: "case r of Inl e \<Rightarrow> \<exists>p. e = Panic p
      | Inr _ \<Rightarrow> distinct (map lb_Name lbs) \<longrightarrow> set ids = lb_ID ` {lb \<in> set lbs. stale clusterID items lb}"
    by (cases r) (auto simp: clusterID_def)
  then have r: "r = Inr (lbMap, vpcMap)"
    using g assms(4,6)
    by (auto simp: MonitorLoadBalancers_def tryM_def GatherLoadBalancers_def bindM_def Let_def lbMap_def vpcMap_def clusterID_def
        split: sum.splits prod.splits)
  have names: "distinct (rt_range rt s2 (map fst lbMap))" "set (rt_range rt s2 (map fst lbMap)) = set (map fst lbMap)"
    using range_order_distinct[OF assms(1)] range_order_set[OF assms(1)] map_keys(2) by (auto simp: lbMap_def)
  have uids: "unique_uids lbMap" unfolding lbMap_def using assms(3) by (rule unique_uids_kubeLbMap)
  have "status' = new_status lbMap vpcMap status (rt_range rt s2 (map fst lbMap))"
    "s' = fold record (run_events lbMap vpcMap status (rt_range rt s2 (map fst lbMap))) s2"
    using assms(6) g r monitorLoop_run[OF assms(2) uids names(1)] by (auto simp: MonitorLoadBalancers_def tryM_def)
  with that ids gathered r assms(5) names show ?thesis by simp
qed

lemma kubeLbMap_services:
  assumes "inj_on (\<lambda>service. GenerateLoadBalancerName service clusterID) (set items)" "distinct names"
    and "set names = set (map fst (kubeLbMap clusterID ty items))"
  obtains order where "distinct order" "set order = {service \<in> set items. svc_Type service = ty}"
    "names = map (\<lambda>service. GenerateLoadBalancerName service clusterID) order"
    "\<forall>service \<in> set order. map_of (kubeLbMap clusterID ty items) (GenerateLoadBalancerName service clusterID) = Some service"
proof -
  let ?lb = "kubeLbMap clusterID ty items" and ?name = "\<lambda>service. GenerateLoadBalancerName service clusterID"
  let ?services = "{service \<in> set items. svc_Type service = ty}" and ?order = "map (\<lambda>n. the (map_of ?lb n)) names"
  have entry: "map_of ?lb n = Some (the (map_of ?lb n)) \<and> the (map_of ?lb n) \<in> ?services \<and> ?name (the (map_of ?lb n)) = n"
    if n: "n \<in> set names" for n
  proof -
    from n obtain service where sv: "map_of ?lb n = Some service" unfolding assms(3) by (metis map_of_eq_None_iff not_None_eq set_map)
    with kubeLbMap_Some[OF sv] show ?thesis by simp
  qed
  have named: "names = map ?name ?order" using entry by (simp add: map_idI)
  have "distinct ?order" unfolding distinct_map using assms(2) entry by (auto intro: inj_on_inverseI[where g = ?name])
  moreover have "set ?order = ?services"
  proof
    show "set ?order \<subseteq> ?services" using entry by auto
    show "?services \<subseteq> set ?order"
    proof
      fix service assume "service \<in> ?services"
      then have sv: "map_of ?lb (?name service) = Some service" using kubeLbMap_lookup[OF _ _ assms(1)] by simp
      then have "?name service \<in> set names" unfolding assms(3) by (rule map_of_keys)
      with sv show "service \<in> set ?order" unfolding set_map by (intro rev_image_eqI[of "?name service"]) simp_all
    qed
  qed
  moreover have "map_of ?lb (?name service) = Some service" if "service \<in> ?services" for service
    using kubeLbMap_lookup[OF _ _ assms(1)] that by simp
  ultimately show ?thesis using that[of ?order] named by simp
qed

lemma run_events_services:
  assumes "\<forall>service \<in> set order. map_of lbMap (name service) = Some service"
  shows "run_events lbMap vpcMap status (map name order) =
    concat (map (\<lambda>service. monitor_events (map_get status (svc_UID service)) (name service) service (observed vpcMap (name service))) order)"
  unfolding run_events_def map_map comp_def using assms by (intro arg_cong[of _ _ concat] map_cong refl) simp

text \<open>What is observed: the load balancer of that name, if the name has the prefix of the cluster.\<close>

lemma observed_status:
  assumes "distinct (map lb_Name lbs)"
  shows "lb \<in> set lbs \<Longrightarrow> lb_Name lb = n \<Longrightarrow> HasPrefix n (''kube-'' @ clusterID @ ''-'') \<Longrightarrow> observed (vpcLbMap clusterID lbs) n = GetStatus lb"
    and "\<nexists>lb. lb \<in> set lbs \<and> lb_Name lb = n \<and> HasPrefix n (''kube-'' @ clusterID @ ''-'') \<Longrightarrow>
      observed (vpcLbMap clusterID lbs) n = ''offline/not_found''"
proof -
  show "observed (vpcLbMap clusterID lbs) n = GetStatus lb"
    if "lb \<in> set lbs" "lb_Name lb = n" "HasPrefix n (''kube-'' @ clusterID @ ''-'')"
    using vpcLbMap_lookup[OF assms that(1)] that(2,3) by (simp add: observed_def VpcLbNamePrefix_def)
  assume none: "\<nexists>lb. lb \<in> set lbs \<and> lb_Name lb = n \<and> HasPrefix n (''kube-'' @ clusterID @ ''-'')"
  have "map_of (vpcLbMap clusterID lbs) n = None"
  proof (rule ccontr)
    assume "map_of (vpcLbMap clusterID lbs) n \<noteq> None"
    then obtain lb where "map_of (vpcLbMap clusterID lbs) n = Some lb" by blast
    from vpcLbMap_Some[OF this] none show False by (auto simp: VpcLbNamePrefix_def)
  qed
  then show "observed (vpcLbMap clusterID lbs) n = ''offline/not_found''"
    by (simp add: observed_def vpcLbStatusOfflineNotFound_def vpc_consts)
qed

subsection \<open>Failures and events\<close>

text \<open>Whenever \<open>m\<close> returns an error, its last act was to record a warning event with that very text.\<close>

definition records :: "(Event \<Rightarrow> 's \<Rightarrow> 's) \<Rightarrow> Service \<Rightarrow> string \<Rightarrow> ('s, 'a) io \<Rightarrow> bool" where
  "records record service reason m \<longleftrightarrow> (\<forall>s msg s'. m s = (Inl (Err msg), s') \<longrightarrow>
     (\<exists>s0. s' = record (service_event service EventTypeWarning reason msg) s0))"

lemma records_failWith:
  "vpc_Recorder c = Some record \<Longrightarrow> records record service reason (failWith c (Some service) reason lbName err)"
  by (auto simp: records_def failWith_def bindM_def recordServiceWarningEvent_def Let_def)

lemma records_return: "records record service reason (returnM x)"
  and records_panic: "records record service reason (raiseM (Panic p))"
  by (simp_all add: records_def)

lemma records_try:
  "(\<And>msg. records record service reason (handler msg)) \<Longrightarrow> (\<And>x. records record service reason (f x)) \<Longrightarrow>
   records record service reason (tryM m handler f)"
  by (auto simp: records_def tryM_def split: prod.splits sum.splits go_err.splits)

lemma records_if:
  "records record service reason m \<Longrightarrow> records record service reason m' \<Longrightarrow> records record service reason (if b then m else m')"
  by simp

lemma records_option:
  "records record service reason m \<Longrightarrow> (\<And>x. records record service reason (f x)) \<Longrightarrow>
   records record service reason (case y of None \<Rightarrow> m | Some x \<Rightarrow> f x)"
  by (cases y) simp_all

lemmas records_rules = records_failWith records_return records_panic records_try records_if records_option

subsection \<open>Names of load balancers\<close>

definition plain_name :: "Service \<Rightarrow> string \<Rightarrow> string" where
  "plain_name service clusterID = VpcLbNamePrefix @ ''-'' @ clusterID @ ''-'' @ RemoveAll (CHR ''-'') (svc_UID service)"

lemma GenerateLoadBalancerName_plain:
  "map_get (svc_Annotations service) serviceAnnotationLbName = [] \<Longrightarrow>
   GenerateLoadBalancerName service clusterID = take 63 (plain_name service clusterID)"
  by (simp add: GenerateLoadBalancerName_def plain_name_def Let_def)

subsection \<open>Properties\<close>

text \<open>A service without annotations whose UID gives it the name of the mock's ready load balancer.\<close>

definition ex_lb_service :: Service where
  "ex_lb_service = ex_web\<lparr>svc_UID := ''Ready''\<rparr>"

definition ex_gone_service :: Service where
  "ex_gone_service = ex_web\<lparr>svc_UID := ''Gone''\<rparr>"

lemma new_world_lbs: "sdk_ListLoadBalancers (vpc_Sdk ex_cloud) new_world = (Inr [fake_lbReady, fake_lbNotReady], new_world)"
  by (simp add: ex_cloud_def VpcSdkFake_sdk_def fake_defs fake_call_def new_world_def NewVpcSdkFake_def VpcSdkFake.defs)

lemma fake_range_order: "range_order (rt_range fake_runtime s)"
  by (simp add: fake_runtime_def range_order_id)

text \<open>C10: The clean-up of stale load balancers deletes nothing that is in use. Whatever order the map is visited in, the only changes
  \<open>GatherLoadBalancers\<close> makes are deletions of load balancers that carry this cluster's name prefix, are ready, and whose name
  belongs to no load-balancer or node-port service of the cluster; the failure of a deletion is not reported; and when
  it returns, every such load balancer has been deleted (names being unique).\<close>

theorem gather_deletes_exactly_stale:
  assumes "sdk_ListLoadBalancers (vpc_Sdk c) s = (Inr lbs, s1)" "range_order (rt_range rt s1)"
    and "GatherLoadBalancers rt c (Some items) s = (r, s')"
  shows "\<exists>ids. s' = delete_all (vpc_Sdk c) ids s1 \<and>
    set ids \<subseteq> lb_ID ` {lb \<in> set lbs. stale (cfg_ClusterID (vpc_Config c)) items lb} \<and>
    (case r of Inl e \<Rightarrow> \<exists>p. e = Panic p
     | Inr _ \<Rightarrow> distinct (map lb_Name lbs) \<longrightarrow> set ids = lb_ID ` {lb \<in> set lbs. stale (cfg_ClusterID (vpc_Config c)) items lb})"
  using gather_deletes[OF assms(3,1,2)] .

theorem gather_deletes_exactly_stale_witness:
  "\<exists>ids. snd (GatherLoadBalancers fake_runtime ex_cloud (Some [ex_gone_service]) new_world) = delete_all (vpc_Sdk ex_cloud) ids new_world \<and>
     set ids \<subseteq> {''Ready''}"
proof -
  have "stale ''clusterID'' [ex_gone_service] fake_lbReady" "\<not> stale ''clusterID'' [ex_gone_service] fake_lbNotReady"
    by code_simp+
  moreover have "lb_ID fake_lbReady = ''Ready''" "cfg_ClusterID (vpc_Config ex_cloud) = ''clusterID''"
    by (simp_all add: fake_lbReady_def ex_cloud_def ex_config_def)
  ultimately have D: "lb_ID ` {lb \<in> set [fake_lbReady, fake_lbNotReady]. stale (cfg_ClusterID (vpc_Config ex_cloud)) [ex_gone_service] lb} \<subseteq> {''Ready''}"
    by auto
  obtain r s' where g: "GatherLoadBalancers fake_runtime ex_cloud (Some [ex_gone_service]) new_world = (r, s')"
    by (cases "GatherLoadBalancers fake_runtime ex_cloud (Some [ex_gone_service]) new_world")
  from gather_deletes_exactly_stale[OF new_world_lbs fake_range_order g]
  obtain ids where ids: "s' = delete_all (vpc_Sdk ex_cloud) ids new_world"
    "set ids \<subseteq> lb_ID ` {lb \<in> set [fake_lbReady, fake_lbNotReady]. stale (cfg_ClusterID (vpc_Config ex_cloud)) [ex_gone_service] lb}"
    by (elim exE conjE) (rule that)
  have "set ids \<subseteq> {''Ready''}" using subset_trans[OF ids(2) D] .
  with ids(1) g show ?thesis by (intro exI[of _ ids]) simp
qed

text \<open>C11: One run of the monitor, whatever order the maps are visited in. A load balancer is looked for under the name of the service, among those
  whose names have this cluster's prefix: the new status of a load-balancer service is the status of that load balancer, or
  offline/not\_found if there is none. The latter is also recorded for a load balancer that exists under a name given by an annotation without
  the prefix (see \<open>named_lb_reported_missing\<close>). The other entries of the status map stay. The stale load balancers are deleted. The events
  recorded, after that, are exactly these, service by service: a normal event when the status is online/active and was something else before (also when nothing
  was known before), a warning when the same other status was seen for the second time in a row, nothing otherwise.\<close>

theorem monitor_status_and_events:
  assumes "\<And>s. range_order (rt_range rt s)" "vpc_Recorder c = Some record"
    and "distinct (map svc_UID items)" "inj_on (\<lambda>service. GenerateLoadBalancerName service clusterID) (set items)"
    and "clusterID = cfg_ClusterID (vpc_Config c)"
    and "sdk_ListLoadBalancers (vpc_Sdk c) s = (Inr lbs, s1)" "distinct (map lb_Name lbs)"
    and "MonitorLoadBalancers rt c (Some items) status s = (Inr status', s')"
  shows "(\<forall>service \<in> set items. svc_Type service = ServiceTypeLoadBalancer \<longrightarrow>
      (\<forall>lb \<in> set lbs. lb_Name lb = GenerateLoadBalancerName service clusterID \<and> HasPrefix (lb_Name lb) (''kube-'' @ clusterID @ ''-'') \<longrightarrow>
         status' (svc_UID service) = Some (GetStatus lb)) \<and>
      ((\<nexists>lb. lb \<in> set lbs \<and> lb_Name lb = GenerateLoadBalancerName service clusterID \<and> HasPrefix (lb_Name lb) (''kube-'' @ clusterID @ ''-'')) \<longrightarrow>
         status' (svc_UID service) = Some ''offline/not_found'')) \<and>
    (\<forall>uid. uid \<notin> svc_UID ` {service \<in> set items. svc_Type service = ServiceTypeLoadBalancer} \<longrightarrow> status' uid = status uid) \<and>
    (\<exists>ids order. set ids = lb_ID ` {lb \<in> set lbs. stale clusterID items lb} \<and>
      distinct order \<and> set order = {service \<in> set items. svc_Type service = ServiceTypeLoadBalancer} \<and>
      s' = fold record (concat (map (\<lambda>service. monitor_events (map_get status (svc_UID service)) (GenerateLoadBalancerName service clusterID) service
          (the (status' (svc_UID service)))) order)) (delete_all (vpc_Sdk c) ids s1))"
proof -
  let ?name = "\<lambda>service. GenerateLoadBalancerName service clusterID" and ?vpc = "vpcLbMap clusterID lbs"
  let ?lb = "kubeLbMap clusterID ServiceTypeLoadBalancer items" and ?services = "{service \<in> set items. svc_Type service = ServiceTypeLoadBalancer}"
  obtain ids names where ids: "set ids = lb_ID ` {lb \<in> set lbs. stale clusterID items lb}" and names: "distinct names" "set names = set (map fst ?lb)"
    and run: "status' = new_status ?lb ?vpc status names" "s' = fold record (run_events ?lb ?vpc status names) (delete_all (vpc_Sdk c) ids s1)"
    using monitor_runs[OF assms(1-3,6-8)] unfolding assms(5) by blast
  obtain order where order: "distinct order" "set order = ?services" "names = map ?name order"
    "\<forall>service \<in> set order. map_of ?lb (?name service) = Some service"
    by (rule kubeLbMap_services[OF assms(4) names])
  have uids: "unique_uids ?lb" using assms(3) by (rule unique_uids_kubeLbMap)
  have new: "status' (svc_UID service) = Some (observed ?vpc (?name service))" if "service \<in> ?services" for service
    unfolding run(1) using new_status_lookup(1)[OF uids names(1), of "?name service"] order that by simp
  have others: "status' uid = status uid" if "uid \<notin> svc_UID ` ?services" for uid
    unfolding run(1) using that kubeLbMap_Some(1,2) by (intro new_status_lookup(2)[OF uids names(1)]) blast
  have "run_events ?lb ?vpc status names = concat (map (\<lambda>service. monitor_events (map_get status (svc_UID service)) (?name service) service
      (the (status' (svc_UID service)))) order)"
    unfolding order(3) run_events_services[OF order(4)] using new order(2) by (intro arg_cong[of _ _ concat] map_cong refl) simp
  with run(2) have events: "s' = fold record (concat (map (\<lambda>service. monitor_events (map_get status (svc_UID service)) (?name service) service
      (the (status' (svc_UID service)))) order)) (delete_all (vpc_Sdk c) ids s1)" by simp
  note seen = observed_status[OF assms(7)]
  show ?thesis
  proof (intro conjI ballI impI allI)
    show "status' (svc_UID service) = Some (GetStatus lb)" if "service \<in> set items" "svc_Type service = ServiceTypeLoadBalancer" "lb \<in> set lbs"
        "lb_Name lb = ?name service \<and> HasPrefix (lb_Name lb) (''kube-'' @ clusterID @ ''-'')" for service lb
      using new[of service] seen(1)[OF that(3), of "?name service" clusterID] that by auto
    show "status' (svc_UID service) = Some ''offline/not_found''" if "service \<in> set items" "svc_Type service = ServiceTypeLoadBalancer"
        "\<nexists>lb. lb \<in> set lbs \<and> lb_Name lb = ?name service \<and> HasPrefix (lb_Name lb) (''kube-'' @ clusterID @ ''-'')" for service
      using new[of service] seen(2)[of "?name service" clusterID] that by auto
  qed (use others ids order(1,2) events in blast)+
qed

theorem monitor_status_and_events_witness:
  "\<exists>status' s'. MonitorLoadBalancers fake_runtime ex_cloud (Some [ex_lb_service, ex_gone_service]) Map.empty new_world = (Inr status', s') \<and>
     status' ''Ready'' = Some ''online/active'' \<and> status' ''Gone'' = Some ''offline/not_found''"
proof -
  let ?items = "[ex_lb_service, ex_gone_service]"
  let ?m = "MonitorLoadBalancers fake_runtime ex_cloud (Some ?items) Map.empty new_world"
  have "case fst ?m of Inl _ \<Rightarrow> False | Inr _ \<Rightarrow> True" by code_simp
  then obtain status' s' where m: "?m = (Inr status', s')" by (cases ?m) (auto split: sum.splits)
  have uid: "svc_UID ex_lb_service = ''Ready''" "svc_UID ex_gone_service = ''Gone''"
    and ty: "svc_Type ex_lb_service = ServiceTypeLoadBalancer" "svc_Type ex_gone_service = ServiceTypeLoadBalancer" by code_simp+
  have gen: "GenerateLoadBalancerName ex_lb_service ''clusterID'' = ''kube-clusterID-Ready''"
    "GenerateLoadBalancerName ex_gone_service ''clusterID'' = ''kube-clusterID-Gone''" by code_simp+
  have lbs: "lb_Name fake_lbReady = ''kube-clusterID-Ready''" "lb_Name fake_lbNotReady \<noteq> lb_Name fake_lbReady"
    "lb_Name fake_lbNotReady \<noteq> ''kube-clusterID-Gone''" "GetStatus fake_lbReady = ''online/active''"
    "HasPrefix ''kube-clusterID-Ready'' (''kube-'' @ ''clusterID'' @ ''-'')" by code_simp+
  have "\<And>s. range_order (rt_range fake_runtime s)" "vpc_Recorder ex_cloud = Some fake_record"
    "''clusterID'' = cfg_ClusterID (vpc_Config ex_cloud)" "distinct (map svc_UID ?items)"
    "inj_on (\<lambda>service. GenerateLoadBalancerName service ''clusterID'') (set ?items)" "distinct (map lb_Name [fake_lbReady, fake_lbNotReady])"
    using lbs(2) by (auto simp: fake_range_order ex_cloud_def ex_config_def uid gen intro!: inj_onI)
  from monitor_status_and_events[OF this(1,2,4,5,3) new_world_lbs this(6) m] have
    "status' ''Ready'' = Some ''online/active''" "status' ''Gone'' = Some ''offline/not_found''"
    using uid ty gen lbs by auto
  with m show ?thesis by blast
qed

text \<open>C17: A failing entry point of the provider reports what it records: whenever \<open>EnsureLoadBalancer\<close>, \<open>EnsureLoadBalancerDeleted\<close>,
  \<open>EnsureLoadBalancerUpdated\<close> or \<open>GetLoadBalancer\<close> returns an error, the last thing it did was to record a warning event for the
  service, with the reason of that entry point and exactly the text of the error.\<close>

theorem failures_are_recorded:
  assumes "vpc_Recorder c = Some record"
  shows "records record service creatingCloudLoadBalancerFailed (EnsureLoadBalancer rt c lbName (Some service) nodes) \<and>
    records record service deletingCloudLoadBalancerFailed (EnsureLoadBalancerDeleted c lbName (Some service)) \<and>
    records record service updatingCloudLoadBalancerFailed (EnsureLoadBalancerUpdated rt c lbName (Some service) nodes) \<and>
    records record service gettingCloudLoadBalancerFailed (GetLoadBalancer c lbName (Some service))"
  unfolding EnsureLoadBalancer_def EnsureLoadBalancerDeleted_def EnsureLoadBalancerUpdated_def GetLoadBalancer_def updateExisting_def
  using assms by (intro conjI records_rules)

theorem failures_are_recorded_witness:
  "records fake_record ex_web deletingCloudLoadBalancerFailed (EnsureLoadBalancerDeleted ex_cloud [] (Some ex_web)) \<and>
   fst (EnsureLoadBalancerDeleted ex_cloud [] (Some ex_web) new_world) \<noteq> Inr ()"
proof -
  have "vpc_Recorder ex_cloud = Some fake_record" by (simp add: ex_cloud_def)
  moreover have "fst (EnsureLoadBalancerDeleted ex_cloud [] (Some ex_web) new_world) \<noteq> Inr ()"
    by (simp add: EnsureLoadBalancerDeleted_def FindLoadBalancer_def tryM_def failWith_def bindM_def
        recordServiceWarningEvent_def Let_def ex_cloud_def)
  ultimately show ?thesis using failures_are_recorded[of ex_cloud fake_record ex_web fake_runtime "[]"] by blast
qed

text \<open>C18: A load balancer that is not ready is left alone: when the load balancer of the service exists but is not online/active,
  ensuring and updating it do nothing but list the load balancers and record the event of the error they return.\<close>

theorem busy_load_balancer_untouched:
  assumes "vpc_Recorder c = Some record" "lbName \<noteq> []"
    and "sdk_ListLoadBalancers (vpc_Sdk c) s = (Inr lbs, s1)"
    and "find (\<lambda>lb. lbName = lb_ID lb \<or> lbName = lb_Name lb \<or> lbName = lb_Hostname lb) lbs = Some lb" "\<not> IsReady lb"
  shows "(\<exists>msg. EnsureLoadBalancer rt c lbName (Some service) nodes s =
      (Inl (Err msg), record (service_event service EventTypeWarning creatingCloudLoadBalancerFailed msg) s1)) \<and>
    (\<exists>msg. EnsureLoadBalancerUpdated rt c lbName (Some service) nodes s =
      (Inl (Err msg), record (service_event service EventTypeWarning updatingCloudLoadBalancerFailed msg) s1))"
  using assms
  by (simp add: EnsureLoadBalancer_def EnsureLoadBalancerUpdated_def updateExisting_def FindLoadBalancer_def tryM_def
      bindM_def failWith_def recordServiceWarningEvent_def Let_def)

theorem busy_load_balancer_untouched_witness:
  "\<exists>msg. EnsureLoadBalancer fake_runtime ex_cloud ''NotReady'' (Some ex_web) None new_world =
      (Inl (Err msg), fake_record (service_event ex_web EventTypeWarning creatingCloudLoadBalancerFailed msg) new_world)"
proof -
  have "vpc_Recorder ex_cloud = Some fake_record" by (simp add: ex_cloud_def)
  moreover have "find (\<lambda>lb. ''NotReady'' = lb_ID lb \<or> ''NotReady'' = lb_Name lb \<or> ''NotReady'' = lb_Hostname lb)
      [fake_lbReady, fake_lbNotReady] = Some fake_lbNotReady"
    by (simp add: fake_lbReady_def fake_lbNotReady_def VpcLbNamePrefix_def)
  moreover have "\<not> IsReady fake_lbNotReady" by code_simp
  ultimately show ?thesis using busy_load_balancer_untouched[OF _ _ new_world_lbs] by blast
qed

text \<open>C19: Generated names: a service without the name annotation gets a name of at most 63 characters; unless it had to be cut,
  the name carries the prefix by which \<open>GatherLoadBalancers\<close> recognises the load balancers of the cluster, and services whose UIDs
  differ (in more than dashes) get different names.\<close>

theorem generated_names:
  assumes "map_get (svc_Annotations service) serviceAnnotationLbName = []"
    and "map_get (svc_Annotations service') serviceAnnotationLbName = []"
  shows "length (GenerateLoadBalancerName service clusterID) \<le> 63 \<and>
    (length (plain_name service clusterID) \<le> 63 \<longrightarrow>
      HasPrefix (GenerateLoadBalancerName service clusterID) (VpcLbNamePrefix @ ''-'' @ clusterID @ ''-'')) \<and>
    (length (plain_name service clusterID) \<le> 63 \<longrightarrow> length (plain_name service' clusterID) \<le> 63 \<longrightarrow>
      (GenerateLoadBalancerName service clusterID = GenerateLoadBalancerName service' clusterID \<longleftrightarrow>
       RemoveAll (CHR ''-'') (svc_UID service) = RemoveAll (CHR ''-'') (svc_UID service')))"
  unfolding GenerateLoadBalancerName_plain[OF assms(1)] GenerateLoadBalancerName_plain[OF assms(2)]
  by (auto simp: plain_name_def HasPrefix_iff)

theorem generated_names_witness:
  "GenerateLoadBalancerName ex_lb_service ''clusterID'' \<noteq> GenerateLoadBalancerName ex_gone_service ''clusterID''"
proof -
  have "map_get (svc_Annotations ex_lb_service) serviceAnnotationLbName = []"
    "map_get (svc_Annotations ex_gone_service) serviceAnnotationLbName = []"
    "length (plain_name ex_lb_service ''clusterID'') \<le> 63" "length (plain_name ex_gone_service ''clusterID'') \<le> 63"
    "RemoveAll (CHR ''-'') (svc_UID ex_lb_service) \<noteq> RemoveAll (CHR ''-'') (svc_UID ex_gone_service)"
    by code_simp+
  with generated_names[of ex_lb_service ex_gone_service "''clusterID''"] show ?thesis by blast
qed

text \<open>C14: On any SDK that meets its contract and with a recorder that keeps the invariant, the entry points of the provider never panic and
  keep the invariant of the world behind the SDK.\<close>

theorem entry_points_never_panic:
  assumes "vpc_cloud sdk rt Inv c" "word_nodes nodes" "natural_ports service"
  shows "safe Inv (\<lambda>_. True) (EnsureLoadBalancer rt c lbName (Some service) (Some nodes)) \<and>
    safe Inv (\<lambda>_. True) (EnsureLoadBalancerDeleted c lbName (Some service)) \<and>
    safe Inv (\<lambda>_. True) (EnsureLoadBalancerUpdated rt c lbName (Some service) (Some nodes)) \<and>
    safe Inv (\<lambda>_. True) (MonitorLoadBalancers rt c services status)"
  using vpc_cloud.safe_EnsureLoadBalancer[OF assms] vpc_cloud.safe_EnsureLoadBalancerDeleted[OF assms(1)]
    vpc_cloud.safe_EnsureLoadBalancerUpdated[OF assms] vpc_cloud.safe_MonitorLoadBalancers[OF assms(1)] by blast

theorem entry_points_never_panic_witness:
  "safe fake_inv (\<lambda>_. True) (EnsureLoadBalancer fake_runtime ex_cloud ''Ready'' (Some ex_web) (Some ex_node_list))"
proof -
  have "word_nodes ex_node_list" "natural_ports ex_web" by code_simp+
  with entry_points_never_panic[OF fake_cloud.vpc_cloud_axioms] show ?thesis by blast
qed

subsection \<open>A load balancer with a name of its own is reported missing\<close>

text \<open>
  A service may name its load balancer by an annotation. Unless that name happens to start with the cluster's prefix, the monitor
  leaves the load balancer out of its map and reports it as not found although it exists and is online.
\<close>

definition ex_named_service :: Service where
  "ex_named_service = ex_web\<lparr>svc_Annotations := [serviceAnnotationLbName \<mapsto> ''my-lb'']\<rparr>"

lemma named_lb_reported_missing:
  "GenerateLoadBalancerName ex_named_service ''clusterID'' = ''my-lb'' \<and>
   IsReady (fake_lbReady\<lparr>lb_Name := ''my-lb''\<rparr>) \<and>
   observed (vpcLbMap ''clusterID'' [fake_lbReady\<lparr>lb_Name := ''my-lb''\<rparr>]) ''my-lb'' = ''offline/not_found''"
  by code_simp

end
