(* ===== verification/Vpc_Gen2.thy ===== *)
theory Vpc_Gen2
  imports Vpc_Provider
begin

section \<open>The VPC Gen2 SDK (\<open>pkg/vpcctl/vpc_sdk_gen2.go\<close>)\<close>

text \<open>
  The implementation of the SDK interface on the VPC API client: requests are built from pool names and service options, answers are
  mapped to the provider-neutral objects, lists are fetched page by page. The API client (\<open>github.com/IBM/vpc-go-sdk\<close>), the resource
  manager client and the URL parser are arguments. Of their objects the fields that the code reads or writes are
  modelled; a pointer that may be nil is an option, and a date is the text it prints as.
\<close>

subsection \<open>Objects of the API\<close>

record ApiRef =
  aref_ID :: "string option"
  aref_Name :: "string option"

record ApiLoadBalancer =
  alb_CreatedAt :: "string option"
  alb_Hostname :: "string option"
  alb_ID :: "string option"
  alb_IsPublic :: "bool option"
  alb_Name :: "string option"
  alb_OperatingStatus :: "string option"
  alb_ProvisioningStatus :: "string option"
  alb_Listeners :: "string option list"
  alb_Pools :: "ApiRef list"
  alb_PrivateIps :: "string option list"
  alb_ProfileFamily :: "string option option"
  alb_PublicIps :: "string option list"
  alb_ResourceGroup :: "ApiRef option"
  alb_Subnets :: "ApiRef list"

record ApiListener =
  alsn_ConnectionLimit :: "int64 option"
  alsn_ID :: "string option"
  alsn_Port :: "int64 option"
  alsn_Protocol :: "string option"
  alsn_ProvisioningStatus :: "string option"
  alsn_DefaultPool :: "ApiRef option"

record ApiHealthMonitor =
  ahm_Delay :: "int64 option"
  ahm_MaxRetries :: "int64 option"
  ahm_Port :: "int64 option"
  ahm_Timeout :: "int64 option"
  ahm_Type :: "string option"
  ahm_URLPath :: "string option"

record ApiPool =
  apl_Algorithm :: "string option"
  apl_ID :: "string option"
  apl_Name :: "string option"
  apl_Protocol :: "string option"
  apl_ProvisioningStatus :: "string option"
  apl_ProxyProtocol :: "string option"
  apl_HealthMonitor :: "ApiHealthMonitor option"
  apl_Members :: "string option list"
  apl_SessionPersistence :: "string option option"

text \<open>The target of a member is an interface value; the code asserts its dynamic type.\<close>

datatype ApiTarget = MemberTarget "string option" "string option" | OtherTarget

record ApiMember =
  amem_Health :: "string option"
  amem_ID :: "string option"
  amem_Port :: "int64 option"
  amem_ProvisioningStatus :: "string option"
  amem_Weight :: "int64 option"
  amem_Target :: "ApiTarget option"

record ApiSubnet =
  asub_AvailableIpv4AddressCount :: "int64 option"
  asub_CreatedAt :: "string option"
  asub_ID :: "string option"
  asub_IPVersion :: "string option"
  asub_Ipv4CIDRBlock :: "string option"
  asub_Name :: "string option"
  asub_Status :: "string option"
  asub_TotalIpv4AddressCount :: "int64 option"
  asub_NetworkACL :: "ApiRef option"
  asub_PublicGateway :: "ApiRef option"
  asub_ResourceGroup :: "ApiRef option"
  asub_VPC :: "ApiRef option"
  asub_Zone :: "string option option"

text \<open>A page of a list, with the link to the next page.\<close>

record 'a ApiPage =
  page_Items :: "'a list"
  page_NextHref :: "string option"

subsection \<open>Requests\<close>

record MemberPrototype =
  mp_Port :: int64
  mp_TargetAddress :: string

record PoolPrototype =
  pp_Algorithm :: string
  pp_HealthMonitor :: ApiHealthMonitor
  pp_Members :: "MemberPrototype list"
  pp_Name :: string
  pp_Protocol :: string
  pp_ProxyProtocol :: "string option"

text \<open>A listener names its pool by name when the load balancer is created with it, by ID afterwards.\<close>

record ListenerPrototype =
  lp_ConnectionLimit :: int64
  lp_DefaultPool :: string
  lp_Port :: int64
  lp_Protocol :: string

record PoolPatch =
  patch_HealthMonitor :: ApiHealthMonitor
  patch_Name :: string
  patch_ProxyProtocol :: "string option"

record CreateLoadBalancerOptions =
  clb_IsPublic :: bool
  clb_Subnets :: "string list"
  clb_Listeners :: "ListenerPrototype list"
  clb_Name :: string
  clb_Pools :: "PoolPrototype list"
  clb_ResourceGroup :: string

record 's VpcV1 =
  v1_CreateLoadBalancer :: "CreateLoadBalancerOptions \<Rightarrow> ('s, ApiLoadBalancer option) io"
  v1_CreateLoadBalancerListener :: "string \<Rightarrow> ListenerPrototype \<Rightarrow> ('s, ApiListener option) io"
  v1_CreateLoadBalancerPool :: "string \<Rightarrow> PoolPrototype \<Rightarrow> ('s, ApiPool option) io"
  v1_CreateLoadBalancerPoolMember :: "string \<Rightarrow> string \<Rightarrow> MemberPrototype \<Rightarrow> ('s, ApiMember option) io"
  v1_DeleteLoadBalancer :: "string \<Rightarrow> ('s, unit) io"
  v1_DeleteLoadBalancerListener :: "string \<Rightarrow> string \<Rightarrow> ('s, unit) io"
  v1_DeleteLoadBalancerPool :: "string \<Rightarrow> string \<Rightarrow> ('s, unit) io"
  v1_DeleteLoadBalancerPoolMember :: "string \<Rightarrow> string \<Rightarrow> string \<Rightarrow> ('s, unit) io"
  v1_GetLoadBalancer :: "string \<Rightarrow> ('s, ApiLoadBalancer option) io"
  v1_GetSubnet :: "string \<Rightarrow> ('s, ApiSubnet option) io"
  v1_ListLoadBalancers :: "string option \<Rightarrow> ('s, ApiLoadBalancer ApiPage option) io"
  v1_ListLoadBalancerListeners :: "string \<Rightarrow> ('s, ApiListener list option) io"
  v1_ListLoadBalancerPools :: "string \<Rightarrow> ('s, ApiPool list option) io"
  v1_ListLoadBalancerPoolMembers :: "string \<Rightarrow> string \<Rightarrow> ('s, ApiMember list option) io"
  v1_ListSubnets :: "string option \<Rightarrow> ('s, ApiSubnet ApiPage option) io"
  v1_ReplaceLoadBalancerPoolMembers :: "string \<Rightarrow> string \<Rightarrow> MemberPrototype list \<Rightarrow> ('s, ApiMember list option) io"
  v1_UpdateLoadBalancerPool :: "string \<Rightarrow> string \<Rightarrow> PoolPatch \<Rightarrow> ('s, ApiPool option) io"

text \<open>
  The SDK object: the client, the configuration, the routine that finds the query value \<open>start\<close> in the link to the next page
  (\<open>url.Parse\<close> and \<open>Query().Get\<close> of \<open>net/url\<close>), and the number of pages the paging loops may fetch.
\<close>

record 's VpcSdkGen2 =
  gen2_Client :: "'s VpcV1"
  gen2_Config :: ConfigVpc
  gen2_start :: "string \<Rightarrow> string res"
  gen2_fuel :: nat

text \<open>Reading through a pointer the client returned.\<close>

definition deref :: "'a option \<Rightarrow> ('s, 'a) io" where
  "deref p = (case p of None \<Rightarrow> raiseM nil_dereference | Some x \<Rightarrow> returnM x)"

subsection \<open>Mapping answers\<close>

definition mapRef :: "ApiRef \<Rightarrow> VpcObjectReference" where
  "mapRef r = \<lparr>ref_ID = SafePointerString (aref_ID r), ref_Name = SafePointerString (aref_Name r)\<rparr>"

definition mapOptRef :: "ApiRef option \<Rightarrow> VpcObjectReference" where
  "mapOptRef r = (case r of None \<Rightarrow> no_ref | Some r \<Rightarrow> mapRef r)"

definition mapLoadBalancer :: "ApiLoadBalancer \<Rightarrow> VpcLoadBalancer" where
  "mapLoadBalancer item = \<lparr>lb_CreatedAt = SafePointerDate (\<lambda>d. d) (alb_CreatedAt item),
     lb_Hostname = SafePointerString (alb_Hostname item), lb_ID = SafePointerString (alb_ID item),
     lb_IsPublic = SafePointerBool (alb_IsPublic item),
     lb_ListenerIDs = map SafePointerString (alb_Listeners item), lb_Name = SafePointerString (alb_Name item),
     lb_OperatingStatus = SafePointerString (alb_OperatingStatus item), lb_Pools = map mapRef (alb_Pools item),
     lb_PrivateIps = sort_Strings (map SafePointerString (alb_PrivateIps item)),
     lb_ProfileFamily = (case alb_ProfileFamily item of None \<Rightarrow> [] | Some f \<Rightarrow> SafePointerString f),
     lb_ProvisioningStatus = SafePointerString (alb_ProvisioningStatus item),
     lb_PublicIps = sort_Strings (map SafePointerString (alb_PublicIps item)),
     lb_ResourceGroup = mapOptRef (alb_ResourceGroup item), lb_Subnets = map mapRef (alb_Subnets item), lb_VpcID = []\<rparr>"

definition mapLoadBalancerListener :: "ApiListener \<Rightarrow> VpcLoadBalancerListener" where
  "mapLoadBalancerListener item = \<lparr>lsn_ConnectionLimit = SafePointerInt64 (alsn_ConnectionLimit item),
     lsn_DefaultPool = mapOptRef (alsn_DefaultPool item), lsn_ID = SafePointerString (alsn_ID item),
     lsn_Port = SafePointerInt64 (alsn_Port item), lsn_Protocol = SafePointerString (alsn_Protocol item),
     lsn_ProvisioningStatus = SafePointerString (alsn_ProvisioningStatus item)\<rparr>"

definition mapLoadBalancerPoolHealthMonitor :: "ApiHealthMonitor \<Rightarrow> VpcLoadBalancerPoolHealthMonitor" where
  "mapLoadBalancerPoolHealthMonitor item = \<lparr>hm_Delay = SafePointerInt64 (ahm_Delay item),
     hm_MaxRetries = SafePointerInt64 (ahm_MaxRetries item), hm_Port = SafePointerInt64 (ahm_Port item),
     hm_Timeout = SafePointerInt64 (ahm_Timeout item), hm_Type = SafePointerString (ahm_Type item),
     hm_URLPath = SafePointerString (ahm_URLPath item)\<rparr>"

definition no_monitor :: VpcLoadBalancerPoolHealthMonitor where
  "no_monitor = \<lparr>hm_Delay = 0, hm_MaxRetries = 0, hm_Port = 0, hm_Timeout = 0, hm_Type = [], hm_URLPath = []\<rparr>"

definition member_with_ID :: "string \<Rightarrow> VpcLoadBalancerPoolMember" where
  "member_with_ID i = \<lparr>mem_Health = [], mem_ID = i, mem_Port = 0, mem_ProvisioningStatus = [], mem_TargetIPAddress = [],
     mem_TargetInstanceID = [], mem_Weight = 0\<rparr>"

definition mapLoadBalancerPool :: "ApiPool \<Rightarrow> VpcLoadBalancerPool" where
  "mapLoadBalancerPool item = \<lparr>pool_Algorithm = SafePointerString (apl_Algorithm item),
     pool_HealthMonitor = (case apl_HealthMonitor item of None \<Rightarrow> no_monitor | Some h \<Rightarrow> mapLoadBalancerPoolHealthMonitor h),
     pool_ID = SafePointerString (apl_ID item),
     pool_Members = map (\<lambda>i. member_with_ID (SafePointerString i)) (apl_Members item),
     pool_Name = SafePointerString (apl_Name item), pool_Protocol = SafePointerString (apl_Protocol item),
     pool_ProvisioningStatus = SafePointerString (apl_ProvisioningStatus item),
     pool_ProxyProtocol = SafePointerString (apl_ProxyProtocol item),
     pool_SessionPersistence = (case apl_SessionPersistence item of None \<Rightarrow> ''None'' | Some t \<Rightarrow> SafePointerString t)\<rparr>"

definition mapLoadBalancerPoolMember :: "ApiMember \<Rightarrow> VpcLoadBalancerPoolMember res" where
  "mapLoadBalancerPoolMember item =
     (let member = \<lparr>mem_Health = SafePointerString (amem_Health item), mem_ID = SafePointerString (amem_ID item),
            mem_Port = SafePointerInt64 (amem_Port item),
            mem_ProvisioningStatus = SafePointerString (amem_ProvisioningStatus item),
            mem_TargetIPAddress = [], mem_TargetInstanceID = [], mem_Weight = SafePointerInt64 (amem_Weight item)\<rparr>
      in case amem_Target item of
           None \<Rightarrow> Inr member
         | Some OtherTarget \<Rightarrow> Inl (Panic ''interface conversion'')
         | Some (MemberTarget address i) \<Rightarrow>
             Inr (member\<lparr>mem_TargetIPAddress := SafePointerString address, mem_TargetInstanceID := SafePointerString i\<rparr>))"

definition mapSubnet :: "ApiSubnet \<Rightarrow> VpcSubnet" where
  "mapSubnet item = \<lparr>sub_AvailableIpv4AddressCount = SafePointerInt64 (asub_AvailableIpv4AddressCount item),
     sub_CreatedAt = SafePointerDate (\<lambda>d. d) (asub_CreatedAt item), sub_ID = SafePointerString (asub_ID item),
     sub_IPVersion = SafePointerString (asub_IPVersion item), sub_Ipv4CidrBlock = SafePointerString (asub_Ipv4CIDRBlock item),
     sub_Name = SafePointerString (asub_Name item), sub_NetworkACL = mapOptRef (asub_NetworkACL item),
     sub_PublicGateway = mapOptRef (asub_PublicGateway item), sub_ResourceGroup = mapOptRef (asub_ResourceGroup item),
     sub_Status = SafePointerString (asub_Status item),
     sub_TotalIpv4AddressCount = SafePointerInt64 (asub_TotalIpv4AddressCount item), sub_Vpc = mapOptRef (asub_VPC item),
     sub_Zone = (case asub_Zone item of None \<Rightarrow> [] | Some z \<Rightarrow> SafePointerString z)\<rparr>"

definition map_members :: "ApiMember list \<Rightarrow> VpcLoadBalancerPoolMember list res" where
  "map_members items = foldR (\<lambda>acc item. bindR (mapLoadBalancerPoolMember item) (\<lambda>m. Inr (acc @ [m]))) [] items"

subsection \<open>Building requests\<close>

text \<open>The create and the patch template of the health monitor have the same fields.\<close>

definition genLoadBalancerHealthMonitor :: "int64 \<Rightarrow> int64 \<Rightarrow> ApiHealthMonitor" where
  "genLoadBalancerHealthMonitor nodePort healthCheckPort =
     (let healthMonitor = \<lparr>ahm_Delay = Some 5, ahm_MaxRetries = Some 2, ahm_Port = Some nodePort, ahm_Timeout = Some 2,
            ahm_Type = Some ''tcp'', ahm_URLPath = None\<rparr>
      in if sint healthCheckPort > 0
         then healthMonitor\<lparr>ahm_Port := Some healthCheckPort, ahm_Type := Some ''http'', ahm_URLPath := Some ''/''\<rparr>
         else healthMonitor)"

definition genLoadBalancerHealthMonitorUpdate :: "int64 \<Rightarrow> int64 \<Rightarrow> ApiHealthMonitor" where
  "genLoadBalancerHealthMonitorUpdate nodePort healthCheckPort =
     (let healthMonitor = \<lparr>ahm_Delay = Some 5, ahm_MaxRetries = Some 2, ahm_Port = Some nodePort, ahm_Timeout = Some 2,
            ahm_Type = Some ''tcp'', ahm_URLPath = None\<rparr>
      in if sint healthCheckPort > 0
         then healthMonitor\<lparr>ahm_Port := Some healthCheckPort, ahm_Type := Some ''http'', ahm_URLPath := Some ''/''\<rparr>
         else healthMonitor)"

definition genLoadBalancerMembers :: "int64 \<Rightarrow> string list \<Rightarrow> MemberPrototype list" where
  "genLoadBalancerMembers nodePort nodeList = map (\<lambda>node. \<lparr>mp_Port = nodePort, mp_TargetAddress = node\<rparr>) nodeList"

definition createPrototype ::
  "string list \<Rightarrow> ServiceOptions \<Rightarrow> ListenerPrototype list \<times> PoolPrototype list \<Rightarrow> string \<Rightarrow>
   (ListenerPrototype list \<times> PoolPrototype list) res" where
  "createPrototype nodeList options acc poolName =
     (case acc of (listeners, pools) \<Rightarrow>
      bindR (extractFieldsFromPoolName poolName) (\<lambda>poolNameFields.
        let pool = \<lparr>pp_Algorithm = ''round_robin'',
              pp_HealthMonitor = genLoadBalancerHealthMonitor (pnf_NodePort poolNameFields) (getHealthCheckNodePort options),
              pp_Members = genLoadBalancerMembers (pnf_NodePort poolNameFields) nodeList, pp_Name = poolName,
              pp_Protocol = pnf_Protocol poolNameFields, pp_ProxyProtocol = Some ''disabled''\<rparr>;
            pool = (if isProxyProtocol options then pool\<lparr>pp_ProxyProtocol := Some ''v1''\<rparr> else pool);
            listener = \<lparr>lp_ConnectionLimit = 15000, lp_DefaultPool = poolName, lp_Port = pnf_Port poolNameFields,
              lp_Protocol = ''tcp''\<rparr>
        in Inr (listeners @ [listener], pools @ [pool])))"

subsection \<open>Operations\<close>

definition gen2_CreateLoadBalancer ::
  "'s VpcSdkGen2 \<Rightarrow> string \<Rightarrow> string list \<Rightarrow> string list \<Rightarrow> string list \<Rightarrow> ServiceOptions \<Rightarrow> ('s, VpcLoadBalancer) io" where
  "gen2_CreateLoadBalancer v lbName nodeList poolList subnetList options =
     bindM (liftM (foldR (createPrototype nodeList options) ([], []) poolList)) (\<lambda>(listeners, pools).
     bindM (v1_CreateLoadBalancer (gen2_Client v) \<lparr>clb_IsPublic = isPublic options, clb_Subnets = subnetList,
         clb_Listeners = listeners, clb_Name = lbName, clb_Pools = pools,
         clb_ResourceGroup = cfg_resourceGroupID (gen2_Config v)\<rparr>) (\<lambda>lb.
     bindM (deref lb) (\<lambda>lb. returnM (mapLoadBalancer lb))))"

definition gen2_CreateLoadBalancerListener ::
  "'s VpcSdkGen2 \<Rightarrow> string \<Rightarrow> string \<Rightarrow> string \<Rightarrow> ('s, VpcLoadBalancerListener) io" where
  "gen2_CreateLoadBalancerListener v lbID poolName poolID =
     bindM (liftM (extractFieldsFromPoolName poolName)) (\<lambda>poolNameFields.
     bindM (v1_CreateLoadBalancerListener (gen2_Client v) lbID \<lparr>lp_ConnectionLimit = 15000, lp_DefaultPool = poolID,
         lp_Port = pnf_Port poolNameFields, lp_Protocol = pnf_Protocol poolNameFields\<rparr>) (\<lambda>listener.
     bindM (deref listener) (\<lambda>listener. returnM (mapLoadBalancerListener listener))))"

definition gen2_CreateLoadBalancerPool ::
  "'s VpcSdkGen2 \<Rightarrow> string \<Rightarrow> string \<Rightarrow> string list \<Rightarrow> ServiceOptions \<Rightarrow> ('s, VpcLoadBalancerPool) io" where
  "gen2_CreateLoadBalancerPool v lbID poolName nodeList options =
     bindM (liftM (extractFieldsFromPoolName poolName)) (\<lambda>poolNameFields.
     bindM (v1_CreateLoadBalancerPool (gen2_Client v) lbID \<lparr>pp_Algorithm = ''round_robin'',
         pp_HealthMonitor = genLoadBalancerHealthMonitor (pnf_NodePort poolNameFields) (getHealthCheckNodePort options),
         pp_Members = genLoadBalancerMembers (pnf_NodePort poolNameFields) nodeList, pp_Name = poolName,
         pp_Protocol = pnf_Protocol poolNameFields, pp_ProxyProtocol = None\<rparr>) (\<lambda>pool.
     bindM (deref pool) (\<lambda>pool. returnM (mapLoadBalancerPool pool))))"

definition gen2_CreateLoadBalancerPoolMember ::
  "'s VpcSdkGen2 \<Rightarrow> string \<Rightarrow> string \<Rightarrow> string \<Rightarrow> string \<Rightarrow> ('s, VpcLoadBalancerPoolMember) io" where
  "gen2_CreateLoadBalancerPoolMember v lbID poolName poolID nodeID =
     bindM (liftM (extractFieldsFromPoolName poolName)) (\<lambda>poolNameFields.
     bindM (v1_CreateLoadBalancerPoolMember (gen2_Client v) lbID poolID
         \<lparr>mp_Port = pnf_NodePort poolNameFields, mp_TargetAddress = nodeID\<rparr>) (\<lambda>member.
     bindM (deref member) (\<lambda>member. liftM (mapLoadBalancerPoolMember member))))"

definition gen2_DeleteLoadBalancer :: "'s VpcSdkGen2 \<Rightarrow> string \<Rightarrow> ('s, unit) io" where
  "gen2_DeleteLoadBalancer v lbID = v1_DeleteLoadBalancer (gen2_Client v) lbID"

definition gen2_DeleteLoadBalancerListener :: "'s VpcSdkGen2 \<Rightarrow> string \<Rightarrow> string \<Rightarrow> ('s, unit) io" where
  "gen2_DeleteLoadBalancerListener v lbID listenerID = v1_DeleteLoadBalancerListener (gen2_Client v) lbID listenerID"

definition gen2_DeleteLoadBalancerPool :: "'s VpcSdkGen2 \<Rightarrow> string \<Rightarrow> string \<Rightarrow> ('s, unit) io" where
  "gen2_DeleteLoadBalancerPool v lbID poolID = v1_DeleteLoadBalancerPool (gen2_Client v) lbID poolID"

definition gen2_DeleteLoadBalancerPoolMember :: "'s VpcSdkGen2 \<Rightarrow> string \<Rightarrow> string \<Rightarrow> string \<Rightarrow> ('s, unit) io" where
  "gen2_DeleteLoadBalancerPoolMember v lbID poolID memberID =
     v1_DeleteLoadBalancerPoolMember (gen2_Client v) lbID poolID memberID"

definition gen2_GetLoadBalancer :: "'s VpcSdkGen2 \<Rightarrow> string \<Rightarrow> ('s, VpcLoadBalancer) io" where
  "gen2_GetLoadBalancer v lbID =
     bindM (v1_GetLoadBalancer (gen2_Client v) lbID) (\<lambda>lb. bindM (deref lb) (\<lambda>lb. returnM (mapLoadBalancer lb)))"

definition gen2_GetSubnet :: "'s VpcSdkGen2 \<Rightarrow> string \<Rightarrow> ('s, VpcSubnet) io" where
  "gen2_GetSubnet v subnetID =
     bindM (v1_GetSubnet (gen2_Client v) subnetID) (\<lambda>subnet. bindM (deref subnet) (\<lambda>subnet. returnM (mapSubnet subnet)))"

text \<open>The paging loop of the two list operations. \<open>None\<close>: the bound on the number of pages was reached.\<close>

fun fetchPages ::
  "(string \<Rightarrow> string res) \<Rightarrow> (string option \<Rightarrow> ('s, 'a ApiPage option) io) \<Rightarrow> ('a \<Rightarrow> 'b) \<Rightarrow> nat \<Rightarrow> string option \<Rightarrow> 'b list \<Rightarrow>
   's \<Rightarrow> ('b list res \<times> 's) option" where
  "fetchPages start_of fetch mapItem 0 start acc s = None"
| "fetchPages start_of fetch mapItem (Suc n) start acc s =
     (case fetch start s of
        (Inl e, s') \<Rightarrow> Some (Inl e, s')
      | (Inr None, s') \<Rightarrow> Some (Inl nil_dereference, s')
      | (Inr (Some page), s') \<Rightarrow>
          let acc' = acc @ map mapItem (page_Items page) in
          (case page_NextHref page of
             None \<Rightarrow> Some (Inr acc', s')
           | Some href \<Rightarrow>
               (case start_of href of
                  Inl e \<Rightarrow> Some (Inl e, s')
                | Inr st \<Rightarrow> fetchPages start_of fetch mapItem n (Some st) acc' s')))"

definition bounded :: "('s \<Rightarrow> ('a res \<times> 's) option) \<Rightarrow> ('s, 'a) io" where
  "bounded m s = (case m s of None \<Rightarrow> (Inl (Err ''page limit reached''), s) | Some r \<Rightarrow> r)"

definition gen2_ListLoadBalancers :: "'s VpcSdkGen2 \<Rightarrow> ('s, VpcLoadBalancer list) io" where
  "gen2_ListLoadBalancers v =
     bounded (fetchPages (gen2_start v) (v1_ListLoadBalancers (gen2_Client v)) mapLoadBalancer (gen2_fuel v) None [])"

definition gen2_ListLoadBalancerListeners :: "'s VpcSdkGen2 \<Rightarrow> string \<Rightarrow> ('s, VpcLoadBalancerListener list) io" where
  "gen2_ListLoadBalancerListeners v lbID =
     bindM (v1_ListLoadBalancerListeners (gen2_Client v) lbID) (\<lambda>l.
     bindM (deref l) (\<lambda>items. returnM (map mapLoadBalancerListener items)))"

definition gen2_ListLoadBalancerPoolMembers ::
  "'s VpcSdkGen2 \<Rightarrow> string \<Rightarrow> string \<Rightarrow> ('s, VpcLoadBalancerPoolMember list) io" where
  "gen2_ListLoadBalancerPoolMembers v lbID poolID =
     bindM (v1_ListLoadBalancerPoolMembers (gen2_Client v) lbID poolID) (\<lambda>l.
     bindM (deref l) (\<lambda>items. liftM (map_members items)))"

fun gen2_poolLoop :: "'s VpcSdkGen2 \<Rightarrow> string \<Rightarrow> ApiPool list \<Rightarrow> VpcLoadBalancerPool list \<Rightarrow> ('s, VpcLoadBalancerPool list) io" where
  "gen2_poolLoop v lbID [] pools = returnM pools"
| "gen2_poolLoop v lbID (item # items) pools =
     (let pool = mapLoadBalancerPool item in
      bindM (gen2_ListLoadBalancerPoolMembers v lbID (pool_ID pool)) (\<lambda>members.
      gen2_poolLoop v lbID items (pools @ [pool\<lparr>pool_Members := members\<rparr>])))"

definition gen2_ListLoadBalancerPools :: "'s VpcSdkGen2 \<Rightarrow> string \<Rightarrow> ('s, VpcLoadBalancerPool list) io" where
  "gen2_ListLoadBalancerPools v lbID =
     bindM (v1_ListLoadBalancerPools (gen2_Client v) lbID) (\<lambda>l.
     bindM (deref l) (\<lambda>items. gen2_poolLoop v lbID items []))"

definition gen2_ListSubnets :: "'s VpcSdkGen2 \<Rightarrow> ('s, VpcSubnet list) io" where
  "gen2_ListSubnets v =
     bounded (fetchPages (gen2_start v) (v1_ListSubnets (gen2_Client v)) mapSubnet (gen2_fuel v) None [])"

definition gen2_ReplaceLoadBalancerPoolMembers ::
  "'s VpcSdkGen2 \<Rightarrow> string \<Rightarrow> string \<Rightarrow> string \<Rightarrow> string list \<Rightarrow> ('s, VpcLoadBalancerPoolMember list) io" where
  "gen2_ReplaceLoadBalancerPoolMembers v lbID poolName poolID nodeList =
     bindM (liftM (extractFieldsFromPoolName poolName)) (\<lambda>poolNameFields.
     bindM (v1_ReplaceLoadBalancerPoolMembers (gen2_Client v) lbID poolID
         (genLoadBalancerMembers (pnf_NodePort poolNameFields) nodeList)) (\<lambda>l.
     bindM (deref l) (\<lambda>items. liftM (map_members items))))"

definition gen2_UpdateLoadBalancerPool ::
  "'s VpcSdkGen2 \<Rightarrow> string \<Rightarrow> string \<Rightarrow> VpcLoadBalancerPool \<Rightarrow> ServiceOptions \<Rightarrow> ('s, VpcLoadBalancerPool) io" where
  "gen2_UpdateLoadBalancerPool v lbID newPoolName existingPool options =
     bindM (liftM (extractFieldsFromPoolName newPoolName)) (\<lambda>poolNameFields.
       let proxyProtocolRequested = isProxyProtocol options;
           proxy = (if proxyProtocolRequested \<and> pool_ProxyProtocol existingPool \<noteq> ''v1'' then Some ''v1''
                    else if \<not> proxyProtocolRequested \<and> pool_ProxyProtocol existingPool \<noteq> ''disabled'' then Some ''disabled''
                    else None)
       in bindM (v1_UpdateLoadBalancerPool (gen2_Client v) lbID (pool_ID existingPool)
            \<lparr>patch_HealthMonitor = genLoadBalancerHealthMonitorUpdate (pnf_NodePort poolNameFields) (getHealthCheckNodePort options),
             patch_Name = newPoolName, patch_ProxyProtocol = proxy\<rparr>) (\<lambda>pool.
          bindM (deref pool) (\<lambda>pool. returnM (mapLoadBalancerPool pool))))"

definition VpcSdkGen2_sdk :: "'s VpcSdkGen2 \<Rightarrow> 's CloudVpcSdk" where
  "VpcSdkGen2_sdk v = \<lparr>sdk_CreateLoadBalancer = gen2_CreateLoadBalancer v,
     sdk_CreateLoadBalancerListener = gen2_CreateLoadBalancerListener v,
     sdk_CreateLoadBalancerPool = gen2_CreateLoadBalancerPool v,
     sdk_CreateLoadBalancerPoolMember = gen2_CreateLoadBalancerPoolMember v,
     sdk_DeleteLoadBalancer = gen2_DeleteLoadBalancer v,
     sdk_DeleteLoadBalancerListener = gen2_DeleteLoadBalancerListener v,
     sdk_DeleteLoadBalancerPool = gen2_DeleteLoadBalancerPool v,
     sdk_DeleteLoadBalancerPoolMember = gen2_DeleteLoadBalancerPoolMember v,
     sdk_GetLoadBalancer = gen2_GetLoadBalancer v, sdk_GetSubnet = gen2_GetSubnet v,
     sdk_ListLoadBalancers = gen2_ListLoadBalancers v,
     sdk_ListLoadBalancerListeners = gen2_ListLoadBalancerListeners v,
     sdk_ListLoadBalancerPools = gen2_ListLoadBalancerPools v,
     sdk_ListLoadBalancerPoolMembers = gen2_ListLoadBalancerPoolMembers v,
     sdk_ListSubnets = gen2_ListSubnets v,
     sdk_ReplaceLoadBalancerPoolMembers = gen2_ReplaceLoadBalancerPoolMembers v,
     sdk_UpdateLoadBalancerPool = gen2_UpdateLoadBalancerPool v\<rparr>"

subsection \<open>Creating the SDK object\<close>

text \<open>
  The constructors of the two clients: the VPC client from API key, token URL and endpoint; the resource manager client from its URL,
  API key and token URL, giving the lookup of resource groups by account and name. Each resource group is the ID it carries.
\<close>

type_synonym 's GroupLookup = "string \<Rightarrow> string \<Rightarrow> ('s, string option list) io"

definition resourceManagerURL :: "string \<Rightarrow> ConfigVpc \<Rightarrow> string" where
  "resourceManagerURL defaultServiceURL c =
     (if cfg_RmEndpointOverride c \<noteq> [] then cfg_RmEndpointOverride c
      else if Contains (cfg_endpointURL c) ''iaasdev.cloud.ibm.com'' then ''https://resource-controller.test.cloud.ibm.com''
      else defaultServiceURL)"

definition convertResourceGroupNameToID ::
  "string \<Rightarrow> (string \<Rightarrow> string \<Rightarrow> string \<Rightarrow> ('s, 's GroupLookup) io) \<Rightarrow> ConfigVpc \<Rightarrow> ('s, ConfigVpc) io" where
  "convertResourceGroupNameToID defaultServiceURL newResourceManager c =
     tryM (newResourceManager (resourceManagerURL defaultServiceURL c) (cfg_APIKeySecret c) (cfg_tokenExchangeURL c))
       (\<lambda>err. raiseM (Err (''Failed to create resource manager v2 client: '' @ err)))
       (\<lambda>lookup.
          tryM (lookup (cfg_AccountID c) (cfg_ResourceGroupName c))
            (\<lambda>err. raiseM (Err (''Failed to ListResourceGroups: '' @ err)))
            (\<lambda>resources.
               if length resources \<noteq> 1
               then raiseM (Err (show_int (int (length resources)) @ '' resource groups match name: '' @ cfg_ResourceGroupName c))
               else (case resources ! 0 of
                       None \<Rightarrow> returnM c
                     | Some i \<Rightarrow> returnM (c\<lparr>cfg_resourceGroupID := i\<rparr>))))"

definition NewVpcSdkGen2 ::
  "(string \<Rightarrow> string \<Rightarrow> string \<Rightarrow> ('s, 's VpcV1) io) \<Rightarrow> string \<Rightarrow> (string \<Rightarrow> string \<Rightarrow> string \<Rightarrow> ('s, 's GroupLookup) io) \<Rightarrow>
   (string \<Rightarrow> string res) \<Rightarrow> nat \<Rightarrow> ConfigVpc \<Rightarrow> ('s, 's VpcSdkGen2) io" where
  "NewVpcSdkGen2 newVpcV1 defaultServiceURL newResourceManager start_of fuel c =
     tryM (newVpcV1 (cfg_APIKeySecret c) (cfg_tokenExchangeURL c) (cfg_endpointURL c))
       (\<lambda>err. raiseM (Err (''Failed to create SDK client: '' @ err)))
       (\<lambda>client.
          bindM (if cfg_resourceGroupID c = [] \<and> cfg_ResourceGroupName c \<noteq> []
                 then convertResourceGroupNameToID defaultServiceURL newResourceManager c else returnM c) (\<lambda>c.
          returnM \<lparr>gen2_Client = client, gen2_Config = c, gen2_start = start_of, gen2_fuel = fuel\<rparr>))"

subsection \<open>What the requests ask for\<close>

text \<open>
  The meaning of requests on the abstract content of \<open>Vpc_Converge\<close>: what the VPC service documents for a prototype (an absent proxy
  protocol means \<open>disabled\<close>) and for a patch (an absent field is left alone).
\<close>

definition abs_monitor :: "ApiHealthMonitor \<Rightarrow> string \<times> int64" where
  "abs_monitor h = (SafePointerString (ahm_Type h), SafePointerInt64 (ahm_Port h))"

definition abs_new_member :: "MemberPrototype \<Rightarrow> oid \<times> string \<times> int64" where
  "abs_new_member m = (New (mp_TargetAddress m), mp_TargetAddress m, mp_Port m)"

definition abs_new_pool :: "PoolPrototype \<Rightarrow> apool" where
  "abs_new_pool p = \<lparr>ap_ID = New (pp_Name p), ap_Name = pp_Name p, ap_Members = map abs_new_member (pp_Members p),
     ap_Monitor = abs_monitor (pp_HealthMonitor p),
     ap_Proxy = (case pp_ProxyProtocol p of None \<Rightarrow> LoadBalancerProxyProtocolDisabled | Some x \<Rightarrow> x)\<rparr>"

definition abs_patch :: "PoolPatch \<Rightarrow> apool \<Rightarrow> apool" where
  "abs_patch u p = p\<lparr>ap_Name := patch_Name u, ap_Monitor := abs_monitor (patch_HealthMonitor u),
     ap_Proxy := (case patch_ProxyProtocol u of None \<Rightarrow> ap_Proxy p | Some x \<Rightarrow> x)\<rparr>"

definition abs_new_listener :: "string \<Rightarrow> oid \<Rightarrow> ListenerPrototype \<Rightarrow> alistener" where
  "abs_new_listener n pool l = \<lparr>al_ID = New n, al_Protocol = lp_Protocol l, al_Port = lp_Port l, al_Pool = pool\<rparr>"

definition abs_create :: "CreateLoadBalancerOptions \<Rightarrow> content" where
  "abs_create r = \<lparr>ct_Listeners = map (\<lambda>l. abs_new_listener (lp_DefaultPool l) (New (lp_DefaultPool l)) l) (clb_Listeners r),
     ct_Pools = map abs_new_pool (clb_Pools r)\<rparr>"

lemma monitor_requests [simp]:
  "abs_monitor (genLoadBalancerHealthMonitor nodePort (getHealthCheckNodePort options)) = monitor_for options nodePort"
  "abs_monitor (genLoadBalancerHealthMonitorUpdate nodePort (getHealthCheckNodePort options)) = monitor_for options nodePort"
  by (simp_all add: abs_monitor_def genLoadBalancerHealthMonitor_def genLoadBalancerHealthMonitorUpdate_def monitor_for_def
      SafePointerString_def SafePointerInt64_def Let_def vpc_consts)

lemma member_requests [simp]:
  "map abs_new_member (genLoadBalancerMembers nodePort nodeList) = map (\<lambda>node. (New node, node, nodePort)) nodeList"
  by (simp add: genLoadBalancerMembers_def abs_new_member_def)

lemma name_fields_Inr [simp]: "extractFieldsFromPoolName n = Inr f \<Longrightarrow> name_fields n = f"
  by (simp add: name_fields_def)

lemma bindM_lift_Inr [simp]: "bindM (liftM (Inr x)) f = f x" "bindM (liftM (Inl e)) f = raiseM e"
  by (simp_all add: fun_eq_iff bindM_def)

definition answer :: "('a \<Rightarrow> 'b) \<Rightarrow> 'a option \<Rightarrow> ('s, 'b) io" where
  "answer f p = bindM (deref p) (\<lambda>x. returnM (f x))"

lemma create_pool_request:
  assumes "extractFieldsFromPoolName n = Inr f"
  shows "\<exists>req. abs_new_pool req = new_pool options nodeList n \<and>
    gen2_CreateLoadBalancerPool v lbID n nodeList options =
      bindM (v1_CreateLoadBalancerPool (gen2_Client v) lbID req) (answer mapLoadBalancerPool)"
  by (rule exI[of _ "\<lparr>pp_Algorithm = ''round_robin'',
        pp_HealthMonitor = genLoadBalancerHealthMonitor (pnf_NodePort f) (getHealthCheckNodePort options),
        pp_Members = genLoadBalancerMembers (pnf_NodePort f) nodeList, pp_Name = n, pp_Protocol = pnf_Protocol f,
        pp_ProxyProtocol = None\<rparr>"])
    (simp add: assms gen2_CreateLoadBalancerPool_def answer_def[abs_def] abs_new_pool_def new_pool_def new_members_def)

lemma create_listener_request:
  assumes "extractFieldsFromPoolName n = Inr f"
  shows "\<exists>req. lp_DefaultPool req = i \<and> abs_new_listener n pool req = new_listener n pool \<and>
    gen2_CreateLoadBalancerListener v lbID n i =
      bindM (v1_CreateLoadBalancerListener (gen2_Client v) lbID req) (answer mapLoadBalancerListener)"
  by (rule exI[of _ "\<lparr>lp_ConnectionLimit = 15000, lp_DefaultPool = i, lp_Port = pnf_Port f, lp_Protocol = pnf_Protocol f\<rparr>"])
    (simp add: assms gen2_CreateLoadBalancerListener_def answer_def[abs_def] abs_new_listener_def new_listener_def)

lemma member_request:
  assumes "extractFieldsFromPoolName n = Inr f"
  shows "\<exists>req. [abs_new_member req] = new_members n [t] \<and>
    gen2_CreateLoadBalancerPoolMember v lbID n i t =
      bindM (v1_CreateLoadBalancerPoolMember (gen2_Client v) lbID i req)
        (\<lambda>m. bindM (deref m) (\<lambda>m. liftM (mapLoadBalancerPoolMember m)))"
  by (rule exI[of _ "\<lparr>mp_Port = pnf_NodePort f, mp_TargetAddress = t\<rparr>"])
    (simp add: assms gen2_CreateLoadBalancerPoolMember_def abs_new_member_def)

lemma replace_request:
  assumes "extractFieldsFromPoolName n = Inr f"
  shows "\<exists>req. map abs_new_member req = new_members n nodeList \<and>
    gen2_ReplaceLoadBalancerPoolMembers v lbID n i nodeList =
      bindM (v1_ReplaceLoadBalancerPoolMembers (gen2_Client v) lbID i req)
        (\<lambda>l. bindM (deref l) (\<lambda>items. liftM (map_members items)))"
  by (rule exI[of _ "genLoadBalancerMembers (pnf_NodePort f) nodeList"])
    (simp add: assms gen2_ReplaceLoadBalancerPoolMembers_def new_members_def)

lemma update_pool_request:
  assumes "extractFieldsFromPoolName n = Inr f"
  shows "\<exists>req. pool_effect options nodeList (UpdatePool n (pool_ID pool)) (abs_pool pool) = Some (abs_patch req (abs_pool pool)) \<and>
    gen2_UpdateLoadBalancerPool v lbID n pool options =
      bindM (v1_UpdateLoadBalancerPool (gen2_Client v) lbID (pool_ID pool) req) (answer mapLoadBalancerPool)"
  by (rule exI[of _ "\<lparr>patch_HealthMonitor = genLoadBalancerHealthMonitorUpdate (pnf_NodePort f) (getHealthCheckNodePort options),
        patch_Name = n,
        patch_ProxyProtocol = (if isProxyProtocol options \<and> pool_ProxyProtocol pool \<noteq> ''v1'' then Some ''v1''
          else if \<not> isProxyProtocol options \<and> pool_ProxyProtocol pool \<noteq> ''disabled'' then Some ''disabled'' else None)\<rparr>"])
    (auto simp: assms gen2_UpdateLoadBalancerPool_def answer_def[abs_def] abs_patch_def proxy_for_def abs_pool_def vpc_consts)

subsection \<open>A created load balancer\<close>

definition wanted_pool :: "Service \<Rightarrow> string list \<Rightarrow> ServicePort \<Rightarrow> PoolPrototype" where
  "wanted_pool service nodeList kp =
     \<lparr>pp_Algorithm = ''round_robin'',
      pp_HealthMonitor = genLoadBalancerHealthMonitor (toInt (sp_NodePort kp))
        (getHealthCheckNodePort (getServiceOptions (Some service))),
      pp_Members = genLoadBalancerMembers (toInt (sp_NodePort kp)) nodeList, pp_Name = genLoadBalancerPoolName kp,
      pp_Protocol = ''tcp'', pp_ProxyProtocol = Some (proxy_for (getServiceOptions (Some service)))\<rparr>"

definition wanted_listener :: "ServicePort \<Rightarrow> ListenerPrototype" where
  "wanted_listener kp = \<lparr>lp_ConnectionLimit = 15000, lp_DefaultPool = genLoadBalancerPoolName kp, lp_Port = toInt (sp_Port kp),
     lp_Protocol = ''tcp''\<rparr>"

definition create_request :: "string \<Rightarrow> string \<Rightarrow> string list \<Rightarrow> string list \<Rightarrow> Service \<Rightarrow> CreateLoadBalancerOptions" where
  "create_request resourceGroup lbName nodeList subnetList service =
     \<lparr>clb_IsPublic = isPublic (getServiceOptions (Some service)), clb_Subnets = subnetList,
      clb_Listeners = map wanted_listener (svc_Ports service), clb_Name = lbName,
      clb_Pools = map (wanted_pool service nodeList) (svc_Ports service), clb_ResourceGroup = resourceGroup\<rparr>"

lemma createPrototypes:
  "list_all wf_port ports \<Longrightarrow>
   foldR (createPrototype nodeList (getServiceOptions (Some service))) (ls, ps) (map genLoadBalancerPoolName ports) =
     Inr (ls @ map wanted_listener ports, ps @ map (wanted_pool service nodeList) ports)"
  by (induction ports arbitrary: ls ps)
    (simp_all add: createPrototype_def wf_port_fields wanted_listener_def wanted_pool_def proxy_for_def vpc_consts Let_def)

lemma sends_create_request:
  assumes "list_all wf_port (svc_Ports service)" "getServicePoolNames (Some service) = Inr poolList"
  shows "gen2_CreateLoadBalancer v lbName nodeList poolList subnetList (getServiceOptions (Some service)) =
    bindM (v1_CreateLoadBalancer (gen2_Client v) (create_request (cfg_resourceGroupID (gen2_Config v)) lbName nodeList subnetList service))
      (answer mapLoadBalancer)"
  using assms(2) createPrototypes[OF assms(1), of nodeList service "[]" "[]"]
  by (simp add: create_request_def gen2_CreateLoadBalancer_def getServicePoolNames_def answer_def[abs_def])

lemma wanted_pool_in_sync:
  "wf_port kp \<Longrightarrow> distinct nodeList \<Longrightarrow> pool_in_sync service nodeList kp (abs_new_pool (wanted_pool service nodeList kp))"
  using new_members_in_sync[of kp nodeList]
  by (simp add: pool_in_sync_def abs_new_pool_def wanted_pool_def monitor_for_in_sync new_members_def name_fields_gen)

lemma created_in_sync:
  assumes "list_all wf_port (svc_Ports service)" "distinct_ports service" "distinct nodeList"
    and "clb_Listeners r = map wanted_listener (svc_Ports service)"
    and "clb_Pools r = map (wanted_pool service nodeList) (svc_Ports service)"
  shows "in_sync service nodeList (abs_create r)"
proof -
  have inj: "inj_on genLoadBalancerPoolName (set (svc_Ports service))"
    using assms(1) gen_inject by (fastforce simp: inj_on_def list_all_iff)
  have ports: "distinct (svc_Ports service)" "inj_on (\<lambda>kp. toInt (sp_Port kp)) (set (svc_Ports service))"
    using assms(2) by (auto simp: distinct_ports_def distinct_map inj_on_def)
  have "listener_in_sync (map (abs_new_pool \<circ> wanted_pool service nodeList) (svc_Ports service)) kp
      (abs_new_listener (genLoadBalancerPoolName kp) (New (genLoadBalancerPoolName kp)) (wanted_listener kp))"
    if "kp \<in> set (svc_Ports service)" for kp
    using that assms(1)
    by (auto simp: listener_in_sync_def abs_new_listener_def wanted_listener_def abs_new_pool_def wanted_pool_def wf_port_def
        list_all_iff list_ex_iff)
  moreover have "\<exists>kp' \<in> set (svc_Ports service). pool_in_sync service nodeList kp' (abs_new_pool (wanted_pool service nodeList kp))"
    if "kp \<in> set (svc_Ports service)" for kp
    using that wanted_pool_in_sync[OF _ assms(3)] assms(1) by (intro bexI[of _ kp]) (auto simp: list_all_iff)
  ultimately show ?thesis
    using ports inj
    by (auto simp: in_sync_def abs_create_def assms(4,5) comp_def distinct_map list_all_iff list_ex_iff inj_on_def
        abs_new_pool_def wanted_pool_def abs_new_listener_def wanted_listener_def image_image)
qed

subsection \<open>Paging\<close>

text \<open>The pages a service gives out one after the other, each found through the link in the page before.\<close>

fun serves_pages ::
  "(string \<Rightarrow> string res) \<Rightarrow> (string option \<Rightarrow> ('s, 'a ApiPage option) io) \<Rightarrow> string option \<Rightarrow> 's \<Rightarrow> 'a ApiPage list \<Rightarrow> 's \<Rightarrow> bool" where
  "serves_pages start_of fetch start s [] s' \<longleftrightarrow> False"
| "serves_pages start_of fetch start s (p # ps) s' \<longleftrightarrow>
     fst (fetch start s) = Inr (Some p) \<and>
     (case page_NextHref p of
        None \<Rightarrow> ps = [] \<and> s' = snd (fetch start s)
      | Some href \<Rightarrow>
          (case start_of href of
             Inl _ \<Rightarrow> False
           | Inr st \<Rightarrow> serves_pages start_of fetch (Some st) (snd (fetch start s)) ps s'))"

lemma fetchPages_serves:
  "serves_pages start_of fetch start s pages s' \<Longrightarrow> length pages \<le> fuel \<Longrightarrow>
   fetchPages start_of fetch f fuel start acc s = Some (Inr (acc @ map f (concat (map page_Items pages))), s')"
proof (induction pages arbitrary: fuel start acc s)
  case (Cons p ps)
  obtain n where n: "fuel = Suc n" "length ps \<le> n" using Cons.prems(2) by (cases fuel) auto
  have fetch: "fetch start s = (Inr (Some p), snd (fetch start s))"
    using Cons.prems(1) by (metis prod.collapse serves_pages.simps(2))
  show ?case
  proof (cases "page_NextHref p")
    case None
    with Cons.prems(1) show ?thesis by (subst n(1), subst fetchPages.simps, subst fetch) simp
  next
    case (Some href)
    with Cons.prems(1) obtain st where st: "start_of href = Inr st"
      "serves_pages start_of fetch (Some st) (snd (fetch start s)) ps s'"
      by (auto split: sum.splits)
    show ?thesis using Cons.IH[OF st(2) n(2)] Some st(1)
      by (subst n(1), subst fetchPages.simps, subst fetch) (simp add: Let_def)
  qed
qed simp

text \<open>A link that cannot be parsed, and an error of the service, end the list with that error.\<close>

lemma fetchPages_error:
  "fetch start s = (Inl e, s') \<Longrightarrow> fetchPages start_of fetch f (Suc n) start acc s = Some (Inl e, s')"
  by simp

subsection \<open>The contract\<close>

text \<open>
  What the VPC API promises: the client returns an object whenever it returns no error, it does not panic, identifiers are words, every
  member has a target of the type the code asserts with an address that is a word, and a link to a next page can be parsed.
\<close>

definition word_or_nil :: "string option \<Rightarrow> bool" where
  "word_or_nil p = (case p of None \<Rightarrow> True | Some w \<Rightarrow> is_word w)"

definition api_listener_ok :: "ApiListener \<Rightarrow> bool" where
  "api_listener_ok l \<longleftrightarrow> word_or_nil (alsn_ID l) \<and>
     (case alsn_DefaultPool l of None \<Rightarrow> True | Some r \<Rightarrow> aref_Name r = Some [] \<or> word_or_nil (aref_Name r))"

definition api_pool_ok :: "ApiPool \<Rightarrow> bool" where
  "api_pool_ok p = word_or_nil (apl_ID p)"

definition api_member_ok :: "ApiMember \<Rightarrow> bool" where
  "api_member_ok m \<longleftrightarrow> word_or_nil (amem_ID m) \<and>
     (case amem_Target m of Some (MemberTarget address i) \<Rightarrow> word_or_nil address | _ \<Rightarrow> False)"

definition returns :: "('s \<Rightarrow> bool) \<Rightarrow> ('a \<Rightarrow> bool) \<Rightarrow> ('s, 'a option) io \<Rightarrow> bool" where
  "returns Inv post m = safe Inv (\<lambda>r. case r of None \<Rightarrow> False | Some x \<Rightarrow> post x) m"

definition client_ok :: "'s VpcV1 \<Rightarrow> ('s \<Rightarrow> bool) \<Rightarrow> bool" where
  "client_ok client Inv \<longleftrightarrow>
     (\<forall>r. returns Inv (\<lambda>_. True) (v1_CreateLoadBalancer client r)) \<and>
     (\<forall>i r. returns Inv (\<lambda>_. True) (v1_CreateLoadBalancerListener client i r)) \<and>
     (\<forall>i r. returns Inv (\<lambda>_. True) (v1_CreateLoadBalancerPool client i r)) \<and>
     (\<forall>i j r. returns Inv api_member_ok (v1_CreateLoadBalancerPoolMember client i j r)) \<and>
     (\<forall>i. safe Inv (\<lambda>_. True) (v1_DeleteLoadBalancer client i)) \<and>
     (\<forall>i j. safe Inv (\<lambda>_. True) (v1_DeleteLoadBalancerListener client i j)) \<and>
     (\<forall>i j. safe Inv (\<lambda>_. True) (v1_DeleteLoadBalancerPool client i j)) \<and>
     (\<forall>i j k. safe Inv (\<lambda>_. True) (v1_DeleteLoadBalancerPoolMember client i j k)) \<and>
     (\<forall>i. returns Inv (\<lambda>_. True) (v1_GetLoadBalancer client i)) \<and>
     (\<forall>st. returns Inv (\<lambda>_. True) (v1_ListLoadBalancers client st)) \<and>
     (\<forall>st. returns Inv (\<lambda>_. True) (v1_ListSubnets client st)) \<and>
     (\<forall>i. returns Inv (list_all api_listener_ok) (v1_ListLoadBalancerListeners client i)) \<and>
     (\<forall>i. returns Inv (list_all api_pool_ok) (v1_ListLoadBalancerPools client i)) \<and>
     (\<forall>i j. returns Inv (list_all api_member_ok) (v1_ListLoadBalancerPoolMembers client i j)) \<and>
     (\<forall>i j r. returns Inv (list_all api_member_ok) (v1_ReplaceLoadBalancerPoolMembers client i j r)) \<and>
     (\<forall>i j r. returns Inv (\<lambda>_. True) (v1_UpdateLoadBalancerPool client i j r))"

definition word_member :: "VpcLoadBalancerPoolMember \<Rightarrow> bool" where
  "word_member m \<longleftrightarrow> is_word (mem_ID m) \<and> is_word (mem_TargetIPAddress m)"

lemma is_word_nil: "is_word ''nil''"
  by code_simp

lemma SafePointer_word [simp]: "word_or_nil p \<Longrightarrow> is_word (SafePointerString p)"
  by (cases p) (simp_all add: word_or_nil_def SafePointerString_def is_word_nil)

lemma SafePointer_empty [simp]: "SafePointerString (Some w) = w"
  by (simp add: SafePointerString_def)

lemma word_mapped_listener: "api_listener_ok l \<Longrightarrow> word_listener (mapLoadBalancerListener l)"
  by (auto simp: api_listener_ok_def word_listener_def mapLoadBalancerListener_def mapOptRef_def mapRef_def no_ref_def
      split: option.splits)

lemma okR_mapped_member: "api_member_ok m \<Longrightarrow> okR word_member (mapLoadBalancerPoolMember m)"
  by (auto simp: api_member_ok_def mapLoadBalancerPoolMember_def word_member_def Let_def split: option.splits ApiTarget.splits)

lemma okR_map_members: "list_all api_member_ok ms \<Longrightarrow> okR (list_all word_member) (map_members ms)"
  unfolding map_members_def
  by (rule okR_foldR) (auto simp: list_all_iff intro!: okR_bind[OF okR_mapped_member])

lemma safe_returns:
  "returns Inv P m \<Longrightarrow> (\<And>x. P x \<Longrightarrow> safe Inv Q (f x)) \<Longrightarrow> safe Inv Q (bindM m (\<lambda>p. bindM (deref p) f))"
  unfolding returns_def by (erule safe_bind) (auto simp: deref_def split: option.splits)

lemma okR_extractFields: "okR (\<lambda>_. True) (extractFieldsFromPoolName n)"
  unfolding extractFieldsFromPoolName_def extractProtocolPortsFromPoolName_def Let_def
  by (auto simp: okR_def Atoi_def split: sum.splits go_err.splits)

lemma safe_named:
  "(\<And>f. safe Inv Q (m f)) \<Longrightarrow> safe Inv Q (bindM (liftM (extractFieldsFromPoolName n)) m)"
  by (rule safe_seq[OF safe_lift[OF okR_extractFields]])

lemma safe_mapped: "returns Inv P m \<Longrightarrow> (\<And>x. P x \<Longrightarrow> Q (f x)) \<Longrightarrow> safe Inv Q (bindM m (\<lambda>p. bindM (deref p) (\<lambda>x. returnM (f x))))"
  by (erule safe_returns) (rule safe_return)

lemma okR_createPrototypes: "okR (\<lambda>_. True) (foldR (createPrototype nodeList options) acc names)"
  by (rule okR_foldR[where I = "\<lambda>_. True"])
    (auto simp: createPrototype_def Let_def split: prod.split intro!: okR_bind[OF okR_extractFields])

lemma safe_fetchPages:
  assumes "\<And>st. returns Inv (\<lambda>_. True) (fetch st)" "\<And>h. okR (\<lambda>_. True) (start_of h)" "Inv s"
    and "fetchPages start_of fetch f fuel start acc s = Some (r, s')"
  shows "Inv s' \<and> okR (\<lambda>_. True) r"
  using assms(3,4)
proof (induction fuel arbitrary: start acc s)
  case (Suc n)
  obtain r0 s0 where r0: "fetch start s = (r0, s0)" by (cases "fetch start s")
  have ok: "Inv s0" "okR (\<lambda>r. case r of None \<Rightarrow> False | Some _ \<Rightarrow> True) r0"
    using assms(1)[of start] Suc.prems(1) r0 by (auto simp: returns_def safe_def dest!: spec[of _ s])
  have start_ok: "okR (\<lambda>_. True) (Inl e :: 'b list res)" if "start_of h = Inl e" for h e
    using assms(2)[of h] that by (simp add: okR_def)
  show ?case using Suc.prems(2) r0 ok Suc.IH start_ok
    by (auto simp: Let_def okR_def split: sum.splits option.splits)
qed simp

lemma safe_bounded_fetchPages:
  assumes "\<And>st. returns Inv (\<lambda>_. True) (fetch st)" "\<And>h. okR (\<lambda>_. True) (start_of h)"
  shows "safe Inv (\<lambda>_. True) (bounded (fetchPages start_of fetch f fuel start acc))"
proof -
  have "Inv s' \<and> okR (\<lambda>_. True) r" if "Inv s" "fetchPages start_of fetch f fuel start acc s = Some (r, s')" for s r s'
    using safe_fetchPages[OF assms that] .
  then show ?thesis by (fastforce simp: safe_def bounded_def split: option.splits prod.splits)
qed

lemma safe_gen2_members:
  "client_ok (gen2_Client v) Inv \<Longrightarrow> safe Inv (list_all word_member) (gen2_ListLoadBalancerPoolMembers v i j)"
  unfolding gen2_ListLoadBalancerPoolMembers_def
  by (rule safe_returns[where P = "list_all api_member_ok"]) (auto simp: client_ok_def intro!: safe_lift okR_map_members)

lemma safe_gen2_poolLoop:
  assumes "client_ok (gen2_Client v) Inv" "list_all api_pool_ok items" "list_all word_pool pools"
  shows "safe Inv (list_all word_pool) (gen2_poolLoop v i items pools)"
  using assms(2,3)
proof (induction items arbitrary: pools)
  case Nil
  then show ?case unfolding gen2_poolLoop.simps by (intro safe_return)
next
  case (Cons item items)
  then show ?case unfolding gen2_poolLoop.simps Let_def
    by (intro safe_bind[OF safe_gen2_members[OF assms(1)]])
      (auto simp: word_pool_def mapLoadBalancerPool_def api_pool_ok_def word_member_def[abs_def] simp del: io_simps)
qed

lemma gen2_vpc_service:
  assumes client: "client_ok (gen2_Client v) Inv" and start: "\<And>h. okR (\<lambda>_. True) (gen2_start v h)"
    and sleep: "\<And>d s. Inv s \<Longrightarrow> Inv (rt_Sleep rt d s)"
  shows "vpc_service (VpcSdkGen2_sdk v) rt Inv"
proof
  note c = client[unfolded client_ok_def]
  show "safe Inv (\<lambda>_. True) (sdk_CreateLoadBalancer (VpcSdkGen2_sdk v) n nodes poolNames subnets options)" for n nodes poolNames subnets options
    unfolding VpcSdkGen2_sdk_def gen2_CreateLoadBalancer_def
    by (auto intro!: safe_seq[OF safe_lift[OF okR_createPrototypes]] safe_mapped[where P = "\<lambda>_. True"] simp: c split: prod.split)
  show "safe Inv (\<lambda>_. True) (sdk_CreateLoadBalancerListener (VpcSdkGen2_sdk v) i n j)"
    "safe Inv (\<lambda>_. True) (sdk_CreateLoadBalancerPool (VpcSdkGen2_sdk v) i n nodes options)"
    "safe Inv (\<lambda>_. True) (sdk_UpdateLoadBalancerPool (VpcSdkGen2_sdk v) i n pool options)" for i n j nodes options pool
    by (auto simp: VpcSdkGen2_sdk_def gen2_CreateLoadBalancerListener_def gen2_CreateLoadBalancerPool_def
        gen2_UpdateLoadBalancerPool_def Let_def c intro!: safe_named safe_mapped[where P = "\<lambda>_. True"])
  show "safe Inv (\<lambda>_. True) (sdk_CreateLoadBalancerPoolMember (VpcSdkGen2_sdk v) i n j node)" for i n j node
    using c by (auto simp: VpcSdkGen2_sdk_def gen2_CreateLoadBalancerPoolMember_def
        intro!: safe_named safe_returns[where P = api_member_ok] safe_lift okR_weaken[OF okR_mapped_member])
  show "safe Inv (\<lambda>_. True) (sdk_ReplaceLoadBalancerPoolMembers (VpcSdkGen2_sdk v) i n j nodes)" for i n j nodes
    using c by (auto simp: VpcSdkGen2_sdk_def gen2_ReplaceLoadBalancerPoolMembers_def
        intro!: safe_named safe_returns[where P = "list_all api_member_ok"] safe_lift okR_weaken[OF okR_map_members])
  show "safe Inv (\<lambda>_. True) (sdk_DeleteLoadBalancer (VpcSdkGen2_sdk v) i)"
    "safe Inv (\<lambda>_. True) (sdk_DeleteLoadBalancerListener (VpcSdkGen2_sdk v) i j)"
    "safe Inv (\<lambda>_. True) (sdk_DeleteLoadBalancerPool (VpcSdkGen2_sdk v) i j)"
    "safe Inv (\<lambda>_. True) (sdk_DeleteLoadBalancerPoolMember (VpcSdkGen2_sdk v) i j k)" for i j k
    by (simp_all add: VpcSdkGen2_sdk_def gen2_DeleteLoadBalancer_def gen2_DeleteLoadBalancerListener_def
        gen2_DeleteLoadBalancerPool_def gen2_DeleteLoadBalancerPoolMember_def c)
  show "safe Inv (\<lambda>_. True) (sdk_GetLoadBalancer (VpcSdkGen2_sdk v) i)" for i
    by (auto simp: VpcSdkGen2_sdk_def gen2_GetLoadBalancer_def c intro!: safe_mapped[where P = "\<lambda>_. True"])
  show "safe Inv (\<lambda>_. True) (sdk_ListLoadBalancers (VpcSdkGen2_sdk v))" "safe Inv (\<lambda>_. True) (sdk_ListSubnets (VpcSdkGen2_sdk v))"
    by (auto simp: VpcSdkGen2_sdk_def gen2_ListLoadBalancers_def gen2_ListSubnets_def c start intro!: safe_bounded_fetchPages)
  show "safe Inv (list_all word_listener) (sdk_ListLoadBalancerListeners (VpcSdkGen2_sdk v) i)" for i
    using c by (auto simp: VpcSdkGen2_sdk_def gen2_ListLoadBalancerListeners_def list_all_iff word_mapped_listener
        intro!: safe_mapped[where P = "list_all api_listener_ok"])
  show "safe Inv (list_all word_pool) (sdk_ListLoadBalancerPools (VpcSdkGen2_sdk v) i)" for i
    using c by (auto simp: VpcSdkGen2_sdk_def gen2_ListLoadBalancerPools_def
        intro!: safe_returns[where P = "list_all api_pool_ok"] safe_gen2_poolLoop[OF client])
  show "Inv s \<Longrightarrow> Inv (rt_Sleep rt d s)" for s d by (rule sleep)
qed

subsection \<open>A client for examples\<close>

text \<open>A client that answers every call with fixed objects, two pages for lists, and counts the calls in its state.\<close>

definition counted :: "'a \<Rightarrow> (nat, 'a) io" where
  "counted x s = (Inr x, Suc s)"

definition ex_api_lb :: ApiLoadBalancer where
  "ex_api_lb = \<lparr>alb_CreatedAt = None, alb_Hostname = Some ''host'', alb_ID = Some ''id-1'', alb_IsPublic = Some True,
     alb_Name = Some ''lb'', alb_OperatingStatus = Some ''online'', alb_ProvisioningStatus = Some ''active'', alb_Listeners = [],
     alb_Pools = [], alb_PrivateIps = [Some ''10.0.0.2'', Some ''10.0.0.1''], alb_ProfileFamily = None, alb_PublicIps = [],
     alb_ResourceGroup = None, alb_Subnets = []\<rparr>"

definition ex_api_member :: ApiMember where
  "ex_api_member = \<lparr>amem_Health = Some ''ok'', amem_ID = Some ''member'', amem_Port = Some 30303, amem_ProvisioningStatus = Some ''active'',
     amem_Weight = Some 50, amem_Target = Some (MemberTarget (Some ''192.168.1.1'') None)\<rparr>"

definition ex_api_pool :: ApiPool where
  "ex_api_pool = \<lparr>apl_Algorithm = Some ''round_robin'', apl_ID = Some ''poolID'', apl_Name = Some ''tcp-80-30303'', apl_Protocol = Some ''tcp'',
     apl_ProvisioningStatus = Some ''active'', apl_ProxyProtocol = Some ''disabled'', apl_HealthMonitor = None,
     apl_Members = [Some ''member''], apl_SessionPersistence = None\<rparr>"

definition ex_api_listener :: ApiListener where
  "ex_api_listener = \<lparr>alsn_ConnectionLimit = Some 15000, alsn_ID = Some ''listener'', alsn_Port = Some 80, alsn_Protocol = Some ''tcp'',
     alsn_ProvisioningStatus = Some ''active'', alsn_DefaultPool = Some \<lparr>aref_ID = Some ''poolID'', aref_Name = Some ''tcp-80-30303''\<rparr>\<rparr>"

definition ex_api_subnet :: ApiSubnet where
  "ex_api_subnet = \<lparr>asub_AvailableIpv4AddressCount = Some 1, asub_CreatedAt = None, asub_ID = Some ''subnet'', asub_IPVersion = None,
     asub_Ipv4CIDRBlock = None, asub_Name = Some ''subnet1'', asub_Status = None, asub_TotalIpv4AddressCount = None,
     asub_NetworkACL = None, asub_PublicGateway = None, asub_ResourceGroup = None, asub_VPC = None, asub_Zone = None\<rparr>"

definition two_pages :: "'a \<Rightarrow> string option \<Rightarrow> (nat, 'a ApiPage option) io" where
  "two_pages x start = counted (Some \<lparr>page_Items = [x],
     page_NextHref = (case start of None \<Rightarrow> Some ''https://host/v1?start=2'' | Some _ \<Rightarrow> None)\<rparr>)"

definition ex_client :: "nat VpcV1" where
  "ex_client = \<lparr>v1_CreateLoadBalancer = (\<lambda>r. counted (Some ex_api_lb)),
     v1_CreateLoadBalancerListener = (\<lambda>i r. counted (Some ex_api_listener)),
     v1_CreateLoadBalancerPool = (\<lambda>i r. counted (Some ex_api_pool)),
     v1_CreateLoadBalancerPoolMember = (\<lambda>i j r. counted (Some ex_api_member)),
     v1_DeleteLoadBalancer = (\<lambda>i. counted ()), v1_DeleteLoadBalancerListener = (\<lambda>i j. counted ()),
     v1_DeleteLoadBalancerPool = (\<lambda>i j. counted ()), v1_DeleteLoadBalancerPoolMember = (\<lambda>i j k. counted ()),
     v1_GetLoadBalancer = (\<lambda>i. counted (Some ex_api_lb)), v1_GetSubnet = (\<lambda>i. counted (Some ex_api_subnet)),
     v1_ListLoadBalancers = two_pages ex_api_lb,
     v1_ListLoadBalancerListeners = (\<lambda>i. counted (Some [ex_api_listener])),
     v1_ListLoadBalancerPools = (\<lambda>i. counted (Some [ex_api_pool])),
     v1_ListLoadBalancerPoolMembers = (\<lambda>i j. counted (Some [ex_api_member])),
     v1_ListSubnets = two_pages ex_api_subnet,
     v1_ReplaceLoadBalancerPoolMembers = (\<lambda>i j r. counted (Some [ex_api_member])),
     v1_UpdateLoadBalancerPool = (\<lambda>i j r. counted (Some ex_api_pool))\<rparr>"

definition ex_gen2 :: "nat VpcSdkGen2" where
  "ex_gen2 = \<lparr>gen2_Client = ex_client, gen2_Config = ex_config, gen2_start = (\<lambda>_. Inr ''2''), gen2_fuel = 10\<rparr>"

definition ex_gen2_runtime :: "nat Runtime" where
  "ex_gen2_runtime = \<lparr>rt_Now = int, rt_Sleep = (\<lambda>_ s. s), rt_range = (\<lambda>_ ks. ks)\<rparr>"

definition ex_gen2_cloud :: "nat CloudVpc" where
  "ex_gen2_cloud = \<lparr>vpc_Config = ex_config, vpc_Sdk = VpcSdkGen2_sdk ex_gen2, vpc_Recorder = None\<rparr>"

lemma returns_counted [simp]: "returns (\<lambda>_. True) P (counted (Some x)) \<longleftrightarrow> P x" "safe (\<lambda>_. True) Q (counted y) \<longleftrightarrow> Q y"
  by (simp_all add: returns_def safe_def counted_def)

lemma ex_client_ok: "client_ok ex_client (\<lambda>_. True)"
proof -
  have "api_listener_ok ex_api_listener" "api_pool_ok ex_api_pool" "api_member_ok ex_api_member" by code_simp+
  then show ?thesis by (simp add: client_ok_def ex_client_def two_pages_def)
qed

subsection \<open>Properties\<close>

text \<open>C24: A load balancer is requested with the contents the service asks for: one pool and one listener per port, all nodes as members,
  the health monitor and the proxy protocol of the service. A load balancer created that way needs no update.\<close>

theorem created_load_balancer_in_sync:
  assumes "list_all wf_port (svc_Ports service)" "distinct_ports service" "distinct nodeList"
    and "getServicePoolNames (Some service) = Inr poolList"
  shows "\<exists>req. in_sync service nodeList (abs_create req) \<and>
    list_all (\<lambda>p. ap_Proxy p = proxy_for (getServiceOptions (Some service))) (ct_Pools (abs_create req)) \<and>
    clb_Name req = lbName \<and> clb_Subnets req = subnetList \<and>
    gen2_CreateLoadBalancer v lbName nodeList poolList subnetList (getServiceOptions (Some service)) =
      bindM (v1_CreateLoadBalancer (gen2_Client v) req) (answer mapLoadBalancer)"
proof -
  let ?req = "create_request (cfg_resourceGroupID (gen2_Config v)) lbName nodeList subnetList service"
  have "in_sync service nodeList (abs_create ?req)" by (rule created_in_sync[OF assms(1-3)]) (simp_all add: create_request_def)
  with sends_create_request[OF assms(1,4)] show ?thesis
    by (intro exI[of _ ?req]) (simp add: create_request_def abs_create_def abs_new_pool_def wanted_pool_def list_all_iff)
qed

theorem created_load_balancer_in_sync_witness:
  "\<exists>req. in_sync ex_web [''192.168.1.1'', ''192.168.3.3''] (abs_create req) \<and>
    gen2_CreateLoadBalancer ex_gen2 ''lb'' [''192.168.1.1'', ''192.168.3.3''] [''tcp-80-30303''] [''subnet'']
      (getServiceOptions (Some ex_web)) = bindM (v1_CreateLoadBalancer (gen2_Client ex_gen2) req) (answer mapLoadBalancer)"
proof -
  have "list_all wf_port (svc_Ports ex_web)" "distinct_ports ex_web" "distinct [''192.168.1.1'', ''192.168.3.3'']"
    "getServicePoolNames (Some ex_web) = Inr [''tcp-80-30303'']" by code_simp+
  from created_load_balancer_in_sync[OF this, of "''lb''" "[''subnet'']" ex_gen2] show ?thesis by (elim exE conjE) (intro exI conjI)
qed

text \<open>C25: The list operations return the items of all pages, mapped, in order, provided the bound on the number of pages covers them.\<close>

theorem pages_collected:
  assumes "serves_pages (gen2_start v) (v1_ListLoadBalancers (gen2_Client v)) None s pages s'" "length pages \<le> gen2_fuel v"
    and "serves_pages (gen2_start v) (v1_ListSubnets (gen2_Client v)) None t subnet_pages t'" "length subnet_pages \<le> gen2_fuel v"
  shows "gen2_ListLoadBalancers v s = (Inr (map mapLoadBalancer (concat (map page_Items pages))), s') \<and>
    gen2_ListSubnets v t = (Inr (map mapSubnet (concat (map page_Items subnet_pages))), t')"
  by (simp add: gen2_ListLoadBalancers_def gen2_ListSubnets_def bounded_def fetchPages_serves[OF assms(1,2)]
      fetchPages_serves[OF assms(3,4)])

theorem pages_collected_witness:
  "gen2_ListLoadBalancers ex_gen2 0 = (Inr [mapLoadBalancer ex_api_lb, mapLoadBalancer ex_api_lb], 2)"
proof -
  let ?pages = "\<lambda>x. [\<lparr>page_Items = [x], page_NextHref = Some ''https://host/v1?start=2''\<rparr>, \<lparr>page_Items = [x], page_NextHref = None\<rparr>]"
  have "serves_pages (gen2_start ex_gen2) (v1_ListLoadBalancers (gen2_Client ex_gen2)) None 0 (?pages ex_api_lb) 2"
    "serves_pages (gen2_start ex_gen2) (v1_ListSubnets (gen2_Client ex_gen2)) None 0 (?pages ex_api_subnet) 2"
    "length (?pages ex_api_lb) \<le> gen2_fuel ex_gen2" "length (?pages ex_api_subnet) \<le> gen2_fuel ex_gen2"
    by (simp_all add: ex_gen2_def ex_client_def two_pages_def counted_def)
  from pages_collected[OF this(1,3,2,4)] show ?thesis by simp
qed

text \<open>C26: On a VPC client that keeps the promises of its API, the entry points of the provider never panic with the Gen2 SDK: the mapped
  objects meet the contract that the provider relies on.\<close>

theorem gen2_never_panics:
  assumes "client_ok (gen2_Client v) Inv" "\<And>h. okR (\<lambda>_. True) (gen2_start v h)" "\<And>d s. Inv s \<Longrightarrow> Inv (rt_Sleep rt d s)"
    and "vpc_Sdk c = VpcSdkGen2_sdk v" "\<And>record e s. vpc_Recorder c = Some record \<Longrightarrow> Inv s \<Longrightarrow> Inv (record e s)"
    and "word_nodes nodes" "natural_ports service"
  shows "safe Inv (\<lambda>_. True) (EnsureLoadBalancer rt c lbName (Some service) (Some nodes)) \<and>
    safe Inv (\<lambda>_. True) (EnsureLoadBalancerDeleted c lbName (Some service)) \<and>
    safe Inv (\<lambda>_. True) (EnsureLoadBalancerUpdated rt c lbName (Some service) (Some nodes)) \<and>
    safe Inv (\<lambda>_. True) (MonitorLoadBalancers rt c services status)"
proof -
  have cloud: "vpc_cloud (VpcSdkGen2_sdk v) rt Inv c"
    using gen2_vpc_service[OF assms(1-3)] assms(4,5) by (simp add: vpc_cloud_def vpc_cloud_axioms_def)
  show ?thesis
    by (intro conjI vpc_cloud.safe_EnsureLoadBalancer[OF cloud assms(6,7)] vpc_cloud.safe_EnsureLoadBalancerDeleted[OF cloud]
        vpc_cloud.safe_EnsureLoadBalancerUpdated[OF cloud assms(6,7)] vpc_cloud.safe_MonitorLoadBalancers[OF cloud])
qed

theorem gen2_never_panics_witness:
  "safe (\<lambda>_. True) (\<lambda>_. True) (EnsureLoadBalancer ex_gen2_runtime ex_gen2_cloud ''lb'' (Some ex_web) (Some ex_node_list))"
proof -
  have "word_nodes ex_node_list" "natural_ports ex_web" by code_simp+
  with gen2_never_panics[of ex_gen2 "\<lambda>_. True" ex_gen2_runtime ex_gen2_cloud ex_node_list ex_web] ex_client_ok
  show ?thesis by (simp add: ex_gen2_def ex_gen2_cloud_def)
qed

text \<open>The one request of a creation; before it, nothing happens.\<close>

lemma create_load_balancer_request:
  assumes "gen2_CreateLoadBalancer v n nodeList poolList subnetList options t = (r, t')"
  shows "isl r \<and> t' = t \<or> (\<exists>req q. clb_ResourceGroup req = cfg_resourceGroupID (gen2_Config v) \<and> clb_Name req = n \<and>
    v1_CreateLoadBalancer (gen2_Client v) req t = (q, t'))"
proof (cases "foldR (createPrototype nodeList options) ([], []) poolList")
  case (Inl e)
  with assms show ?thesis by (auto simp: gen2_CreateLoadBalancer_def bindM_def liftM_def)
next
  case (Inr p)
  obtain listeners pools where p: "p = (listeners, pools)" by (cases p)
  let ?req = "\<lparr>clb_IsPublic = isPublic options, clb_Subnets = subnetList, clb_Listeners = listeners, clb_Name = n, clb_Pools = pools,
    clb_ResourceGroup = cfg_resourceGroupID (gen2_Config v)\<rparr>"
  obtain q t1 where run: "v1_CreateLoadBalancer (gen2_Client v) ?req t = (q, t1)" by (cases "v1_CreateLoadBalancer (gen2_Client v) ?req t")
  have "t' = t1"
    using assms Inr p run by (auto simp: gen2_CreateLoadBalancer_def bindM_def liftM_def deref_def returnM_def raiseM_def split: sum.splits option.splits)
  with run show ?thesis by (intro disjI2 exI[of _ ?req]) simp
qed

text \<open>C27: Load balancers are created in the resource group of the configured name. When an SDK object is made from a configuration with a name
  and no ID of a resource group, the resource manager was asked, at the configured override if there is one, else at the test system for
  a development endpoint of the VPC, else at the default URL, with the API key and the token URL of the configuration; it listed exactly one group for the account and that
  name (no group, several groups and any error stop the creation of the object); and whatever load balancer the object creates, the request
  carries the ID of that group. A group that is listed without an ID is no error: the requests then carry an empty ID.\<close>

theorem resource_group_resolved:
  assumes "NewVpcSdkGen2 newVpc url newRM start_of fuel c s = (Inr v, s')"
    and "cfg_resourceGroupID c = []" "cfg_ResourceGroupName c \<noteq> []"
  shows "\<exists>s1 s2 lookup group.
    newVpc (cfg_APIKeySecret c) (cfg_tokenExchangeURL c) (cfg_endpointURL c) s = (Inr (gen2_Client v), s1) \<and>
    newRM (if cfg_RmEndpointOverride c \<noteq> [] then cfg_RmEndpointOverride c
           else if Contains (cfg_endpointURL c) ''iaasdev.cloud.ibm.com'' then ''https://resource-controller.test.cloud.ibm.com'' else url)
      (cfg_APIKeySecret c) (cfg_tokenExchangeURL c) s1 = (Inr lookup, s2) \<and>
    lookup (cfg_AccountID c) (cfg_ResourceGroupName c) s2 = (Inr [group], s') \<and>
    (\<forall>n nodeList poolList subnetList options t r t'. gen2_CreateLoadBalancer v n nodeList poolList subnetList options t = (r, t') \<longrightarrow>
       isl r \<and> t' = t \<or>
       (\<exists>req q. clb_ResourceGroup req = (case group of None \<Rightarrow> [] | Some i \<Rightarrow> i) \<and> clb_Name req = n \<and>
          v1_CreateLoadBalancer (gen2_Client v) req t = (q, t')))"
proof -
  obtain client s1 where client: "newVpc (cfg_APIKeySecret c) (cfg_tokenExchangeURL c) (cfg_endpointURL c) s = (Inr client, s1)"
      "(case convertResourceGroupNameToID url newRM c s1 of (Inl e, s2) \<Rightarrow> (Inl e, s2)
        | (Inr c', s2) \<Rightarrow> (Inr \<lparr>gen2_Client = client, gen2_Config = c', gen2_start = start_of, gen2_fuel = fuel\<rparr>, s2)) = (Inr v, s')"
    using assms by (auto simp: NewVpcSdkGen2_def tryM_def bindM_def raiseM_def returnM_def split: prod.splits sum.splits go_err.splits)
  then obtain c' where c': "convertResourceGroupNameToID url newRM c s1 = (Inr c', s')" "gen2_Client v = client" "gen2_Config v = c'"
    by (auto split: prod.splits sum.splits)
  obtain lookup s2 where lookup: "newRM (resourceManagerURL url c) (cfg_APIKeySecret c) (cfg_tokenExchangeURL c) s1 = (Inr lookup, s2)"
    using c'(1) by (auto simp: convertResourceGroupNameToID_def tryM_def raiseM_def split: prod.splits sum.splits go_err.splits)
  with c'(1) obtain groups where groups: "lookup (cfg_AccountID c) (cfg_ResourceGroupName c) s2 = (Inr groups, s')" "length groups = 1"
      "c' = (case groups ! 0 of None \<Rightarrow> c | Some i \<Rightarrow> c\<lparr>cfg_resourceGroupID := i\<rparr>)"
    by (auto simp: convertResourceGroupNameToID_def tryM_def raiseM_def returnM_def split: prod.splits sum.splits go_err.splits if_splits option.splits)
  then obtain group where group: "groups = [group]" by (auto simp: length_Suc_conv)
  then have id: "cfg_resourceGroupID (gen2_Config v) = (case group of None \<Rightarrow> [] | Some i \<Rightarrow> i)"
    using groups(3) c'(3) assms(2) by (simp split: option.split)
  have "isl r \<and> t' = t \<or> (\<exists>req q. clb_ResourceGroup req = cfg_resourceGroupID (gen2_Config v) \<and> clb_Name req = n \<and>
      v1_CreateLoadBalancer (gen2_Client v) req t = (q, t'))"
    if "gen2_CreateLoadBalancer v n nodeList poolList subnetList options t = (r, t')" for n nodeList poolList subnetList options t r t'
    using that by (rule create_load_balancer_request)
  with client(1) c'(2) lookup groups(1) show ?thesis unfolding group id resourceManagerURL_def by blast
qed

theorem resource_group_resolved_witness:
  "\<exists>v. NewVpcSdkGen2 (\<lambda>_ _ _. counted ex_client) ''https://rm'' (\<lambda>_ _ _. counted (\<lambda>_ _. counted [Some ''g1''])) (\<lambda>_. Inr ''2'') 10
      (ex_config\<lparr>cfg_resourceGroupID := []\<rparr>) 0 = (Inr v, 3) \<and>
    (\<exists>req q. clb_ResourceGroup req = ''g1'' \<and> v1_CreateLoadBalancer (gen2_Client v) req 7 = (q, 8))"
proof -
  let ?c = "ex_config\<lparr>cfg_resourceGroupID := []\<rparr>" and ?newRM = "\<lambda>_ _ _. counted (\<lambda>_ _. counted [Some ''g1''])"
  have c: "cfg_resourceGroupID ?c = []" "cfg_ResourceGroupName ?c \<noteq> []" by code_simp+
  obtain v where v: "NewVpcSdkGen2 (\<lambda>_ _ _. counted ex_client) ''https://rm'' ?newRM (\<lambda>_. Inr ''2'') 10 ?c 0 = (Inr v, 3)"
    and client: "gen2_Client v = ex_client"
    using c by (simp add: NewVpcSdkGen2_def convertResourceGroupNameToID_def tryM_def bindM_def returnM_def counted_def)
  have "fst (gen2_CreateLoadBalancer v ''lb'' [] [] [] newServiceOptions 7) = Inr (mapLoadBalancer ex_api_lb) \<and>
      snd (gen2_CreateLoadBalancer v ''lb'' [] [] [] newServiceOptions 7) = 8"
    by (simp add: gen2_CreateLoadBalancer_def client ex_client_def counted_def bindM_def liftM_def returnM_def deref_def)
  then have run: "gen2_CreateLoadBalancer v ''lb'' [] [] [] newServiceOptions 7 = (Inr (mapLoadBalancer ex_api_lb), 8)" by (simp add: prod_eq_iff)
  from resource_group_resolved[OF v c] obtain group where "counted [Some ''g1''] (2 :: nat) = (Inr [group], 3 :: nat)"
    and sent: "\<forall>n nodeList poolList subnetList options t r t'. gen2_CreateLoadBalancer v n nodeList poolList subnetList options t = (r, t') \<longrightarrow>
       isl r \<and> t' = t \<or> (\<exists>req q. clb_ResourceGroup req = (case group of None \<Rightarrow> [] | Some i \<Rightarrow> i) \<and> clb_Name req = n \<and>
          v1_CreateLoadBalancer (gen2_Client v) req t = (q, t'))"
    by (auto simp: counted_def)
  then have "group = Some ''g1''" by (simp add: counted_def)
  with sent run have "\<exists>req q. clb_ResourceGroup req = ''g1'' \<and> v1_CreateLoadBalancer (gen2_Client v) req 7 = (q, 8)" by fastforce
  with v show ?thesis by blast
qed

subsection \<open>A pool created later does not get the requested proxy protocol\<close>

text \<open>
  \<open>CreateLoadBalancer\<close> and \<open>UpdateLoadBalancerPool\<close> pass the proxy protocol of the service on, \<open>CreateLoadBalancerPool\<close> does not: the pool
  of a port that is added to a service with the option is created without it.
\<close>

lemma created_pool_ignores_proxy:
  assumes "extractFieldsFromPoolName n = Inr f"
  shows "\<exists>req. pp_ProxyProtocol req = None \<and>
    gen2_CreateLoadBalancerPool v lbID n nodeList options =
      bindM (v1_CreateLoadBalancerPool (gen2_Client v) lbID req) (answer mapLoadBalancerPool)"
  by (rule exI[of _ "\<lparr>pp_Algorithm = ''round_robin'',
        pp_HealthMonitor = genLoadBalancerHealthMonitor (pnf_NodePort f) (getHealthCheckNodePort options),
        pp_Members = genLoadBalancerMembers (pnf_NodePort f) nodeList, pp_Name = n, pp_Protocol = pnf_Protocol f,
        pp_ProxyProtocol = None\<rparr>"])
    (simp add: assms gen2_CreateLoadBalancerPool_def answer_def[abs_def])

end
