(* ===== verification/Vpc_Effects.thy ===== *)
theory Vpc_Effects
  imports Vpc_Gen2
begin

section \<open>An update against a VPC service that does what it documents\<close>

text \<open>
  The layers put together: \<open>UpdateLoadBalancer\<close> on the Gen2 SDK on a VPC service. The documented meaning of the requests is given as
  functions on the abstract content of \<open>Vpc_Converge\<close>; the locale \<open>documented_api\<close> says that a client has this meaning, in whatever
  way its state holds the content, and that a call which fails has been carried out or not. The locale \<open>effects_sdk\<close> says the
  same of an SDK and the operations of a plan; the Gen2 SDK on a documented API is one. A reference service, whose
  state is the content, shows that the assumptions can be met.
\<close>

subsection \<open>Requests\<close>

definition api_delete_listener :: "string \<Rightarrow> content \<Rightarrow> content option" where
  "api_delete_listener i c =
     (if Old i \<in> al_ID ` set (ct_Listeners c)
      then Some (c\<lparr>ct_Listeners := filter (\<lambda>l. al_ID l \<noteq> Old i) (ct_Listeners c)\<rparr>) else None)"

definition api_delete_pool :: "string \<Rightarrow> content \<Rightarrow> content option" where
  "api_delete_pool i c =
     (if Old i \<in> ap_ID ` set (ct_Pools c) \<and> Old i \<notin> al_Pool ` set (ct_Listeners c)
      then Some (c\<lparr>ct_Pools := filter (\<lambda>p. ap_ID p \<noteq> Old i) (ct_Pools c)\<rparr>) else None)"

definition on_pool :: "string \<Rightarrow> (apool \<Rightarrow> apool option) \<Rightarrow> content \<Rightarrow> content option" where
  "on_pool i f c = map_option (\<lambda>ps. c\<lparr>ct_Pools := ps\<rparr>) (at_pool i f (ct_Pools c))"

definition api_delete_member :: "string \<Rightarrow> string \<Rightarrow> content \<Rightarrow> content option" where
  "api_delete_member i m = on_pool i (\<lambda>p.
     if Old m \<in> fst ` set (ap_Members p) then Some (p\<lparr>ap_Members := filter (\<lambda>x. fst x \<noteq> Old m) (ap_Members p)\<rparr>) else None)"

definition api_create_member :: "string \<Rightarrow> MemberPrototype \<Rightarrow> content \<Rightarrow> content option" where
  "api_create_member i req = on_pool i (\<lambda>p.
     if snd (abs_new_member req) \<in> snd ` set (ap_Members p) then None
     else Some (p\<lparr>ap_Members := ap_Members p @ [abs_new_member req]\<rparr>))"

definition api_replace_members :: "string \<Rightarrow> MemberPrototype list \<Rightarrow> content \<Rightarrow> content option" where
  "api_replace_members i reqs = on_pool i (\<lambda>p. Some (p\<lparr>ap_Members := map abs_new_member reqs\<rparr>))"

definition api_update_pool :: "string \<Rightarrow> PoolPatch \<Rightarrow> content \<Rightarrow> content option" where
  "api_update_pool i req = on_pool i (\<lambda>p. Some (abs_patch req p))"

definition api_create_pool :: "PoolPrototype \<Rightarrow> content \<Rightarrow> content option" where
  "api_create_pool req c =
     (if pp_Name req \<in> ap_Name ` set (ct_Pools c) then None else Some (c\<lparr>ct_Pools := ct_Pools c @ [abs_new_pool req]\<rparr>))"

text \<open>The name is that of the pool whose ID the request has.\<close>

definition api_create_listener :: "string \<Rightarrow> ListenerPrototype \<Rightarrow> content \<Rightarrow> content option" where
  "api_create_listener n req c =
     (case find (\<lambda>p. ap_Name p = n) (ct_Pools c) of
        None \<Rightarrow> None
      | Some p \<Rightarrow>
          if lp_Port req \<in> al_Port ` set (ct_Listeners c) then None
          else Some (c\<lparr>ct_Listeners := ct_Listeners c @ [abs_new_listener n (ap_ID p) req]\<rparr>))"

subsection \<open>Contracts\<close>

text \<open>A call that may turn one content into another: it has when it succeeds, and it may have when it fails.\<close>

definition turns :: "('s \<Rightarrow> content \<Rightarrow> bool) \<Rightarrow> ('s, 'a) io \<Rightarrow> content \<Rightarrow> content \<Rightarrow> 's \<Rightarrow> bool" where
  "turns holds m c c' s \<longleftrightarrow>
     (case m s of (r, s') \<Rightarrow> (case r of Inl _ \<Rightarrow> holds s' c \<or> holds s' c' | Inr _ \<Rightarrow> holds s' c'))"

text \<open>The pools that a load-balancer object lists are in the state, with the ID it gives.\<close>

definition truthful :: "('s \<Rightarrow> string \<Rightarrow> string option) \<Rightarrow> 's \<Rightarrow> VpcLoadBalancer \<Rightarrow> bool" where
  "truthful pool_id s lb = list_all (\<lambda>r. pool_id s (ref_Name r) = Some (ref_ID r)) (lb_Pools lb)"

text \<open>
  \<open>holds s c\<close>: the service in state \<open>s\<close> holds the content \<open>c\<close> for the load balancer \<open>lbID\<close>; \<open>pool_id s n\<close>: the ID of its pool named \<open>n\<close>.
\<close>

locale documented_api =
  fixes v :: "'s VpcSdkGen2" and rt :: "'s Runtime" and lbID :: string
    and holds :: "'s \<Rightarrow> content \<Rightarrow> bool" and pool_id :: "'s \<Rightarrow> string \<Rightarrow> string option"
  assumes delete_listener: "holds s c \<Longrightarrow> api_delete_listener i c = Some c' \<Longrightarrow>
      turns holds (v1_DeleteLoadBalancerListener (gen2_Client v) lbID i) c c' s"
    and delete_pool: "holds s c \<Longrightarrow> api_delete_pool i c = Some c' \<Longrightarrow>
      turns holds (v1_DeleteLoadBalancerPool (gen2_Client v) lbID i) c c' s"
    and delete_member: "holds s c \<Longrightarrow> api_delete_member i m c = Some c' \<Longrightarrow>
      turns holds (v1_DeleteLoadBalancerPoolMember (gen2_Client v) lbID i m) c c' s"
    and create_member: "holds s c \<Longrightarrow> api_create_member i mreq c = Some c' \<Longrightarrow>
      turns holds (v1_CreateLoadBalancerPoolMember (gen2_Client v) lbID i mreq) c c' s"
    and replace_members: "holds s c \<Longrightarrow> api_replace_members i mreqs c = Some c' \<Longrightarrow>
      turns holds (v1_ReplaceLoadBalancerPoolMembers (gen2_Client v) lbID i mreqs) c c' s"
    and update_pool: "holds s c \<Longrightarrow> api_update_pool i patch c = Some c' \<Longrightarrow>
      turns holds (v1_UpdateLoadBalancerPool (gen2_Client v) lbID i patch) c c' s"
    and create_pool: "holds s c \<Longrightarrow> api_create_pool preq c = Some c' \<Longrightarrow>
      turns holds (v1_CreateLoadBalancerPool (gen2_Client v) lbID preq) c c' s"
    and create_listener: "holds s c \<Longrightarrow> pool_id s n = Some (lp_DefaultPool lreq) \<Longrightarrow> api_create_listener n lreq c = Some c' \<Longrightarrow>
      turns holds (v1_CreateLoadBalancerListener (gen2_Client v) lbID lreq) c c' s"
    and get: "holds s c \<Longrightarrow> v1_GetLoadBalancer (gen2_Client v) lbID s = (r, s') \<Longrightarrow>
      holds s' c \<and> (\<forall>lb. r = Inr (Some lb) \<longrightarrow> alb_ID lb = Some lbID \<and> truthful pool_id s' (mapLoadBalancer lb))"
    and sleep: "holds s c \<Longrightarrow> holds (rt_Sleep rt d s) c"

text \<open>
  The same for an SDK and the operations of a plan. The name in an operation must be a pool name, the load-balancer object up to date, and the
  pool that an update starts from must have the proxy protocol that the service has for it.
\<close>

definition pool_name :: "string \<Rightarrow> bool" where
  "pool_name n \<longleftrightarrow> \<not> isl (extractFieldsFromPoolName n)"

fun named :: "operation \<Rightarrow> bool" where
  "named (UpdatePool n i) = pool_name n"
| "named (ReplacePoolMembers n i) = pool_name n"
| "named (CreatePoolMember n i t) = pool_name n"
| "named (DeletePoolMember n i m t) = pool_name n"
| "named (CreatePool n) = pool_name n"
| "named (CreateListener n) = pool_name n"
| "named _ = True"

definition same_proxy :: "VpcLoadBalancerPool list \<Rightarrow> string \<Rightarrow> content \<Rightarrow> bool" where
  "same_proxy pools i c \<longleftrightarrow>
     (case find (\<lambda>pool. pool_ID pool = i) pools of
        None \<Rightarrow> True
      | Some pool \<Rightarrow> list_all (\<lambda>p. ap_ID p = Old i \<longrightarrow> ap_Proxy p = pool_ProxyProtocol pool) (ct_Pools c))"

fun updated_pool :: "operation \<Rightarrow> string list" where
  "updated_pool (UpdatePool n i) = [i]"
| "updated_pool _ = []"

locale effects_sdk =
  fixes sdk :: "'s CloudVpcSdk" and rt :: "'s Runtime" and lbID :: string
    and holds :: "'s \<Rightarrow> content \<Rightarrow> bool" and pool_id :: "'s \<Rightarrow> string \<Rightarrow> string option"
  assumes perform_turns: "holds s c \<Longrightarrow> effect options nodeList u c = Some c' \<Longrightarrow> named u \<Longrightarrow> lb_ID lb = lbID \<Longrightarrow> truthful pool_id s lb \<Longrightarrow>
      list_all (\<lambda>i. same_proxy pools i c) (updated_pool u) \<Longrightarrow> turns holds (perform sdk lb nodeList pools options u) c c' s"
    and get_current: "holds s c \<Longrightarrow> sdk_GetLoadBalancer sdk lbID s = (r, s') \<Longrightarrow>
      holds s' c \<and> (\<forall>lb. r = Inr lb \<longrightarrow> lb_ID lb = lbID \<and> truthful pool_id s' lb)"
    and sleep_holds: "holds s c \<Longrightarrow> holds (rt_Sleep rt d s) c"

subsection \<open>The Gen2 SDK on a documented API\<close>

lemma turns_bind:
  assumes "turns holds m c c' s" "\<And>x s. snd (f x s) = s"
  shows "turns holds (bindM m f) c c' s"
proof -
  obtain r s' where m: "m s = (r, s')" by (cases "m s")
  show ?thesis
  proof (cases r)
    case (Inl e)
    with assms(1) m show ?thesis by (simp add: turns_def bindM_def)
  next
    case (Inr x)
    obtain r' s'' where f: "f x s' = (r', s'')" by (cases "f x s'")
    with assms(2)[of x s'] have "s'' = s'" by simp
    with Inr f assms(1) m show ?thesis by (cases r') (simp_all add: turns_def bindM_def)
  qed
qed

lemma answer_state: "snd (answer f p s) = s" "snd (bindM (deref p) (\<lambda>x. liftM (g x)) s) = s"
  by (cases p; simp add: answer_def deref_def bindM_def split: sum.split)+

lemma turns_raise: "holds s c \<Longrightarrow> turns holds (raiseM e) c c' s"
  by (simp add: turns_def)

lemma turns_unit_of: "turns holds m c c' s \<Longrightarrow> turns holds (unit_of m) c c' s"
  unfolding unit_of_def by (rule turns_bind) (simp_all add: returnM_def)

lemma turns_answer: "turns holds m c c' s \<Longrightarrow> turns holds (bindM m (answer f)) c c' s"
  by (rule turns_bind[OF _ answer_state(1)])

lemma turns_members: "turns holds m c c' s \<Longrightarrow> turns holds (bindM m (\<lambda>p. bindM (deref p) (\<lambda>x. liftM (g x)))) c c' s"
  by (rule turns_bind[OF _ answer_state(2)])

lemma pool_nameE: "pool_name n \<Longrightarrow> \<exists>f. extractFieldsFromPoolName n = Inr f"
  by (cases "extractFieldsFromPoolName n") (simp_all add: pool_name_def)

lemma at_pool_cong:
  assumes "\<And>p. p \<in> set ps \<Longrightarrow> ap_ID p = Old i \<Longrightarrow> f p = g p"
  shows "at_pool i f ps = at_pool i g ps"
proof (cases "find (\<lambda>p. ap_ID p = Old i) ps")
  case (Some p)
  with find_SomeD[OF Some] assms[of p] show ?thesis by (simp add: at_pool_def)
qed (simp add: at_pool_def)

lemma pool_effect_eqs:
  "pool_effect options nodeList (DeletePoolMember n i m t) = (\<lambda>p. if Old m \<in> fst ` set (ap_Members p)
     then Some (p\<lparr>ap_Members := filter (\<lambda>x. fst x \<noteq> Old m) (ap_Members p)\<rparr>) else None)"
  "pool_effect options nodeList (ReplacePoolMembers n i) = (\<lambda>p. Some (p\<lparr>ap_Members := new_members n nodeList\<rparr>))"
  "pool_effect options nodeList (CreatePoolMember n i t) = (\<lambda>p. if (t, pnf_NodePort (name_fields n)) \<in> snd ` set (ap_Members p) then None
     else Some (p\<lparr>ap_Members := ap_Members p @ new_members n [t]\<rparr>))"
  by (simp_all add: fun_eq_iff)

lemma pool_effect_patch:
  assumes "ap_ID p = Old (pool_ID pool)" "ap_Proxy p = pool_ProxyProtocol pool" "extractFieldsFromPoolName n = Inr f"
  shows "pool_effect options nodeList (UpdatePool n (pool_ID pool)) p = Some (abs_patch
    \<lparr>patch_HealthMonitor = genLoadBalancerHealthMonitorUpdate (pnf_NodePort f) (getHealthCheckNodePort options), patch_Name = n,
     patch_ProxyProtocol = (if isProxyProtocol options \<and> pool_ProxyProtocol pool \<noteq> ''v1'' then Some ''v1''
       else if \<not> isProxyProtocol options \<and> pool_ProxyProtocol pool \<noteq> ''disabled'' then Some ''disabled'' else None)\<rparr> p)"
  using assms by (auto simp: abs_patch_def proxy_for_def vpc_consts)

context documented_api
begin

lemma gen2_update_turns:
  assumes "holds s c" "effect options nodeList (UpdatePool n i) c = Some c'" "pool_name n"
    and "find (\<lambda>pool. pool_ID pool = i) pools = Some pool" "same_proxy pools i c"
  shows "turns holds (gen2_UpdateLoadBalancerPool v lbID n pool options) c c' s"
proof -
  obtain f where f: "extractFieldsFromPoolName n = Inr f" using pool_nameE[OF assms(3)] by blast
  have i: "pool_ID pool = i" using assms(4) by (auto simp: find_Some_iff)
  let ?patch = "\<lparr>patch_HealthMonitor = genLoadBalancerHealthMonitorUpdate (pnf_NodePort f) (getHealthCheckNodePort options), patch_Name = n,
     patch_ProxyProtocol = (if isProxyProtocol options \<and> pool_ProxyProtocol pool \<noteq> ''v1'' then Some ''v1''
       else if \<not> isProxyProtocol options \<and> pool_ProxyProtocol pool \<noteq> ''disabled'' then Some ''disabled'' else None)\<rparr>"
  have "pool_effect options nodeList (UpdatePool n i) p = Some (abs_patch ?patch p)" if "p \<in> set (ct_Pools c)" "ap_ID p = Old i" for p
    using that assms(4,5) pool_effect_patch[of p pool n f options nodeList] f i by (simp add: same_proxy_def list_all_iff)
  then have "at_pool i (pool_effect options nodeList (UpdatePool n i)) (ct_Pools c) = at_pool i (\<lambda>p. Some (abs_patch ?patch p)) (ct_Pools c)"
    by (rule at_pool_cong)
  with assms(2) have "api_update_pool i ?patch c = Some c'"
    unfolding api_update_pool_def on_pool_def by (simp only: effect_at_pool pool_target.simps)
  from turns_answer[OF update_pool[OF assms(1) this], of mapLoadBalancerPool]
  show ?thesis by (simp add: gen2_UpdateLoadBalancerPool_def f i answer_def[abs_def] Let_def)
qed

lemma gen2_create_listener_turns:
  assumes "holds s c" "effect options nodeList (CreateListener n) c = Some c'" "pool_name n"
    and "find (\<lambda>r. n = ref_Name r) (lb_Pools lb) = Some r" "truthful pool_id s lb"
  shows "turns holds (gen2_CreateLoadBalancerListener v lbID n (ref_ID r)) c c' s"
proof -
  obtain f where f: "extractFieldsFromPoolName n = Inr f" using pool_nameE[OF assms(3)] by blast
  have r: "r \<in> set (lb_Pools lb)" "ref_Name r = n" using assms(4) by (auto simp: find_Some_iff)
  let ?req = "\<lparr>lp_ConnectionLimit = 15000, lp_DefaultPool = ref_ID r, lp_Port = pnf_Port f, lp_Protocol = pnf_Protocol f\<rparr>"
  have "pool_id s n = Some (lp_DefaultPool ?req)" using r assms(5) by (auto simp: truthful_def list_all_iff)
  moreover have "api_create_listener n ?req c = Some c'"
    using assms(2) f by (auto simp: api_create_listener_def abs_new_listener_def new_listener_def split: option.splits if_splits)
  ultimately have "turns holds (v1_CreateLoadBalancerListener (gen2_Client v) lbID ?req) c c' s" by (rule create_listener[OF assms(1)])
  from turns_answer[OF this, of mapLoadBalancerListener]
  show ?thesis by (simp add: gen2_CreateLoadBalancerListener_def f answer_def[abs_def])
qed

lemma gen2_create_pool_turns:
  assumes "holds s c" "effect options nodeList (CreatePool n) c = Some c'" "pool_name n"
  shows "turns holds (gen2_CreateLoadBalancerPool v lbID n nodeList options) c c' s"
proof -
  obtain f where f: "extractFieldsFromPoolName n = Inr f" using pool_nameE[OF assms(3)] by blast
  from create_pool_request[OF f, of options nodeList v lbID] obtain req where req: "abs_new_pool req = new_pool options nodeList n"
    "gen2_CreateLoadBalancerPool v lbID n nodeList options =
      bindM (v1_CreateLoadBalancerPool (gen2_Client v) lbID req) (answer mapLoadBalancerPool)" by blast
  have "pp_Name req = n" using req(1) by (simp add: abs_new_pool_def new_pool_def)
  with assms(2) req(1) have "api_create_pool req c = Some c'" by (simp add: api_create_pool_def split: if_splits)
  from turns_answer[OF create_pool[OF assms(1) this]] show ?thesis by (simp add: req(2))
qed

lemma gen2_member_turns:
  assumes "holds s c" "pool_name n"
  shows "effect options nodeList (CreatePoolMember n i t) c = Some c' \<Longrightarrow>
      turns holds (gen2_CreateLoadBalancerPoolMember v lbID n i t) c c' s"
    and "effect options nodeList (ReplacePoolMembers n i) c = Some c' \<Longrightarrow>
      turns holds (gen2_ReplaceLoadBalancerPoolMembers v lbID n i nodeList) c c' s"
proof -
  obtain f where f: "extractFieldsFromPoolName n = Inr f" using pool_nameE[OF assms(2)] by blast
  show "turns holds (gen2_CreateLoadBalancerPoolMember v lbID n i t) c c' s"
    if e: "effect options nodeList (CreatePoolMember n i t) c = Some c'"
  proof -
    let ?req = "\<lparr>mp_Port = pnf_NodePort f, mp_TargetAddress = t\<rparr>"
    have "api_create_member i ?req c = Some c'"
      using e by (simp add: api_create_member_def on_pool_def pool_effect_eqs f abs_new_member_def new_members_def cong: if_cong)
    from turns_members[OF create_member[OF assms(1) this], of mapLoadBalancerPoolMember]
    show ?thesis by (simp add: gen2_CreateLoadBalancerPoolMember_def f)
  qed
  show "turns holds (gen2_ReplaceLoadBalancerPoolMembers v lbID n i nodeList) c c' s"
    if e: "effect options nodeList (ReplacePoolMembers n i) c = Some c'"
  proof -
    have "api_replace_members i (genLoadBalancerMembers (pnf_NodePort f) nodeList) c = Some c'"
      using e by (simp add: api_replace_members_def on_pool_def pool_effect_eqs f new_members_def)
    from turns_members[OF replace_members[OF assms(1) this], of map_members]
    show ?thesis by (simp add: gen2_ReplaceLoadBalancerPoolMembers_def f)
  qed
qed

lemma gen2_delete_turns:
  assumes "holds s c"
  shows "effect options nodeList (DeleteListener n i) c = Some c' \<Longrightarrow> turns holds (gen2_DeleteLoadBalancerListener v lbID i) c c' s"
    and "effect options nodeList (DeletePool n i) c = Some c' \<Longrightarrow> turns holds (gen2_DeleteLoadBalancerPool v lbID i) c c' s"
    and "effect options nodeList (DeletePoolMember n i m t) c = Some c' \<Longrightarrow> turns holds (gen2_DeleteLoadBalancerPoolMember v lbID i m) c c' s"
  using delete_listener[OF assms, of i c'] delete_pool[OF assms, of i c'] delete_member[OF assms, of i m c']
  by (simp_all add: api_delete_listener_def api_delete_pool_def api_delete_member_def on_pool_def pool_effect_eqs
      gen2_DeleteLoadBalancerListener_def gen2_DeleteLoadBalancerPool_def gen2_DeleteLoadBalancerPoolMember_def)

lemma gen2_perform_turns:
  assumes "holds s c" "effect options nodeList u c = Some c'" "named u" "lb_ID lb = lbID" "truthful pool_id s lb"
    and "list_all (\<lambda>i. same_proxy pools i c) (updated_pool u)"
  shows "turns holds (perform (VpcSdkGen2_sdk v) lb nodeList pools options u) c c' s"
proof (cases u)
  case (UpdatePool n i)
  then show ?thesis
    using assms turns_unit_of[OF gen2_update_turns[OF assms(1)], of options nodeList n i c' pools]
    by (auto simp: VpcSdkGen2_sdk_def turns_raise split: option.split)
next
  case (CreateListener n)
  then show ?thesis
    using assms turns_unit_of[OF gen2_create_listener_turns[OF assms(1)], of options nodeList n c' lb]
    by (auto simp: VpcSdkGen2_sdk_def turns_raise split: option.split)
qed (use assms gen2_delete_turns[OF assms(1)] turns_unit_of[OF gen2_create_pool_turns[OF assms(1)]]
      turns_unit_of[OF gen2_member_turns(1)[OF assms(1)]] turns_unit_of[OF gen2_member_turns(2)[OF assms(1)]]
     in \<open>simp add: VpcSdkGen2_sdk_def del: effect.simps\<close>)+

lemma gen2_get_current:
  assumes "holds s c" "sdk_GetLoadBalancer (VpcSdkGen2_sdk v) lbID s = (r, s')"
  shows "holds s' c \<and> (\<forall>lb. r = Inr lb \<longrightarrow> lb_ID lb = lbID \<and> truthful pool_id s' lb)"
proof -
  obtain r0 s0 where g: "v1_GetLoadBalancer (gen2_Client v) lbID s = (r0, s0)" by (cases "v1_GetLoadBalancer (gen2_Client v) lbID s")
  have "bindM (v1_GetLoadBalancer (gen2_Client v) lbID) (\<lambda>lb. bindM (deref lb) (\<lambda>lb. returnM (mapLoadBalancer lb))) s = (r, s')"
    using assms(2) by (simp add: VpcSdkGen2_sdk_def gen2_GetLoadBalancer_def)
  then have run: "(case r0 of Inl e \<Rightarrow> (Inl e, s0) | Inr None \<Rightarrow> (Inl nil_dereference, s0) | Inr (Some x) \<Rightarrow> (Inr (mapLoadBalancer x), s0)) = (r, s')"
    using g by (cases r0) (auto simp: bindM_def deref_def split: option.splits)
  have "lb_ID (mapLoadBalancer x) = lbID" if "alb_ID x = Some lbID" for x
    using that by (simp add: mapLoadBalancer_def SafePointerString_def)
  with run get[OF assms(1) g] show ?thesis by (cases r0) (auto split: option.splits)
qed

end

sublocale documented_api \<subseteq> gen2: effects_sdk "VpcSdkGen2_sdk v" rt lbID holds pool_id
proof (unfold_locales, goal_cases)
  case (1 s c options nodeList u c' lb pools)
  then show ?case by (rule gen2_perform_turns)
next
  case (2 s c r s')
  then show ?case by (rule gen2_get_current)
next
  case (3 s c d)
  then show ?case by (rule sleep)
qed


subsection \<open>Running a plan\<close>

text \<open>Operations other than its own update leave the proxy protocol of an existing pool alone.\<close>

lemma effect_same_proxy:
  assumes "effect options nodeList u c = Some c'" "i \<notin> set (updated_pool u)" "same_proxy pools i c"
  shows "same_proxy pools i c'"
proof -
  have "\<exists>q \<in> set (ct_Pools c). ap_ID q = Old i \<and> ap_Proxy q = ap_Proxy p" if p: "p \<in> set (ct_Pools c')" "ap_ID p = Old i" for p
  proof (cases "pool_target u")
    case None
    then show ?thesis using assms(1) p by (cases u) (auto simp: new_pool_def split: if_splits option.splits)
  next
    case (Some j)
    obtain x q where x: "x \<in> set (ct_Pools c)" "ap_ID x = Old j" "pool_effect options nodeList u x = Some q"
      "ct_Pools c' = map (\<lambda>y. if ap_ID y = Old j then q else y) (ct_Pools c)"
      using assms(1) unfolding effect_at_pool[OF Some] at_pool_def by (auto split: option.splits dest: find_SomeD)
    have q: "ap_ID q = Old j" using pool_effect_ID[OF x(3)] x(2) by simp
    have "ap_Proxy q = ap_Proxy x" if "i = j" using x(3) assms(2) that Some by (cases u) (auto split: if_splits)
    with p x q show ?thesis by (cases "i = j") (auto split: if_splits)
  qed
  with assms(3) show ?thesis by (force simp: same_proxy_def list_all_iff split: option.splits)
qed

context effects_sdk
begin

text \<open>Waiting and polling leave the content alone and give a current load-balancer object.\<close>

lemma waitLoop_current:
  "holds s c \<Longrightarrow> lb_ID lb = lbID \<Longrightarrow> truthful pool_id s lb \<Longrightarrow> waitLoop rt sdk lbID st ms mw n lb s = (r, s') \<Longrightarrow>
   holds s' c \<and> (\<forall>lb'. r = Inr lb' \<longrightarrow> lb_ID lb' = lbID \<and> truthful pool_id s' lb')"
proof (induction n arbitrary: lb s)
  case (Suc n)
  show ?case
  proof (cases "IsReady lb \<or> rt_Now rt s - st > mw * second")
    case True
    with Suc.prems show ?thesis by (auto split: if_splits)
  next
    case False
    obtain r1 s1 where g: "sdk_GetLoadBalancer sdk lbID (rt_Sleep rt (second * ms) s) = (r1, s1)"
      by (cases "sdk_GetLoadBalancer sdk lbID (rt_Sleep rt (second * ms) s)")
    note current = get_current[OF sleep_holds[OF Suc.prems(1)] g]
    from False Suc.prems(4) g have run: "(case r1 of Inl e \<Rightarrow> (Inl e, s1) | Inr lb1 \<Rightarrow> waitLoop rt sdk lbID st ms mw n lb1 s1) = (r, s')"
      by (auto simp: bindM_def split: sum.splits)
    show ?thesis
    proof (cases r1)
      case (Inl e)
      with run current show ?thesis by auto
    next
      case (Inr lb1)
      with run current Suc.IH[of s1 lb1] show ?thesis by simp
    qed
  qed
qed auto

lemma refresh_current:
  assumes "holds s c" "lb_ID lb = lbID" "refreshLoadBalancer rt sdk lb s = (r, s')"
  shows "holds s' c \<and> (\<forall>lb'. r = Inr lb' \<longrightarrow> lb_ID lb' = lbID \<and> truthful pool_id s' lb')"
proof -
  obtain r1 s1 where g: "sdk_GetLoadBalancer sdk lbID s = (r1, s1)" by (cases "sdk_GetLoadBalancer sdk lbID s")
  note current = get_current[OF assms(1) g]
  show ?thesis
  proof (cases r1)
    case (Inl e)
    with assms(2,3) g current show ?thesis by (simp add: refreshLoadBalancer_def bindM_def Let_def)
  next
    case (Inr lb1)
    with current have lb1: "holds s1 c" "lb_ID lb1 = lbID" "truthful pool_id s1 lb1" by auto
    show ?thesis
    proof (cases "IsReady lb1")
      case True
      with Inr assms(2,3) g lb1 show ?thesis by (auto simp: refreshLoadBalancer_def bindM_def Let_def)
    next
      case False
      with Inr assms(2,3) g have "WaitLoadBalancerReady rt sdk lb1 8 120 s1 = (r, s')"
        by (simp add: refreshLoadBalancer_def bindM_def Let_def)
      then have "waitLoop rt sdk lbID (rt_Now rt s1) 8 120 (nat (120 sdiv 8)) lb1 s1 = (r, s')"
        using lb1(2) by (simp add: WaitLoadBalancerReady_def)
      then show ?thesis by (rule waitLoop_current[OF lb1])
    qed
  qed
qed

text \<open>The operations of a plan, one after the other: the content in the end, or where the run stopped.\<close>

lemma run_ops_effects:
  assumes "exec (effect options nodeList) us c = Some c'" "holds s c" "lb_ID lb = lbID" "i = 0 \<longrightarrow> truthful pool_id s lb"
    and "list_all named us" "distinct (concat (map updated_pool us))" "list_all (\<lambda>i. same_proxy pools i c) (concat (map updated_pool us))"
    and "run_ops rt sdk (\<lambda>lb. perform sdk lb nodeList pools options) i lb us s = (r, s')"
  shows "case r of
      Inl _ \<Rightarrow> \<exists>k c''. exec (effect options nodeList) (take k us) c = Some c'' \<and> holds s' c''
    | Inr _ \<Rightarrow> holds s' c'"
  using assms
proof (induction us arbitrary: c s i lb)
  case Nil
  then show ?case by auto
next
  case (Cons u us)
  obtain c1 where c1: "effect options nodeList u c = Some c1" "exec (effect options nodeList) us c1 = Some c'"
    using Cons.prems(1) by (auto split: option.splits)
  obtain r1 s1 where get: "(if i > 0 then refreshLoadBalancer rt sdk lb else returnM lb) s = (r1, s1)"
    by (cases "(if i > 0 then refreshLoadBalancer rt sdk lb else returnM lb) s")
  have current: "holds s1 c \<and> (\<forall>lb'. r1 = Inr lb' \<longrightarrow> lb_ID lb' = lbID \<and> truthful pool_id s1 lb')"
    using get refresh_current[OF Cons.prems(2,3)] Cons.prems(2-4) by (cases "i > 0") auto
  show ?case
  proof (cases r1)
    case (Inl e)
    with Cons.prems(8) get current have "r = Inl e" "s' = s1" by (auto simp: bindM_def)
    with current show ?thesis by (auto intro: exI[of _ 0])
  next
    case (Inr lb1)
    with current have lb1: "holds s1 c" "lb_ID lb1 = lbID" "truthful pool_id s1 lb1" by auto
    obtain r2 s2 where act: "perform sdk lb1 nodeList pools options u s1 = (r2, s2)" by (cases "perform sdk lb1 nodeList pools options u s1")
    have turned: "turns holds (perform sdk lb1 nodeList pools options u) c c1 s1"
      using Cons.prems(5,7) by (intro perform_turns[OF lb1(1) c1(1) _ lb1(2,3)]) simp_all
    show ?thesis
    proof (cases r2)
      case e: (Inl e)
      with Cons.prems(8) get Inr act have r: "r = Inl e" "s' = s2" by (auto simp: bindM_def)
      from turned act e have "holds s2 c \<or> holds s2 c1" by (simp add: turns_def)
      then show ?thesis
      proof
        assume "holds s2 c"
        then show ?thesis using r by (auto intro: exI[of _ 0])
      next
        assume "holds s2 c1"
        then show ?thesis using r c1(1) by (auto intro!: exI[of _ 1])
      qed
    next
      case ok: (Inr x)
      with Cons.prems(8) get Inr act have rest: "run_ops rt sdk (\<lambda>lb. perform sdk lb nodeList pools options) (Suc i) lb1 us s2 = (r, s')"
        by (auto simp: bindM_def)
      from turned act ok have h: "holds s2 c1" by (simp add: turns_def)
      have "same_proxy pools j c1" if "j \<in> set (concat (map updated_pool us))" for j
      proof (rule effect_same_proxy[OF c1(1)])
        show "j \<notin> set (updated_pool u)" using Cons.prems(6) that by auto
        show "same_proxy pools j c" using Cons.prems(7) that by (auto simp: list_all_iff)
      qed
      then have proxies: "list_all (\<lambda>i. same_proxy pools i c1) (concat (map updated_pool us))" by (simp only: list_all_iff) blast
      from Cons.IH[OF c1(2) h lb1(2) _ _ _ proxies rest] Cons.prems(5,6) have IH: "case r of
          Inl _ \<Rightarrow> \<exists>k c''. exec (effect options nodeList) (take k us) c1 = Some c'' \<and> holds s' c''
        | Inr _ \<Rightarrow> holds s' c'" by simp
      show ?thesis
      proof (cases r)
        case (Inl e)
        with IH obtain k c'' where "exec (effect options nodeList) (take k us) c1 = Some c''" "holds s' c''" by auto
        with Inl c1(1) show ?thesis by (auto intro!: exI[of _ "Suc k"])
      next
        case (Inr lb')
        with IH show ?thesis by simp
      qed
    qed
  qed
qed

end


context documented_api
begin

lemmas gen2_run_ops = gen2.run_ops_effects

end

subsection \<open>The plan of an update\<close>

lemma merge_from_updated: "concat (map updated_pool (merge_from mu d us)) = concat (map updated_pool us)"
proof (induction us arbitrary: d)
  case (Cons u us)
  have "member_update u = Some x \<Longrightarrow> updated_pool u = []" for x by (cases u) simp_all
  with Cons show ?case by (auto split: option.splits)
qed simp

lemma merge_from_named: "list_all named us \<Longrightarrow> list_all named (merge_from mu d us)"
proof (induction us arbitrary: d)
  case (Cons u us)
  have "member_update u = Some (n, i) \<Longrightarrow> named u \<Longrightarrow> pool_name n" for n i by (cases u) simp_all
  with Cons show ?case by (auto split: option.splits)
qed simp

lemma updated_pool_ops:
  "concat (map updated_pool (ops_listener_deleted ports l)) = []" "concat (map updated_pool (ops_pool_deleted ports p)) = []"
  "concat (map updated_pool (ops_nodes_deleted ports nodeList p)) = []" "concat (map updated_pool (ops_nodes_added ports nodeList p)) = []"
  "concat (map updated_pool (ops_port_added listeners pools kp)) = []"
  "concat (map updated_pool (ops_service_changes service p)) \<in> {[], [pool_ID p]}"
  by (auto simp: ops_listener_deleted_def ops_pool_deleted_def ops_nodes_deleted_def ops_nodes_added_def ops_port_added_def
      ops_service_changes_def split: option.splits)

lemma concat_map_concat: "concat (map f (concat (map g xs))) = concat (map (\<lambda>x. concat (map f (g x))) xs)"
  by (induction xs) simp_all

lemma concat_nil: "concat (map (\<lambda>x. []) xs) = []"
  by (induction xs) simp_all

lemma distinct_concat_ids:
  "distinct (map f xs) \<Longrightarrow> (\<And>x. g x \<in> {[], [f x]}) \<Longrightarrow> distinct (concat (map g xs)) \<and> set (concat (map g xs)) \<subseteq> f ` set xs"
proof (induction xs)
  case (Cons x xs)
  have "g x = [] \<or> g x = [f x]" using Cons.prems(2)[of x] by simp
  moreover have "distinct (concat (map g xs)) \<and> set (concat (map g xs)) \<subseteq> f ` set xs" using Cons.IH Cons.prems by simp
  ultimately show ?case using Cons.prems(1) by (elim disjE) auto
qed simp

lemma plan_updated_distinct:
  "distinct (map pool_ID pools) \<Longrightarrow> distinct (concat (map updated_pool (plan listeners pools service nodeList)))"
  using distinct_concat_ids[of pool_ID pools "\<lambda>p. concat (map updated_pool (ops_service_changes service p))"] updated_pool_ops(6)
  by (simp add: plan_def merge_def merge_from_updated raw_plan_def Let_def concat_map_concat updated_pool_ops(1-5) concat_nil)

lemma wf_names: "wf_pool p \<Longrightarrow> pool_name (pool_Name p)" "wf_port kp \<Longrightarrow> pool_name (genLoadBalancerPoolName kp)"
  by (auto simp: wf_pool_def pool_fields_def pool_name_def wf_port_fields split: sum.splits)

lemma plan_named:
  assumes "wf_inputs listeners pools service nodeList"
  shows "list_all named (plan listeners pools service nodeList)"
proof -
  have p: "list_all named (ops_nodes_deleted ports nodeList p) \<and> list_all named (ops_nodes_added ports nodeList p)" if "p \<in> set pools" for p ports
    using that assms wf_names(1)[of p] by (auto simp: wf_inputs_def list_all_iff ops_nodes_deleted_def ops_nodes_added_def)
  have s: "list_all named (ops_service_changes service p)" for p
  proof (cases "find (\<lambda>kp. serves kp p) (svc_Ports service)")
    case (Some kp)
    with find_SomeD[OF Some] assms wf_names(2)[of kp] show ?thesis by (auto simp: wf_inputs_def list_all_iff ops_service_changes_def)
  qed (simp add: ops_service_changes_def)
  have a: "list_all named (ops_port_added listeners pools kp)" if "kp \<in> set (svc_Ports service)" for kp
    using that assms wf_names(2)[of kp] by (auto simp: wf_inputs_def list_all_iff ops_port_added_def)
  have d: "list_all named (ops_listener_deleted ports l)" "list_all named (ops_pool_deleted ports p)" for ports l p
    by (simp_all add: ops_listener_deleted_def ops_pool_deleted_def)
  have "list_all named (raw_plan listeners pools service nodeList)"
    using p s a d by (auto simp: raw_plan_def Let_def list_all_iff)
  then show ?thesis unfolding plan_def merge_def by (rule merge_from_named)
qed

lemma listed_same_proxy:
  assumes "distinct (map pool_ID pools)"
  shows "same_proxy (map (marked ports) pools) i (abs_content listeners pools)"
proof -
  have same: "ap_Proxy p = pool_ProxyProtocol pool"
    if f: "find (\<lambda>pool. pool_ID pool = i) (map (marked ports) pools) = Some pool" and p: "p \<in> set (map abs_pool pools)" "ap_ID p = Old i" for p pool
  proof -
    obtain q where q: "q \<in> set pools" "pool = marked ports q" "pool_ID pool = i" using find_SomeD[OF f] by auto
    obtain q' where q': "q' \<in> set pools" "p = abs_pool q'" using p(1) by auto
    have "pool_ID q = pool_ID q'" using q q' p(2) by (simp add: marked_def abs_pool_def split: if_splits)
    with assms q(1) q'(1) have "q = q'" by (metis distinct_map inj_onD)
    with q q' show ?thesis by (simp add: marked_def abs_pool_def)
  qed
  then show ?thesis by (simp add: same_proxy_def abs_content_def list_all_iff split: option.split)
qed

subsection \<open>A reference service\<close>

text \<open>The state is the content itself; a load balancer is always ready, and a request that is not allowed is answered with an error.\<close>

fun oid_text :: "oid \<Rightarrow> string" where
  "oid_text (Old i) = i"
| "oid_text (New n) = ''new-'' @ n"

definition pool_by_id :: "content \<Rightarrow> string \<Rightarrow> apool option" where
  "pool_by_id c i = find (\<lambda>p. oid_text (ap_ID p) = i) (ct_Pools c)"

definition reference_pool_id :: "content \<Rightarrow> string \<Rightarrow> string option" where
  "reference_pool_id c n =
     (case find (\<lambda>p. ap_Name p = n) (ct_Pools c) of
        None \<Rightarrow> None
      | Some p \<Rightarrow>
          if map_option ap_Name (pool_by_id c (oid_text (ap_ID p))) = Some n then Some (oid_text (ap_ID p)) else None)"

definition answered :: "'a \<Rightarrow> (content \<Rightarrow> content option) \<Rightarrow> (content, 'a) io" where
  "answered x f c = (case f c of None \<Rightarrow> (Inl (Err ''conflict''), c) | Some c' \<Rightarrow> (Inr x, c'))"

definition api_member_of :: "oid \<times> string \<times> int64 \<Rightarrow> ApiMember" where
  "api_member_of m = ex_api_member\<lparr>amem_ID := Some (oid_text (fst m)), amem_Port := Some (snd (snd m)),
     amem_Target := Some (MemberTarget (Some (fst (snd m))) None)\<rparr>"

definition api_pool_of :: "apool \<Rightarrow> ApiPool" where
  "api_pool_of p = ex_api_pool\<lparr>apl_ID := Some (oid_text (ap_ID p)), apl_Name := Some (ap_Name p), apl_ProxyProtocol := Some (ap_Proxy p),
     apl_HealthMonitor := Some \<lparr>ahm_Delay = None, ahm_MaxRetries = None, ahm_Port = Some (snd (ap_Monitor p)), ahm_Timeout = None,
       ahm_Type = Some (fst (ap_Monitor p)), ahm_URLPath = None\<rparr>,
     apl_Members := map (\<lambda>m. Some (oid_text (fst m))) (ap_Members p)\<rparr>"

definition api_ref_of :: "content \<Rightarrow> apool \<Rightarrow> ApiRef list" where
  "api_ref_of c p = (case reference_pool_id c (ap_Name p) of
     None \<Rightarrow> [] | Some i \<Rightarrow> [\<lparr>aref_ID = Some i, aref_Name = Some (ap_Name p)\<rparr>])"

definition api_listener_of :: "content \<Rightarrow> alistener \<Rightarrow> ApiListener" where
  "api_listener_of c l = ex_api_listener\<lparr>alsn_ID := Some (oid_text (al_ID l)), alsn_Port := Some (al_Port l), alsn_Protocol := Some (al_Protocol l),
     alsn_DefaultPool := Some \<lparr>aref_ID = Some (oid_text (al_Pool l)), aref_Name = map_option ap_Name (pool_by_id c (oid_text (al_Pool l)))\<rparr>\<rparr>"

definition reference_client :: "content VpcV1" where
  "reference_client = \<lparr>v1_CreateLoadBalancer = (\<lambda>r. answered (Some ex_api_lb) (\<lambda>_. Some (abs_create r))),
     v1_CreateLoadBalancerListener = (\<lambda>i r. answered (Some ex_api_listener) (\<lambda>c.
       case pool_by_id c (lp_DefaultPool r) of None \<Rightarrow> None | Some p \<Rightarrow> api_create_listener (ap_Name p) r c)),
     v1_CreateLoadBalancerPool = (\<lambda>i r. answered (Some ex_api_pool) (api_create_pool r)),
     v1_CreateLoadBalancerPoolMember = (\<lambda>i j r. answered (Some ex_api_member) (api_create_member j r)),
     v1_DeleteLoadBalancer = (\<lambda>i. answered () (\<lambda>_. Some \<lparr>ct_Listeners = [], ct_Pools = []\<rparr>)),
     v1_DeleteLoadBalancerListener = (\<lambda>i j. answered () (api_delete_listener j)),
     v1_DeleteLoadBalancerPool = (\<lambda>i j. answered () (api_delete_pool j)),
     v1_DeleteLoadBalancerPoolMember = (\<lambda>i j k. answered () (api_delete_member j k)),
     v1_GetLoadBalancer = (\<lambda>i c. (Inr (Some (ex_api_lb\<lparr>alb_ID := Some i, alb_Pools := concat (map (api_ref_of c) (ct_Pools c))\<rparr>)), c)),
     v1_GetSubnet = (\<lambda>i. answered (Some ex_api_subnet) Some),
     v1_ListLoadBalancers = (\<lambda>start c. (Inr (Some \<lparr>page_Items = [ex_api_lb\<lparr>alb_Pools := concat (map (api_ref_of c) (ct_Pools c))\<rparr>],
       page_NextHref = None\<rparr>), c)),
     v1_ListLoadBalancerListeners = (\<lambda>i c. (Inr (Some (map (api_listener_of c) (ct_Listeners c))), c)),
     v1_ListLoadBalancerPools = (\<lambda>i c. (Inr (Some (map api_pool_of (ct_Pools c))), c)),
     v1_ListLoadBalancerPoolMembers = (\<lambda>i j c. (Inr (map_option (\<lambda>p. map api_member_of (ap_Members p)) (pool_by_id c j)), c)),
     v1_ListSubnets = (\<lambda>start. answered (Some \<lparr>page_Items = [ex_api_subnet], page_NextHref = None\<rparr>) Some),
     v1_ReplaceLoadBalancerPoolMembers = (\<lambda>i j r. answered (Some [ex_api_member]) (api_replace_members j r)),
     v1_UpdateLoadBalancerPool = (\<lambda>i j r. answered (Some ex_api_pool) (api_update_pool j r))\<rparr>"

definition reference_gen2 :: "content VpcSdkGen2" where
  "reference_gen2 = \<lparr>gen2_Client = reference_client, gen2_Config = ex_config, gen2_start = (\<lambda>_. Inr ''2''), gen2_fuel = 10\<rparr>"

definition reference_runtime :: "content Runtime" where
  "reference_runtime = \<lparr>rt_Now = (\<lambda>_. 0), rt_Sleep = (\<lambda>_ c. c), rt_range = (\<lambda>_ ks. ks)\<rparr>"

lemma turns_answered: "f c = Some c' \<Longrightarrow> turns (=) (answered x f) c c' c"
  by (simp add: turns_def answered_def)

lemma reference_refs: "truthful reference_pool_id c (mapLoadBalancer (lb\<lparr>alb_Pools := concat (map (api_ref_of c) ps)\<rparr>))"
  by (auto simp: truthful_def mapLoadBalancer_def list_all_iff api_ref_of_def mapRef_def SafePointerString_def split: option.splits)

lemma reference_pool_idD: "reference_pool_id c n = Some i \<Longrightarrow> \<exists>p. pool_by_id c i = Some p \<and> ap_Name p = n"
  by (auto simp: reference_pool_id_def split: option.splits if_splits)

interpretation reference: documented_api reference_gen2 reference_runtime lbID "(=)" reference_pool_id
proof (unfold_locales, goal_cases)
  case (8 s c n lreq c')
  then have "(case pool_by_id c (lp_DefaultPool lreq) of None \<Rightarrow> None | Some p \<Rightarrow> api_create_listener (ap_Name p) lreq c) = Some c'"
    using reference_pool_idD[of c n "lp_DefaultPool lreq"] by auto
  with 8(1) show ?case by (simp add: reference_gen2_def reference_client_def turns_answered)
next
  case (9 s c r s')
  then show ?case using reference_refs[where c = c and lb = "ex_api_lb\<lparr>alb_ID := Some lbID\<rparr>" and ps = "ct_Pools c"]
    by (auto simp: reference_gen2_def reference_client_def)
qed (simp_all add: reference_gen2_def reference_client_def reference_runtime_def turns_answered)

subsection \<open>The proxy protocol\<close>

text \<open>
  \<open>in_sync\<close> asks nothing of the proxy protocol of pools that were just created, which have the default of the VPC whatever the service asks for.
  \<open>brought\<close> says all of it: every pool has the proxy protocol of the service, except pools under names that were not there before, which have none.
\<close>

definition brought :: "Service \<Rightarrow> string list \<Rightarrow> content \<Rightarrow> content \<Rightarrow> bool" where
  "brought service nodeList before c \<longleftrightarrow> in_sync service nodeList c \<and>
     list_all (\<lambda>p. ap_Proxy p = proxy_for (getServiceOptions (Some service)) \<or>
       ap_Proxy p = LoadBalancerProxyProtocolDisabled \<and> ap_Name p \<notin> ap_Name ` set (ct_Pools before)) (ct_Pools c)"

lemma brought_in_sync: "brought service nodeList before c \<Longrightarrow> in_sync service nodeList c"
  by (simp add: brought_def)

text \<open>A service without the option is in sync in every respect.\<close>

lemma brought_without_proxy:
  "brought service nodeList before c \<Longrightarrow> \<not> isProxyProtocol (getServiceOptions (Some service)) \<Longrightarrow> p \<in> set (ct_Pools c) \<Longrightarrow>
   ap_Proxy p = proxy_for (getServiceOptions (Some service))"
  by (auto simp: brought_def list_all_iff proxy_for_def)

lemma on_existing_pool:
  assumes "effect options nodeList u c = Some c'" "pool_target u = Some i"
  obtains x q where "x \<in> set (ct_Pools c)" "ap_ID x = Old i" "pool_effect options nodeList u x = Some q" "ap_ID q = Old i"
    "c' = c\<lparr>ct_Pools := map (\<lambda>y. if ap_ID y = Old i then q else y) (ct_Pools c)\<rparr>"
proof -
  obtain x q where x: "x \<in> set (ct_Pools c)" "ap_ID x = Old i" "pool_effect options nodeList u x = Some q"
    "c' = c\<lparr>ct_Pools := map (\<lambda>y. if ap_ID y = Old i then q else y) (ct_Pools c)\<rparr>"
    using assms(1) unfolding effect_at_pool[OF assms(2)] at_pool_def by (auto split: option.splits dest: find_SomeD)
  with pool_effect_ID[OF x(3)] that show ?thesis by simp
qed

lemma exec_keeps:
  assumes "\<And>u c c'. u \<in> set us \<Longrightarrow> P c \<Longrightarrow> f u c = Some c' \<Longrightarrow> P c'"
  shows "P c \<Longrightarrow> exec f us c = Some c' \<Longrightarrow> P c'"
  using assms
proof (induction us arbitrary: c)
  case (Cons u us)
  from Cons.prems(2) obtain c1 where c1: "f u c = Some c1" "exec f us c1 = Some c'" by (auto split: option.splits)
  show ?case
  proof (rule Cons.IH[OF _ c1(2)])
    show "P c1" using Cons.prems(3)[OF _ Cons.prems(1) c1(1)] by simp
    show "P d'" if "v \<in> set us" "P d" "f v d = Some d'" for v d d' using Cons.prems(3)[OF _ that(2,3)] that(1) by simp
  qed
qed simp

text \<open>Pools are created under names that were not there.\<close>

lemma merge_from_creates: "CreatePool n \<in> set (merge_from mu d us) \<Longrightarrow> CreatePool n \<in> set us"
proof (induction us arbitrary: d)
  case (Cons u us)
  then show ?case by (auto split: option.splits if_splits)
qed simp

lemma plan_creates_absent:
  assumes "list_all wf_port (svc_Ports service)" "CreatePool n \<in> set (plan listeners pools service nodeList)"
  shows "n \<notin> pool_Name ` set pools"
proof
  assume "n \<in> pool_Name ` set pools"
  then obtain p where p: "p \<in> set pools" "pool_Name p = n" by auto
  have "CreatePool n \<in> set (raw_plan listeners pools service nodeList)"
    using assms(2) unfolding plan_def merge_def by (rule merge_from_creates)
  then obtain kp where kp: "kp \<in> set (svc_Ports service)" "n = genLoadBalancerPoolName kp" "\<not> list_ex (serves kp) pools"
    by (auto simp: raw_plan_def Let_def ops_listener_deleted_def ops_pool_deleted_def ops_nodes_deleted_def ops_service_changes_def
        ops_nodes_added_def ops_port_added_def split: if_splits option.splits)
  with assms(1) p wf_port_serves(1)[of kp p] show False by (auto simp: list_all_iff list_ex_iff)
qed

definition new_pools_of :: "operation list \<Rightarrow> content \<Rightarrow> bool" where
  "new_pools_of us c = list_all (\<lambda>p. \<forall>n. ap_ID p = New n \<longrightarrow>
     ap_Name p = n \<and> ap_Proxy p = LoadBalancerProxyProtocolDisabled \<and> CreatePool n \<in> set us) (ct_Pools c)"

lemma effect_new_pools:
  assumes "u \<in> set us" "new_pools_of us c" "effect options nodeList u c = Some c'"
  shows "new_pools_of us c'"
proof (cases "pool_target u")
  case (Some i)
  from on_existing_pool[OF assms(3) this] obtain q where "ap_ID q = Old i"
    "c' = c\<lparr>ct_Pools := map (\<lambda>y. if ap_ID y = Old i then q else y) (ct_Pools c)\<rparr>" by metis
  with assms(2) show ?thesis by (auto simp: new_pools_of_def list_all_iff)
next
  case None
  then show ?thesis by (cases u; insert assms; auto simp: new_pools_of_def list_all_iff new_pool_def split: if_splits option.splits)
qed

lemma plan_brings:
  assumes "list_all wf_port (svc_Ports service)" "in_sync service nodeList c"
    and "exec (effect (getServiceOptions (Some service)) nodeList) (plan listeners pools service nodeList) (abs_content listeners pools) = Some c"
  shows "brought service nodeList (abs_content listeners pools) c"
proof -
  let ?us = "plan listeners pools service nodeList"
  have start: "new_pools_of ?us (abs_content listeners pools)" by (simp add: new_pools_of_def abs_content_def abs_pool_def list_all_iff)
  have new: "new_pools_of ?us c" by (rule exec_keeps[where P = "new_pools_of ?us", OF _ start assms(3)]) (rule effect_new_pools)
  have names: "ap_Name ` set (ct_Pools (abs_content listeners pools)) = pool_Name ` set pools"
    by (simp add: abs_content_def abs_pool_def image_image)
  have "ap_Proxy p = proxy_for (getServiceOptions (Some service)) \<or>
      ap_Proxy p = LoadBalancerProxyProtocolDisabled \<and> ap_Name p \<notin> pool_Name ` set pools" if p: "p \<in> set (ct_Pools c)" for p
  proof (cases "ap_ID p")
    case (Old i)
    with assms(2) p show ?thesis by (auto simp: in_sync_def pool_in_sync_def list_all_iff list_ex_iff)
  next
    case (New n)
    with new p have created: "ap_Name p = n" "ap_Proxy p = LoadBalancerProxyProtocolDisabled" "CreatePool n \<in> set ?us"
      by (auto simp: new_pools_of_def list_all_iff)
    with plan_creates_absent[OF assms(1) created(3)] show ?thesis by simp
  qed
  with assms(2) show ?thesis by (simp add: brought_def names list_all_iff)
qed

subsection \<open>Properties\<close>

definition ex_content :: content where
  "ex_content = abs_content ex_listeners ex_pools"

definition reference_cloud :: "content CloudVpc" where
  "reference_cloud = \<lparr>vpc_Config = ex_config, vpc_Sdk = VpcSdkGen2_sdk reference_gen2, vpc_Recorder = None\<rparr>"

definition listed :: "(content \<Rightarrow> 'a res \<times> content) \<Rightarrow> 'a \<Rightarrow> 'a" where
  "listed m x = (case fst (m ex_content) of Inl _ \<Rightarrow> x | Inr y \<Rightarrow> y)"

text \<open>
  The whole stack: a run of \<open>UpdateLoadBalancer\<close> leaves what some first operations of its plan leave, all of them when it succeeds, and then
  the load balancer is in sync.
\<close>

lemma update_run:
  assumes "documented_api v rt (lb_ID lb) holds pool_id" "vpc_Sdk c = VpcSdkGen2_sdk v"
    and "IsReady lb" "validateService service = Inr options" "validateServiceTypeNotUpdated options lb = Inr ()"
    and "sdk_ListSubnets (vpc_Sdk c) s = (Inr subnets, s1)"
    and "validateServiceSubnetsNotUpdated (rt_range rt s1) service lb subnets = Inr ()"
    and "nodeList = getNodeIDs (selectNodes service (getServiceZone options) nodes)"
    and "selectNodes service (getServiceZone options) nodes \<noteq> []"
    and "sdk_ListLoadBalancerListeners (vpc_Sdk c) (lb_ID lb) s1 = (Inr listeners, s2)"
    and "sdk_ListLoadBalancerPools (vpc_Sdk c) (lb_ID lb) s2 = (Inr pools, s3)"
    and "holds s3 (abs_content listeners pools)" "truthful pool_id s3 lb"
    and "wf_inputs listeners pools service nodeList" "consistent listeners pools" "distinct_ports service" "distinct nodeList"
    and "UpdateLoadBalancer rt c (Some lb) (Some service) (Some nodes) s = (r, s')"
  shows "\<exists>k content. holds s' content \<and> (\<not> isl r \<longrightarrow> brought service nodeList (abs_content listeners pools) content) \<and>
    exec (effect options nodeList) (take k (plan listeners pools service nodeList)) (abs_content listeners pools) = Some content"
proof -
  have options: "options = getServiceOptions (Some service)" using okR_validateService[of service] assms(4) by simp
  have ids: "distinct (map pool_ID pools)" using assms(15) by (simp add: consistent_def)
  obtain goal where goal: "exec (effect options nodeList) (plan listeners pools service nodeList) (abs_content listeners pools) = Some goal"
      "in_sync service nodeList goal"
    using plan_reaches_sync[OF wf_inputs_ports[OF assms(14)] assms(16,15,17)] options by blast
  have brought: "brought service nodeList (abs_content listeners pools) goal"
    using plan_brings[OF wf_inputs_ports(1)[OF assms(14)] goal(2)] goal(1) options by simp
  have run: "run_ops rt (VpcSdkGen2_sdk v) (\<lambda>lb. perform (VpcSdkGen2_sdk v) lb nodeList (map (marked (svc_Ports service)) pools) options) 0 lb
      (plan listeners pools service nodeList) s3 = (r, s')"
    using assms(2,18) UpdateLoadBalancer_run_ops[OF assms(3-11,14)] by simp
  have proxies: "list_all (\<lambda>i. same_proxy (map (marked (svc_Ports service)) pools) i (abs_content listeners pools))
      (concat (map updated_pool (plan listeners pools service nodeList)))"
    using listed_same_proxy[OF ids] by (simp add: list_all_iff)
  note ran = documented_api.gen2_run_ops[OF assms(1) goal(1) assms(12) refl impI[OF assms(13)] plan_named[OF assms(14)] plan_updated_distinct[OF ids]
      proxies run]
  show ?thesis
  proof (cases r)
    case (Inl e)
    with ran show ?thesis by auto
  next
    case (Inr lb')
    with ran goal brought show ?thesis by (intro exI[of _ "length (plan listeners pools service nodeList)"] exI[of _ goal]) simp
  qed
qed

text \<open>C4: The whole stack. \<open>UpdateLoadBalancer\<close> runs on the Gen2 SDK on a VPC service whose requests do what is documented, starting with a
  load balancer that is ready and consistent and was listed as the service holds it. When the update succeeds, what the
  service holds afterwards is in sync with the Kubernetes service and the nodes (\<open>in_sync\<close>: one pool and one listener per port, names, members,
  health checks) but for the proxy protocol of the pools that this very update created: these have none, even if the service asks for it, as
  \<open>CreateLoadBalancerPool\<close> does not send it; every pool whose name was there before has the proxy protocol that the service asks for.
  So without the proxy-protocol option, or when no pool was added, nothing is left to do. When it fails (a request is refused, or fails after it
  was carried out, or the load balancer does not get ready), what the service holds is what some first operations of the plan
  leave: nothing else was changed.\<close>

theorem update_synchronizes_vpc:
  assumes "documented_api v rt (lb_ID lb) holds pool_id" "vpc_Sdk c = VpcSdkGen2_sdk v"
    and "IsReady lb" "validateService service = Inr options" "validateServiceTypeNotUpdated options lb = Inr ()"
    and "sdk_ListSubnets (vpc_Sdk c) s = (Inr subnets, s1)"
    and "validateServiceSubnetsNotUpdated (rt_range rt s1) service lb subnets = Inr ()"
    and "nodeList = getNodeIDs (selectNodes service (getServiceZone options) nodes)"
    and "selectNodes service (getServiceZone options) nodes \<noteq> []"
    and "sdk_ListLoadBalancerListeners (vpc_Sdk c) (lb_ID lb) s1 = (Inr listeners, s2)"
    and "sdk_ListLoadBalancerPools (vpc_Sdk c) (lb_ID lb) s2 = (Inr pools, s3)"
    and "holds s3 (abs_content listeners pools)" "truthful pool_id s3 lb"
    and "wf_inputs listeners pools service nodeList" "consistent listeners pools" "distinct_ports service" "distinct nodeList"
    and "UpdateLoadBalancer rt c (Some lb) (Some service) (Some nodes) s = (r, s')"
  shows "case r of
      Inr _ \<Rightarrow> \<exists>content. holds s' content \<and> brought service nodeList (abs_content listeners pools) content
    | Inl _ \<Rightarrow> \<exists>k content. holds s' content \<and>
        exec (effect options nodeList) (take k (plan listeners pools service nodeList)) (abs_content listeners pools) = Some content"
  using update_run[OF assms] by (cases r) auto

text \<open>An update of the reference service: a listener and a pool are deleted, members replaced, and a pool and a listener created.\<close>

definition ex_lb :: VpcLoadBalancer where
  "ex_lb = listed (sdk_GetLoadBalancer (vpc_Sdk reference_cloud) ''id-1'') fake_lbReady"

definition ex_listed_listeners :: "VpcLoadBalancerListener list" where
  "ex_listed_listeners = listed (sdk_ListLoadBalancerListeners (vpc_Sdk reference_cloud) ''id-1'') []"

definition ex_listed_pools :: "VpcLoadBalancerPool list" where
  "ex_listed_pools = listed (sdk_ListLoadBalancerPools (vpc_Sdk reference_cloud) ''id-1'') []"

lemma reference_lists:
  "sdk_ListLoadBalancerListeners (vpc_Sdk reference_cloud) (lb_ID ex_lb) ex_content = (Inr ex_listed_listeners, ex_content)"
  "sdk_ListLoadBalancerPools (vpc_Sdk reference_cloud) (lb_ID ex_lb) ex_content = (Inr ex_listed_pools, ex_content)"
  "sdk_ListSubnets (vpc_Sdk reference_cloud) ex_content = (Inr [mapSubnet ex_api_subnet], ex_content)"
  by code_simp+

lemma reference_listed:
  "wf_inputs ex_listed_listeners ex_listed_pools ex_service ex_nodes" "consistent ex_listed_listeners ex_listed_pools"
  "abs_content ex_listed_listeners ex_listed_pools = ex_content" "truthful reference_pool_id ex_content ex_lb"
  by code_simp+

lemma ex_listed_plan: "plan ex_listed_listeners ex_listed_pools ex_service ex_nodes =
   [DeleteListener ''tcp-8080-30399'' ''r2'', DeletePool ''tcp-8080-30399'' ''p2'', ReplacePoolMembers ''tcp-80-30303'' ''p1'',
    CreatePool ''tcp-443-30304'', CreateListener ''tcp-443-30304'']"
  by code_simp

lemma reference_run: "isl (fst (run_ops reference_runtime (vpc_Sdk reference_cloud) (\<lambda>lb. perform (vpc_Sdk reference_cloud) lb ex_nodes
   (map (marked (svc_Ports ex_service)) ex_listed_pools) (getServiceOptions (Some ex_service))) 0 ex_lb
   [DeleteListener ''tcp-8080-30399'' ''r2'', DeletePool ''tcp-8080-30399'' ''p2'', ReplacePoolMembers ''tcp-80-30303'' ''p1'',
    CreatePool ''tcp-443-30304'', CreateListener ''tcp-443-30304''] ex_content)) = False"
  by code_simp

definition ex_cluster :: "Node list" where
  "ex_cluster = map ex_node ex_nodes"

lemma reference_checks:
  "IsReady ex_lb" "validateService ex_service = Inr (getServiceOptions (Some ex_service))"
  "validateServiceTypeNotUpdated (getServiceOptions (Some ex_service)) ex_lb = Inr ()"
  "validateServiceSubnetsNotUpdated (rt_range reference_runtime ex_content) ex_service ex_lb [mapSubnet ex_api_subnet] = Inr ()"
  by (code_simp, simp add: validateService_def ex_service_def ex_port_def, code_simp+)

lemma reference_nodes:
  "ex_nodes = getNodeIDs (selectNodes ex_service (getServiceZone (getServiceOptions (Some ex_service))) ex_cluster)"
  "selectNodes ex_service (getServiceZone (getServiceOptions (Some ex_service))) ex_cluster \<noteq> []"
proof -
  have "length (selectNodes ex_service (getServiceZone (getServiceOptions (Some ex_service))) ex_cluster) = 2" by code_simp
  then show "selectNodes ex_service (getServiceZone (getServiceOptions (Some ex_service))) ex_cluster \<noteq> []" by auto
qed code_simp

lemma reference_sdk: "vpc_Sdk reference_cloud = VpcSdkGen2_sdk reference_gen2"
  by (simp add: reference_cloud_def)

lemma reference_succeeds:
  assumes "UpdateLoadBalancer reference_runtime reference_cloud (Some ex_lb) (Some ex_service) (Some ex_cluster) ex_content = (r, s')"
  shows "\<not> isl r"
  using reference_run assms UpdateLoadBalancer_run_ops[OF reference_checks(1-3) reference_lists(3) reference_checks(4) reference_nodes reference_lists(1,2)
      reference_listed(1)] by (simp add: ex_listed_plan)

theorem update_synchronizes_vpc_witness:
  "\<exists>lb' content. UpdateLoadBalancer reference_runtime reference_cloud (Some ex_lb) (Some ex_service) (Some ex_cluster) ex_content =
      (Inr lb', content) \<and> brought ex_service ex_nodes ex_content content"
proof -
  obtain r s' where run: "UpdateLoadBalancer reference_runtime reference_cloud (Some ex_lb) (Some ex_service) (Some ex_cluster) ex_content = (r, s')"
    by (cases "UpdateLoadBalancer reference_runtime reference_cloud (Some ex_lb) (Some ex_service) (Some ex_cluster) ex_content")
  have "case r of Inr _ \<Rightarrow> \<exists>content. s' = content \<and>
          brought ex_service ex_nodes (abs_content ex_listed_listeners ex_listed_pools) content
      | Inl _ \<Rightarrow> \<exists>k content. s' = content \<and> exec (effect (getServiceOptions (Some ex_service)) ex_nodes)
          (take k (plan ex_listed_listeners ex_listed_pools ex_service ex_nodes)) (abs_content ex_listed_listeners ex_listed_pools) = Some content"
    by (rule update_synchronizes_vpc[OF reference.documented_api_axioms reference_sdk reference_checks(1-3) reference_lists(3) reference_checks(4)
          reference_nodes reference_lists(1,2) reference_listed(3)[symmetric] reference_listed(4,1,2) ex_distinct run])
  with reference_succeeds[OF run] run reference_listed(3) show ?thesis by (cases r) auto
qed

end
