(* ===== verification/Vpc_History.thy ===== *)
theory Vpc_History
  imports Vpc_Effects "HOL-Library.Multiset"
begin

section \<open>The life of a load balancer\<close>

text \<open>
  \<open>Vpc_Converge\<close> starts from a consistent load balancer. Here consistency is shown to be an invariant of the program: the
  load balancers that it creates are consistent, and so are those that its updates leave, complete or interrupted anywhere, provided that
  the VPC gives out unique identifiers and lists what it holds. So an update that failed can be tried again, with any service and
  nodes. What is planned for a content in sync are updates of pools, and nothing when the proxy protocol is right, too. \<open>Vpc_Reconcile\<close> and
  \<open>Vpc_Store\<close> carry both to the calls of the controller.
\<close>

subsection \<open>Contents that the program set up\<close>

definition spelled :: "string \<Rightarrow> bool" where
  "spelled n = (case extractFieldsFromPoolName n of Inl _ \<Rightarrow> False | Inr f \<Rightarrow> pnf_Protocol f = ''tcp'' \<and>
     n = ''tcp-'' @ show_int (sint (pnf_Port f)) @ ''-'' @ show_int (sint (pnf_NodePort f)))"

definition port_of :: "apool \<Rightarrow> int64" where
  "port_of p = pnf_Port (name_fields (ap_Name p))"

definition set_up :: "content \<Rightarrow> bool" where
  "set_up c \<longleftrightarrow>
     distinct (map al_Port (ct_Listeners c)) \<and> distinct (map port_of (ct_Pools c)) \<and>
     list_all (\<lambda>p. spelled (ap_Name p) \<and> distinct (map snd (ap_Members p))) (ct_Pools c) \<and>
     list_all (\<lambda>l. EqualFold (al_Protocol l) ''tcp'' \<and> list_ex (\<lambda>p. ap_ID p = al_Pool l \<and> port_of p = al_Port l) (ct_Pools c))
       (ct_Listeners c)"

text \<open>Identifiers are unique: what the VPC guarantees.\<close>

definition unique_ids :: "VpcLoadBalancerListener list \<Rightarrow> VpcLoadBalancerPool list \<Rightarrow> bool" where
  "unique_ids listeners pools \<longleftrightarrow> distinct (map lsn_ID listeners) \<and> distinct (map pool_ID pools) \<and>
     list_all (\<lambda>p. distinct (map mem_ID (pool_Members p))) pools"

lemma canonical_spelled: "canonical p = spelled (pool_Name p)"
  by (simp add: canonical_def spelled_def pool_fields_def split: sum.split)

lemma port_of_abs_pool [simp]: "port_of (abs_pool p) = pool_port p"
  by (simp add: port_of_def abs_pool_def pool_port_def pool_fields_def name_fields_def split: sum.split)

lemma snd_abs_member [simp]: "snd (abs_member m) = (mem_TargetIPAddress m, mem_Port m)"
  by (simp add: abs_member_def)

lemma consistent_set_up: "consistent listeners pools \<longleftrightarrow> unique_ids listeners pools \<and> set_up (abs_content listeners pools)"
  unfolding consistent_def set_up_def unique_ids_def
  by (auto simp: abs_content_def canonical_spelled list_all_iff list_ex_iff comp_def)
    (auto simp: abs_pool_def abs_listener_def comp_def)

subsection \<open>Listing what the service holds\<close>

text \<open>
  A later listing shows the objects in any order and under the identifiers that the service has given them; \<open>rho\<close> says which.
\<close>

definition view_listener :: "(oid \<Rightarrow> oid) \<Rightarrow> alistener \<Rightarrow> string \<times> int64 \<times> oid" where
  "view_listener rho l = (al_Protocol l, al_Port l, rho (al_Pool l))"

definition view_pool :: "(oid \<Rightarrow> oid) \<Rightarrow> apool \<Rightarrow> oid \<times> string \<times> (string \<times> int64) multiset \<times> (string \<times> int64) \<times> string" where
  "view_pool rho p = (rho (ap_ID p), ap_Name p, mset (map snd (ap_Members p)), ap_Monitor p, ap_Proxy p)"

definition relisted :: "(oid \<Rightarrow> oid) \<Rightarrow> content \<Rightarrow> VpcLoadBalancerListener list \<Rightarrow> VpcLoadBalancerPool list \<Rightarrow> bool" where
  "relisted rho c listeners pools \<longleftrightarrow> unique_ids listeners pools \<and>
     mset (map (view_listener rho) (ct_Listeners c)) = mset (map (view_listener (\<lambda>i. i)) (ct_Listeners (abs_content listeners pools))) \<and>
     mset (map (view_pool rho) (ct_Pools c)) = mset (map (view_pool (\<lambda>i. i)) (ct_Pools (abs_content listeners pools)))"

lemma mset_map_distinct: "mset (map f xs) = mset (map g ys) \<Longrightarrow> distinct (map (h \<circ> f) xs) \<longleftrightarrow> distinct (map (h \<circ> g) ys)"
proof -
  assume "mset (map f xs) = mset (map g ys)"
  then have "mset (map h (map f xs)) = mset (map h (map g ys))" by (metis mset_map)
  then show ?thesis by (metis map_map mset_eq_imp_distinct_iff)
qed

lemma mset_map_image: "mset (map f xs) = mset (map g ys) \<Longrightarrow> f ` set xs = g ` set ys"
  by (metis mset_eq_setD set_map)

lemma mset_map_back: "mset (map f xs) = mset (map g ys) \<Longrightarrow> y \<in> set ys \<Longrightarrow> \<exists>x \<in> set xs. f x = g y"
  by (metis (no_types, lifting) imageE imageI mset_map_image)

locale listing =
  fixes rho :: "oid \<Rightarrow> oid" and c :: content and d :: content
  assumes listeners: "mset (map (view_listener rho) (ct_Listeners c)) = mset (map (view_listener (\<lambda>i. i)) (ct_Listeners d))"
    and pools: "mset (map (view_pool rho) (ct_Pools c)) = mset (map (view_pool (\<lambda>i. i)) (ct_Pools d))"
begin

lemma listener_back:
  "l \<in> set (ct_Listeners d) \<Longrightarrow> \<exists>x \<in> set (ct_Listeners c). al_Protocol x = al_Protocol l \<and> al_Port x = al_Port l \<and> rho (al_Pool x) = al_Pool l"
  using mset_map_back[OF listeners] by (fastforce simp: view_listener_def)

lemma pool_back:
  assumes "p \<in> set (ct_Pools d)"
  shows "\<exists>x \<in> set (ct_Pools c). rho (ap_ID x) = ap_ID p \<and> ap_Name x = ap_Name p \<and> mset (map snd (ap_Members x)) = mset (map snd (ap_Members p)) \<and>
    ap_Monitor x = ap_Monitor p \<and> ap_Proxy x = ap_Proxy p"
  using mset_map_back[OF pools assms] by (auto simp: view_pool_def)

lemma pool_forth:
  assumes "p \<in> set (ct_Pools c)"
  shows "\<exists>x \<in> set (ct_Pools d). ap_ID x = rho (ap_ID p) \<and> ap_Name x = ap_Name p"
  using mset_map_back[OF pools[symmetric] assms] by (auto simp: view_pool_def)

lemma keys:
  "distinct (map al_Port (ct_Listeners d)) \<longleftrightarrow> distinct (map al_Port (ct_Listeners c))"
  "distinct (map (\<lambda>p. f (ap_Name p)) (ct_Pools d)) \<longleftrightarrow> distinct (map (\<lambda>p. f (ap_Name p)) (ct_Pools c))"
  "set (map al_Port (ct_Listeners d)) = set (map al_Port (ct_Listeners c))"
  "set (map ap_Name (ct_Pools d)) = set (map ap_Name (ct_Pools c))"
proof -
  show "distinct (map al_Port (ct_Listeners d)) \<longleftrightarrow> distinct (map al_Port (ct_Listeners c))"
    using mset_map_distinct[OF listeners, of "\<lambda>v. fst (snd v)"] by (simp add: comp_def view_listener_def)
  show "distinct (map (\<lambda>p. f (ap_Name p)) (ct_Pools d)) \<longleftrightarrow> distinct (map (\<lambda>p. f (ap_Name p)) (ct_Pools c))"
    using mset_map_distinct[OF pools, of "\<lambda>v. f (fst (snd v))"] by (simp add: comp_def view_pool_def)
  have "(\<lambda>v. fst (snd v)) ` view_listener rho ` set (ct_Listeners c) = (\<lambda>v. fst (snd v)) ` view_listener (\<lambda>i. i) ` set (ct_Listeners d)"
    using mset_map_image[OF listeners] by simp
  then show "set (map al_Port (ct_Listeners d)) = set (map al_Port (ct_Listeners c))" by (simp add: image_image view_listener_def)
  have "(\<lambda>v. fst (snd v)) ` view_pool rho ` set (ct_Pools c) = (\<lambda>v. fst (snd v)) ` view_pool (\<lambda>i. i) ` set (ct_Pools d)"
    using mset_map_image[OF pools] by simp
  then show "set (map ap_Name (ct_Pools d)) = set (map ap_Name (ct_Pools c))" by (simp add: image_image view_pool_def)
qed

lemma set_up_listed:
  assumes "set_up c"
  shows "set_up d"
proof -
  have pool: "spelled (ap_Name p) \<and> distinct (map snd (ap_Members p))" if p: "p \<in> set (ct_Pools d)" for p
  proof -
    obtain x where x: "x \<in> set (ct_Pools c)" "ap_Name x = ap_Name p" "mset (map snd (ap_Members x)) = mset (map snd (ap_Members p))"
      using pool_back[OF p] by blast
    with assms have "spelled (ap_Name x)" "distinct (map snd (ap_Members x))" by (auto simp: set_up_def list_all_iff)
    with x(2) mset_eq_imp_distinct_iff[OF x(3)] show ?thesis by simp
  qed
  have lsn: "EqualFold (al_Protocol l) ''tcp'' \<and> (\<exists>p \<in> set (ct_Pools d). ap_ID p = al_Pool l \<and> port_of p = al_Port l)"
    if l: "l \<in> set (ct_Listeners d)" for l
  proof -
    obtain x where x: "x \<in> set (ct_Listeners c)" "al_Protocol x = al_Protocol l" "al_Port x = al_Port l" "rho (al_Pool x) = al_Pool l"
      using listener_back[OF l] by blast
    with assms obtain p where p: "p \<in> set (ct_Pools c)" "ap_ID p = al_Pool x" "port_of p = al_Port x" "EqualFold (al_Protocol x) ''tcp''"
      by (auto simp: set_up_def list_all_iff list_ex_iff)
    obtain q where "q \<in> set (ct_Pools d)" "ap_ID q = rho (ap_ID p)" "ap_Name q = ap_Name p" using pool_forth[OF p(1)] by blast
    with x p show ?thesis by (auto simp: port_of_def)
  qed
  from assms pool lsn keys(1) keys(2)[of "\<lambda>n. pnf_Port (name_fields n)"] show ?thesis
    by (simp add: set_up_def list_all_iff list_ex_iff port_of_def[abs_def])
qed

end

text \<open>Every content is a listing of itself.\<close>

interpretation same: listing "\<lambda>i. i" c c
  by unfold_locales (rule refl)+

lemma relisted_listing: "relisted rho c listeners pools \<Longrightarrow> listing rho c (abs_content listeners pools)"
  by (simp add: relisted_def listing_def)

lemma relisted_consistent:
  assumes "set_up c" "relisted rho c listeners pools"
  shows "consistent listeners pools"
  using listing.set_up_listed[OF relisted_listing[OF assms(2)] assms(1)] assms(2) by (simp add: consistent_set_up relisted_def)

subsection \<open>Creation\<close>

lemma distinct_coarser:
  assumes "distinct (map f xs)" "\<And>x y. x \<in> set xs \<Longrightarrow> y \<in> set xs \<Longrightarrow> g x = g y \<Longrightarrow> f x = f y"
  shows "distinct (map g xs)"
  using assms(1) unfolding distinct_map inj_on_def by (meson assms(2))

lemma spelled_gen: "wf_port kp \<Longrightarrow> spelled (genLoadBalancerPoolName kp)"
  using wf_port_fields[of kp] by (simp add: spelled_def genLoadBalancerPoolName_def wf_port_def)

lemma in_sync_set_up:
  assumes "list_all wf_port (svc_Ports service)" "distinct_ports service" "in_sync service nodeList c"
  shows "set_up c"
proof -
  have pool: "\<exists>kp \<in> set (svc_Ports service). wf_port kp \<and> ap_Name p = genLoadBalancerPoolName kp \<and> distinct (map snd (ap_Members p))"
    if "p \<in> set (ct_Pools c)" for p
    using assms that by (fastforce simp: in_sync_def list_all_iff list_ex_iff pool_in_sync_def members_in_sync_def)
  have spelling: "spelled (ap_Name p) \<and> distinct (map snd (ap_Members p))" if "p \<in> set (ct_Pools c)" for p
    using pool[OF that] spelled_gen by auto
  have "distinct (map ap_Name (ct_Pools c))" using assms(3) by (simp add: in_sync_def)
  moreover have "ap_Name p = ap_Name q" if "p \<in> set (ct_Pools c)" "q \<in> set (ct_Pools c)" "port_of p = port_of q" for p q
  proof -
    from pool[OF that(1)] obtain k where k: "k \<in> set (svc_Ports service)" "wf_port k" "ap_Name p = genLoadBalancerPoolName k" by blast
    from pool[OF that(2)] obtain k' where k': "k' \<in> set (svc_Ports service)" "wf_port k'" "ap_Name q = genLoadBalancerPoolName k'" by blast
    have "sp_Port k = sp_Port k'" using that(3) k k' by (simp add: port_of_def name_fields_gen)
    then have "k = k'" using assms(2) k(1) k'(1) by (auto simp: distinct_ports_def distinct_map inj_on_def)
    with k k' show ?thesis by simp
  qed
  ultimately have ports: "distinct (map port_of (ct_Pools c))" by (rule distinct_coarser)
  have "EqualFold (al_Protocol l) ''tcp'' \<and> (\<exists>p \<in> set (ct_Pools c). ap_ID p = al_Pool l \<and> port_of p = al_Port l)"
    if l: "l \<in> set (ct_Listeners c)" for l
  proof -
    from assms l obtain kp p where kp: "wf_port kp" "al_Port l = toInt (sp_Port kp)" "EqualFold (al_Protocol l) (sp_Protocol kp)"
        "p \<in> set (ct_Pools c)" "ap_ID p = al_Pool l" "ap_Name p = genLoadBalancerPoolName kp"
      by (fastforce simp: in_sync_def list_all_iff list_ex_iff listener_in_sync_def)
    moreover have "EqualFold (sp_Protocol kp) ''tcp''" using kp(1) by (simp add: wf_port_def EqualFold_def)
    ultimately show ?thesis using EqualFold_trans by (auto simp: port_of_def name_fields_gen)
  qed
  with assms(3) spelling ports show ?thesis by (simp add: set_up_def in_sync_def list_all_iff list_ex_iff)
qed

subsection \<open>Updates, complete or interrupted\<close>

text \<open>What the operations of a plan know about the pools it was made for.\<close>

fun fits :: "Service \<Rightarrow> VpcLoadBalancerPool list \<Rightarrow> operation \<Rightarrow> bool" where
  "fits service pools (UpdatePool n i) = list_ex (\<lambda>kp. n = genLoadBalancerPoolName kp \<and>
     list_ex (\<lambda>p. pool_ID p = i \<and> pool_port p = toInt (sp_Port kp)) pools) (svc_Ports service)"
| "fits service pools (CreatePool n) = list_ex (\<lambda>kp. n = genLoadBalancerPoolName kp \<and>
     \<not> list_ex (\<lambda>p. pool_port p = toInt (sp_Port kp)) pools) (svc_Ports service)"
| "fits service pools (CreateListener n) = list_ex (\<lambda>kp. n = genLoadBalancerPoolName kp) (svc_Ports service)"
| "fits service pools _ = True"

text \<open>Pools keep the port of the pool they were, and new ones are those that the plan creates.\<close>

definition traced :: "Service \<Rightarrow> VpcLoadBalancerPool list \<Rightarrow> content \<Rightarrow> bool" where
  "traced service pools c \<longleftrightarrow> distinct (map ap_ID (ct_Pools c)) \<and>
     list_all (\<lambda>p. case ap_ID p of
         Old i \<Rightarrow> list_ex (\<lambda>q. pool_ID q = i \<and> port_of p = pool_port q) pools
       | New n \<Rightarrow> ap_Name p = n \<and> fits service pools (CreatePool n)) (ct_Pools c)"

lemma merge_from_fits: "list_all (fits service pools) us \<Longrightarrow> list_all (fits service pools) (merge_from mu d us)"
  by (induction us arbitrary: d) (auto split: option.splits)

lemma plan_fits:
  assumes "list_all wf_port (svc_Ports service)" "list_all canonical pools"
  shows "list_all (fits service pools) (plan listeners pools service nodeList)"
proof -
  have ports: "serves kp p \<longleftrightarrow> pool_port p = toInt (sp_Port kp)" if "p \<in> set pools" "kp \<in> set (svc_Ports service)" for p kp
    using that assms by (intro serves_iff) (auto simp: list_all_iff)
  have s: "list_all (fits service pools) (ops_service_changes service p)" if p: "p \<in> set pools" for p
  proof (cases "find (\<lambda>kp. serves kp p) (svc_Ports service)")
    case (Some kp)
    with find_SomeD[OF Some] ports[OF p] p show ?thesis by (auto simp: ops_service_changes_def list_ex_iff)
  qed (simp add: ops_service_changes_def)
  have a: "list_all (fits service pools) (ops_port_added listeners pools kp)" if "kp \<in> set (svc_Ports service)" for kp
    using that ports by (auto simp: ops_port_added_def list_ex_iff)
  have d: "list_all (fits service pools) (ops_listener_deleted ports l)" "list_all (fits service pools) (ops_pool_deleted ports p)"
    "list_all (fits service pools) (ops_nodes_deleted ports nodeList p)" "list_all (fits service pools) (ops_nodes_added ports nodeList p)"
    for ports l p
    by (auto simp: ops_listener_deleted_def ops_pool_deleted_def ops_nodes_deleted_def ops_nodes_added_def list_all_iff)
  have "list_all (fits service pools) (raw_plan listeners pools service nodeList)"
    using s a d by (auto simp: raw_plan_def Let_def list_all_iff)
  then show ?thesis unfolding plan_def merge_def by (rule merge_from_fits)
qed

lemma traced_start:
  assumes "distinct (map pool_ID pools)"
  shows "traced service pools (abs_content listeners pools)"
proof -
  have "distinct (map Old (map pool_ID pools))" using assms by (simp only: distinct_map[of Old]) (simp add: inj_on_def)
  moreover have "ap_ID (abs_pool p) = Old (pool_ID p)" for p by (simp add: abs_pool_def)
  ultimately show ?thesis by (auto simp: traced_def abs_content_def list_all_iff list_ex_iff comp_def)
qed

text \<open>Replacing one pool by one with the same identifier and port.\<close>

lemma replace_pool:
  assumes "set_up c" "traced service pools c" "x \<in> set (ct_Pools c)" "ap_ID x = Old i" "ap_ID q = Old i"
    and "port_of q = port_of x" "spelled (ap_Name q)" "distinct (map snd (ap_Members q))"
  defines "c' \<equiv> c\<lparr>ct_Pools := map (\<lambda>y. if ap_ID y = Old i then q else y) (ct_Pools c)\<rparr>"
  shows "set_up c'" "traced service pools c'"
proof -
  let ?upd = "\<lambda>y. if ap_ID y = Old i then q else y"
  have only: "y = x" if "y \<in> set (ct_Pools c)" "ap_ID y = Old i" for y
  proof (rule inj_onD)
    show "inj_on ap_ID (set (ct_Pools c))" using assms(2) by (simp add: traced_def distinct_map)
    show "ap_ID y = ap_ID x" using that(2) assms(4) by simp
  qed (use that(1) assms(3) in auto)
  have upd: "ap_ID (?upd y) = ap_ID y \<and> port_of (?upd y) = port_of y" if "y \<in> set (ct_Pools c)" for y
    using only[OF that] assms(5,6) by simp
  have ids: "map ap_ID (ct_Pools c') = map ap_ID (ct_Pools c)" and ports: "map port_of (ct_Pools c') = map port_of (ct_Pools c)"
    unfolding c'_def using upd by simp_all
  have new: "list_all (\<lambda>p. spelled (ap_Name p) \<and> distinct (map snd (ap_Members p))) (ct_Pools c')"
    using assms(1,7,8) by (auto simp: c'_def set_up_def list_all_iff)
  have "list_ex (\<lambda>p. ap_ID p = j \<and> port_of p = n) (ct_Pools c')" if "list_ex (\<lambda>p. ap_ID p = j \<and> port_of p = n) (ct_Pools c)" for j n
  proof -
    from that obtain y where y: "y \<in> set (ct_Pools c)" "ap_ID y = j" "port_of y = n" by (auto simp: list_ex_iff)
    have "set (ct_Pools c') = ?upd ` set (ct_Pools c)" by (simp add: c'_def)
    then have "?upd y \<in> set (ct_Pools c')" using imageI[OF y(1), of ?upd] by (simp only:)
    moreover have "ap_ID (?upd y) = j \<and> port_of (?upd y) = n" using upd[OF y(1)] y(2,3) by simp
    ultimately show ?thesis unfolding list_ex_iff by blast
  qed
  with assms(1) new ports show "set_up c'" by (simp add: set_up_def list_all_iff) (simp add: c'_def)
  have "list_ex (\<lambda>r. pool_ID r = i \<and> port_of x = pool_port r) pools"
    using assms(2-4) by (auto simp: traced_def list_all_iff)
  with assms(2,5,6) have "list_all (\<lambda>p. case ap_ID p of
      Old i \<Rightarrow> list_ex (\<lambda>q. pool_ID q = i \<and> port_of p = pool_port q) pools
    | New n \<Rightarrow> ap_Name p = n \<and> fits service pools (CreatePool n)) (ct_Pools c')" by (auto simp: traced_def list_all_iff c'_def)
  moreover have "distinct (map ap_ID (ct_Pools c'))" unfolding ids using assms(2) by (simp add: traced_def)
  ultimately show "traced service pools c'" by (simp add: traced_def)
qed

lemma distinct_new_members: "distinct nodeList \<Longrightarrow> distinct (map snd (new_members n nodeList))"
  unfolding new_members_simps by (simp add: distinct_map inj_on_def)

lemma pool_effect_kept:
  assumes "pool_effect options nodeList u x = Some q" "fits service pools u" "pool_target u = Some i" "ap_ID x = Old i"
    and "spelled (ap_Name x)" "distinct (map snd (ap_Members x))" "list_ex (\<lambda>r. pool_ID r = i \<and> port_of x = pool_port r) pools"
    and "list_all wf_port (svc_Ports service)" "distinct nodeList" "distinct (map pool_ID pools)"
  shows "port_of q = port_of x \<and> spelled (ap_Name q) \<and> distinct (map snd (ap_Members q))"
proof (cases u)
  case (DeletePoolMember n j m t)
  with assms(1,5,6) show ?thesis by (auto simp: port_of_def distinct_map_filter split: if_splits)
next
  case (UpdatePool n j)
  then have q: "ap_Name q = n" "ap_Members q = ap_Members x" and j: "j = i" using assms(1,3) by auto
  from assms(2) UpdatePool obtain kp p where kp: "kp \<in> set (svc_Ports service)" "n = genLoadBalancerPoolName kp"
      "p \<in> set pools" "pool_ID p = j" "pool_port p = toInt (sp_Port kp)" by (auto simp: list_ex_iff)
  have w: "wf_port kp" using assms(8) kp(1) by (simp add: list_all_iff)
  from assms(7) obtain r where r: "r \<in> set pools" "pool_ID r = i" "port_of x = pool_port r" by (auto simp: list_ex_iff)
  have "r = p" using assms(10) r(1,2) kp(3,4) j by (simp add: distinct_map inj_on_def)
  with q kp(2,5) r(3) w assms(6) show ?thesis by (simp add: port_of_def name_fields_gen spelled_gen)
next
  case (ReplacePoolMembers n j)
  with assms(1,5) distinct_new_members[OF assms(9)] show ?thesis by (auto simp: port_of_def)
next
  case (CreatePoolMember n j t)
  with assms(1,5,6) show ?thesis by (auto simp: port_of_def split: if_splits)
qed (use assms(3) in simp_all)

lemma create_pool_kept:
  fixes options :: ServiceOptions
  assumes "set_up c" "traced service pools c" "fits service pools (CreatePool n)" "n \<notin> ap_Name ` set (ct_Pools c)"
    and "list_all wf_port (svc_Ports service)" "distinct_ports service" "distinct nodeList"
  defines "c' \<equiv> c\<lparr>ct_Pools := ct_Pools c @ [new_pool options nodeList n]\<rparr>"
  shows "set_up c' \<and> traced service pools c'"
proof -
  from assms(3,5) obtain kp where kp: "kp \<in> set (svc_Ports service)" "n = genLoadBalancerPoolName kp" "wf_port kp"
      "\<not> list_ex (\<lambda>p. pool_port p = toInt (sp_Port kp)) pools" by (auto simp: list_ex_iff list_all_iff)
  let ?p = "new_pool options nodeList n"
  have port: "port_of ?p = toInt (sp_Port kp)" using kp(2,3) by (simp add: port_of_def new_pool_def name_fields_gen)
  have other: "port_of p \<noteq> toInt (sp_Port kp) \<and> ap_ID p \<noteq> New n" if p: "p \<in> set (ct_Pools c)" for p
  proof (cases "ap_ID p")
    case (Old i)
    with assms(2) p kp(4) show ?thesis by (force simp: traced_def list_all_iff list_ex_iff)
  next
    case (New m)
    with assms(2) p have m: "ap_Name p = m" "fits service pools (CreatePool m)" by (auto simp: traced_def list_all_iff)
    then obtain k where k: "k \<in> set (svc_Ports service)" "m = genLoadBalancerPoolName k" "wf_port k"
      using assms(5) by (auto simp: list_ex_iff list_all_iff)
    have mn: "m \<noteq> n" using m(1) p assms(4) by blast
    then have "k \<noteq> kp" using k(2) kp(2) by blast
    then have "sp_Port k \<noteq> sp_Port kp" using assms(6) k(1) kp(1) by (auto simp: distinct_ports_def distinct_map inj_on_def)
    then show ?thesis using mn m(1) k(2,3) New by (simp add: port_of_def name_fields_gen)
  qed
  have "spelled (ap_Name ?p)" "distinct (map snd (ap_Members ?p))"
    using kp(2,3) distinct_new_members[OF assms(7), of n] by (simp_all add: new_pool_def spelled_gen)
  moreover have "port_of ?p \<notin> port_of ` set (ct_Pools c)" using port by (auto dest: other)
  ultimately have "set_up c'" using assms(1) by (auto simp: c'_def set_up_def list_all_iff list_ex_iff)
  moreover have "traced service pools c'"
    using assms(2,3) other by (force simp: c'_def traced_def new_pool_def)
  ultimately show ?thesis ..
qed

lemma effect_kept:
  assumes "set_up c" "traced service pools c" "effect options nodeList u c = Some c'" "fits service pools u"
    and "list_all wf_port (svc_Ports service)" "distinct_ports service" "distinct nodeList" "distinct (map pool_ID pools)"
  shows "set_up c' \<and> traced service pools c'"
proof (cases "pool_target u")
  case (Some i)
  obtain x q where x: "x \<in> set (ct_Pools c)" "ap_ID x = Old i" "pool_effect options nodeList u x = Some q" "ap_ID q = Old i"
    "c' = c\<lparr>ct_Pools := map (\<lambda>y. if ap_ID y = Old i then q else y) (ct_Pools c)\<rparr>"
    by (rule on_existing_pool[OF assms(3) Some]) (rule that)
  have "spelled (ap_Name x)" "distinct (map snd (ap_Members x))" "list_ex (\<lambda>r. pool_ID r = i \<and> port_of x = pool_port r) pools"
    using assms(1,2) x(1,2) by (auto simp: set_up_def traced_def list_all_iff)
  from pool_effect_kept[OF x(3) assms(4) Some x(2) this assms(5,7,8)] replace_pool[OF assms(1,2) x(1,2,4)] x(5)
  show ?thesis by simp
next
  case None
  show ?thesis
  proof (cases u)
    case (DeleteListener n i)
    with assms(1-3) show ?thesis by (auto simp: set_up_def traced_def list_all_iff distinct_map_filter split: if_splits)
  next
    case (DeletePool n i)
    then have c': "c' = c\<lparr>ct_Pools := filter (\<lambda>p. ap_ID p \<noteq> Old i) (ct_Pools c)\<rparr>" "Old i \<notin> al_Pool ` set (ct_Listeners c)"
      using assms(3) by (auto split: if_splits)
    have "set_up c'" using assms(1) c'(2) unfolding c'(1) by (force simp: set_up_def list_all_iff list_ex_iff distinct_map_filter)
    moreover have "traced service pools c'" using assms(2) unfolding c'(1) by (auto simp: traced_def list_all_iff distinct_map_filter)
    ultimately show ?thesis ..
  next
    case (CreatePool n)
    with assms(3,4) create_pool_kept[OF assms(1,2) _ _ assms(5-7), of n options] show ?thesis by (auto split: if_splits)
  next
    case (CreateListener n)
    with assms(3) obtain p where p: "find (\<lambda>p. ap_Name p = n) (ct_Pools c) = Some p" "pnf_Port (name_fields n) \<notin> al_Port ` set (ct_Listeners c)"
        "c' = c\<lparr>ct_Listeners := ct_Listeners c @ [new_listener n (ap_ID p)]\<rparr>" by (auto split: option.splits if_splits)
    have "p \<in> set (ct_Pools c)" "ap_Name p = n" using find_SomeD[OF p(1)] by auto
    moreover obtain kp where "n = genLoadBalancerPoolName kp" "wf_port kp" using assms(4,5) CreateListener by (auto simp: list_ex_iff list_all_iff)
    ultimately have "set_up c'" using assms(1) p(2) unfolding p(3)
      by (auto simp: set_up_def new_listener_def list_all_iff list_ex_iff port_of_def name_fields_gen EqualFold_def)
    moreover have "traced service pools c'" using assms(2) unfolding p(3) by (simp add: traced_def)
    ultimately show ?thesis ..
  qed (use None in simp_all)
qed

lemma exec_kept:
  assumes "list_all wf_port (svc_Ports service)" "distinct_ports service" "distinct nodeList" "distinct (map pool_ID pools)"
  shows "set_up c \<Longrightarrow> traced service pools c \<Longrightarrow> exec (effect options nodeList) us c = Some c' \<Longrightarrow> list_all (fits service pools) us \<Longrightarrow> set_up c'"
proof (induction us arbitrary: c)
  case (Cons u us)
  then obtain c1 where c1: "effect options nodeList u c = Some c1" "exec (effect options nodeList) us c1 = Some c'"
    by (auto split: option.splits)
  from effect_kept[OF Cons.prems(1,2) c1(1) _ assms] Cons.prems(4) Cons.IH[OF _ _ c1(2)] show ?case by simp
qed simp

text \<open>Whatever part of its plan an update has carried out, the load balancer is one that an update can start from.\<close>

lemma update_kept:
  assumes "list_all wf_port (svc_Ports service)" "distinct_ports service" "distinct nodeList" "consistent listeners pools"
    and "exec (effect options nodeList) (take k (plan listeners pools service nodeList)) (abs_content listeners pools) = Some c'"
  shows "set_up c'"
proof (rule exec_kept[OF assms(1-3) _ _ _ assms(5)])
  show ids: "distinct (map pool_ID pools)" using assms(4) by (simp add: consistent_def)
  then show "traced service pools (abs_content listeners pools)" by (rule traced_start)
  show "set_up (abs_content listeners pools)" using assms(4) by (simp add: consistent_set_up)
  have "list_all (fits service pools) (plan listeners pools service nodeList)"
    using assms(4) by (intro plan_fits[OF assms(1)]) (simp add: consistent_def)
  then show "list_all (fits service pools) (take k (plan listeners pools service nodeList))"
    by (auto simp: list_all_iff dest: in_set_takeD)
qed

subsection \<open>Histories\<close>

text \<open>
  A load balancer is created for a service and nodes; later updates, each for some service and nodes and from a listing of what the VPC holds,
  carry out their plan or some first operations of it.
\<close>

inductive history :: "content \<Rightarrow> bool" where
  created: "list_all wf_port (svc_Ports service) \<Longrightarrow> distinct_ports service \<Longrightarrow> distinct nodeList \<Longrightarrow>
    history (abs_create (create_request resourceGroup lbName nodeList subnetList service))"
| updated: "history c \<Longrightarrow> relisted rho c listeners pools \<Longrightarrow>
    list_all wf_port (svc_Ports service) \<Longrightarrow> distinct_ports service \<Longrightarrow> distinct nodeList \<Longrightarrow>
    exec (effect (getServiceOptions (Some service)) nodeList) (take k (plan listeners pools service nodeList))
      (abs_content listeners pools) = Some c' \<Longrightarrow> history c'"

lemma history_set_up: "history c \<Longrightarrow> set_up c"
proof (induction rule: history.induct)
  case (created service nodeList resourceGroup lbName subnetList)
  then show ?case by (intro in_sync_set_up[OF _ _ created_in_sync]) (simp_all add: create_request_def)
next
  case (updated c rho listeners pools service nodeList k c')
  show ?case by (rule update_kept[OF updated.hyps(3-5) relisted_consistent[OF updated.IH updated.hyps(2)] updated.hyps(6)])
qed

subsection \<open>What is left to do for a content in sync\<close>

text \<open>
  A listing of a content in sync is in sync, but for the proxy protocol of pools that were just created: it is the default of the VPC.
\<close>

definition proxies_ok :: "Service \<Rightarrow> content \<Rightarrow> bool" where
  "proxies_ok service c = list_all (\<lambda>p. ap_Proxy p = proxy_for (getServiceOptions (Some service))) (ct_Pools c)"

definition but_proxy :: "Service \<Rightarrow> apool \<Rightarrow> apool" where
  "but_proxy service p = p\<lparr>ap_Proxy := proxy_for (getServiceOptions (Some service))\<rparr>"

context listing
begin

lemma pool_in_sync_listed:
  assumes "in_sync service nodeList c" "p \<in> set (ct_Pools d)"
  shows "\<exists>kp \<in> set (svc_Ports service). pool_in_sync service nodeList kp (but_proxy service p)"
proof -
  obtain x where x: "x \<in> set (ct_Pools c)" "ap_Name x = ap_Name p" "mset (map snd (ap_Members x)) = mset (map snd (ap_Members p))"
    "ap_Monitor x = ap_Monitor p" using pool_back[OF assms(2)] by blast
  with assms(1) obtain kp where kp: "kp \<in> set (svc_Ports service)" "pool_in_sync service nodeList kp x"
    by (auto simp: in_sync_def list_all_iff list_ex_iff)
  have "members_in_sync nodeList kp (ap_Members p)"
    using kp(2) mset_eq_imp_distinct_iff[OF x(3)] mset_eq_setD[OF x(3)] by (simp add: pool_in_sync_def members_in_sync_def)
  with kp x(2,4) show ?thesis by (intro bexI[of _ kp]) (auto simp: pool_in_sync_def but_proxy_def split: oid.split)
qed

lemma listener_in_sync_listed:
  assumes "in_sync service nodeList c" "l \<in> set (ct_Listeners d)"
  shows "\<exists>kp \<in> set (svc_Ports service). listener_in_sync (ct_Pools d) kp l"
proof -
  obtain x where x: "x \<in> set (ct_Listeners c)" "al_Protocol x = al_Protocol l" "al_Port x = al_Port l" "rho (al_Pool x) = al_Pool l"
    using listener_back[OF assms(2)] by blast
  with assms(1) obtain kp where kp: "kp \<in> set (svc_Ports service)" "listener_in_sync (ct_Pools c) kp x"
    by (auto simp: in_sync_def list_all_iff list_ex_iff)
  then obtain p where p: "p \<in> set (ct_Pools c)" "ap_ID p = al_Pool x" "ap_Name p = genLoadBalancerPoolName kp"
    by (auto simp: list_ex_iff listener_in_sync_def)
  with x kp pool_forth[OF p(1)] show ?thesis by (intro bexI[of _ kp]) (auto simp: listener_in_sync_def list_ex_iff)
qed

lemma in_sync_listed:
  assumes "in_sync service nodeList c" "proxies_ok service c"
  shows "in_sync service nodeList d"
proof -
  have "but_proxy service p = p" if p: "p \<in> set (ct_Pools d)" for p
    using pool_back[OF p] assms(2) by (auto simp: but_proxy_def proxies_ok_def list_all_iff)
  with pool_in_sync_listed[OF assms(1)] have pool: "\<exists>kp \<in> set (svc_Ports service). pool_in_sync service nodeList kp p"
    if "p \<in> set (ct_Pools d)" for p using that by metis
  have lsn: "\<exists>kp \<in> set (svc_Ports service). listener_in_sync (ct_Pools d) kp l" if l: "l \<in> set (ct_Listeners d)" for l
    using listener_in_sync_listed[OF assms(1) l] .
  from assms(1) pool lsn keys(1,3,4) keys(2)[of "\<lambda>n. n"] show ?thesis by (simp add: in_sync_def list_all_iff list_ex_iff)
qed

end

text \<open>The same listing with every proxy protocol as the service wants it.\<close>

definition proxied :: "Service \<Rightarrow> VpcLoadBalancerPool \<Rightarrow> VpcLoadBalancerPool" where
  "proxied service p = p\<lparr>pool_ProxyProtocol := proxy_for (getServiceOptions (Some service))\<rparr>"

lemma proxied_simps [simp]:
  "pool_ID (proxied service p) = pool_ID p" "pool_Name (proxied service p) = pool_Name p" "pool_Members (proxied service p) = pool_Members p"
  "pool_HealthMonitor (proxied service p) = pool_HealthMonitor p" "pool_fields (proxied service p) = pool_fields p"
  "pool_port (proxied service p) = pool_port p" "pool_node_port (proxied service p) = pool_node_port p"
  "canonical (proxied service p) = canonical p" "serves kp (proxied service p) = serves kp p"
  "node_missing (proxied service p) = node_missing p" "member_ok nodeList (proxied service p) = member_ok nodeList p"
  by (simp_all add: proxied_def pool_fields_def pool_port_def pool_node_port_def canonical_spelled serves_def node_missing_def[abs_def] member_ok_def[abs_def])

lemma proxied_ops [simp]:
  "ops_pool_deleted ports (proxied service p) = ops_pool_deleted ports p"
  "ops_nodes_deleted ports nodeList (proxied service p) = ops_nodes_deleted ports nodeList p"
  "ops_nodes_added ports nodeList (proxied service p) = ops_nodes_added ports nodeList p"
  by (simp_all add: ops_pool_deleted_def ops_nodes_deleted_def ops_nodes_added_def node_port_kept_def wanted_def)

lemma proxied_port_ops [simp]: "ops_port_added listeners (map (proxied service) pools) kp = ops_port_added listeners pools kp"
  by (simp add: ops_port_added_def list_ex_iff)

lemma abs_proxied: "abs_pool (proxied service p) = but_proxy service (abs_pool p)"
  by (simp add: abs_pool_def but_proxy_def) (simp add: proxied_def)

lemma consistent_proxied: "consistent listeners (map (proxied service) pools) = consistent listeners pools"
  by (simp add: consistent_def list_all_iff list_ex_iff comp_def)

lemma in_sync_proxied:
  assumes "in_sync service nodeList c" "relisted rho c listeners pools"
  shows "in_sync service nodeList (abs_content listeners (map (proxied service) pools))"
proof -
  note listed = relisted_listing[OF assms(2)]
  let ?d = "abs_content listeners pools" and ?e = "abs_content listeners (map (proxied service) pools)"
  have ls: "ct_Listeners ?e = ct_Listeners ?d" and ps: "ct_Pools ?e = map (but_proxy service) (ct_Pools ?d)"
    by (simp_all add: abs_content_def abs_proxied)
  have names: "ap_Name (but_proxy service p) = ap_Name p" "ap_ID (but_proxy service p) = ap_ID p" for p by (simp_all add: but_proxy_def)
  have "\<exists>kp \<in> set (svc_Ports service). pool_in_sync service nodeList kp p" if "p \<in> set (ct_Pools ?e)" for p
    using that listing.pool_in_sync_listed[OF listed assms(1)] by (auto simp: ps)
  moreover have "\<exists>kp \<in> set (svc_Ports service). listener_in_sync (ct_Pools ?e) kp l" if "l \<in> set (ct_Listeners ?e)" for l
    using that listing.listener_in_sync_listed[OF listed assms(1), of l] by (auto simp: ls ps names listener_in_sync_def list_ex_iff)
  moreover have "map ap_Name (ct_Pools ?e) = map ap_Name (ct_Pools ?d)" by (simp add: ps names)
  ultimately show ?thesis using assms(1) listing.keys(1,3,4)[OF listed] listing.keys(2)[OF listed, of "\<lambda>n. n"]
    unfolding in_sync_def list_all_iff list_ex_iff ls by simp
qed

lemma merge_nil: "merge us = [] \<longleftrightarrow> us = []"
  by (cases us) (auto simp: merge_def split: option.splits)

text \<open>The plan for such a listing only updates pools.\<close>

lemma only_updates_plan:
  assumes ports: "list_all wf_port (svc_Ports service)" "distinct_ports service"
    and sync: "in_sync service nodeList c" and listed: "relisted rho c listeners pools"
  shows "list_all (\<lambda>u. updated_pool u \<noteq> []) (plan listeners pools service nodeList)"
proof -
  let ?ports = "svc_Ports service" and ?q = "proxied service"
  have con: "consistent listeners (map ?q pools)"
    unfolding consistent_proxied by (rule relisted_consistent[OF in_sync_set_up[OF ports sync] listed])
  have "raw_plan listeners (map ?q pools) service nodeList = []"
    using in_sync_no_plan[OF ports con in_sync_proxied[OF sync listed]] by (simp add: plan_def merge_nil)
  then have none: "concat (map (ops_listener_deleted ?ports) listeners) = []" "concat (map (ops_pool_deleted ?ports) pools) = []"
    "concat (map (ops_nodes_deleted ?ports nodeList) pools) = []" "concat (map (ops_nodes_added ?ports nodeList) pools) = []"
    "concat (map (ops_port_added listeners pools) ?ports) = []" "concat (map (\<lambda>p. ops_service_changes service (?q p)) pools) = []"
    unfolding raw_plan_def Let_def map_map comp_def proxied_ops proxied_port_ops append_is_Nil_conv by blast+
  have upd: "list_all (\<lambda>u. updated_pool u \<noteq> [] \<and> member_update u = None) (ops_service_changes service p)" if "p \<in> set pools" for p
  proof -
    have same: "snd (poolChangesNeeded (?q p) service kp) = snd (poolChangesNeeded p service kp)" for kp
      by (simp add: poolChangesNeeded_def Let_def)
    from none(6) that have "ops_service_changes service (?q p) = []" by auto
    then show ?thesis by (auto simp: ops_service_changes_def same split: option.splits if_splits)
  qed
  have raw: "raw_plan listeners pools service nodeList = concat (map (ops_service_changes service) pools)"
    by (simp only: raw_plan_def Let_def none(1-5)) simp
  have all: "list_all (\<lambda>u. updated_pool u \<noteq> [] \<and> member_update u = None) (concat (map (ops_service_changes service) pools))"
    using upd by (rule list_all_concat_map)
  then have "merge (concat (map (ops_service_changes service) pools)) = concat (map (ops_service_changes service) pools)"
    using merge_frame[of _ "[]" "[]"] by (simp add: merge_def merge_from_plain_left[of _ _ _ "[]", simplified] list_all_iff)
  with all show ?thesis by (simp add: plan_def raw list_all_iff)
qed

lemma settled_no_plan:
  assumes "list_all wf_port (svc_Ports service)" "distinct_ports service" "in_sync service nodeList c" "proxies_ok service c"
    and "relisted rho c listeners pools"
  shows "plan listeners pools service nodeList = []"
  by (rule in_sync_no_plan[OF assms(1,2) relisted_consistent[OF in_sync_set_up[OF assms(1-3)] assms(5)]
        listing.in_sync_listed[OF relisted_listing[OF assms(5)] assms(3,4)]])

lemma relisted_id: "unique_ids ls ps \<Longrightarrow> relisted (\<lambda>i. i) (abs_content ls ps) ls ps"
  unfolding relisted_def using same.listeners same.pools by blast

lemma relisted_same: "relisted rho c ls ps \<Longrightarrow> abs_content ls' ps' = abs_content ls ps \<Longrightarrow> unique_ids ls' ps' \<Longrightarrow> relisted rho c ls' ps'"
  by (simp add: relisted_def)

lemma relisted_same_order:
  assumes "map (view_listener rho) (ct_Listeners c) = map (view_listener (\<lambda>i. i)) (map abs_listener ls)"
    and "map (view_pool rho) (ct_Pools c) = map (view_pool (\<lambda>i. i)) (map abs_pool ps)" "unique_ids ls ps"
  shows "relisted rho c ls ps"
  unfolding relisted_def using assms by (simp only: abs_content_def content.simps)

subsection \<open>Examples\<close>

text \<open>A load balancer that was created for two ports; a service that uses the proxy protocol.\<close>

definition ex_old_service :: Service where
  "ex_old_service = ex_service\<lparr>svc_Ports := [ex_port 80 30303, ex_port 8080 30399]\<rparr>"

definition ex_created :: content where
  "ex_created = abs_create (create_request ''rg'' ''lb'' [''10.0.0.1'', ''10.0.0.9''] [''subnet''] ex_old_service)"

fun ex_rho :: "oid \<Rightarrow> oid" where
  "ex_rho (New n) = Old (if n = ''tcp-80-30303'' then ''p1'' else if n = ''tcp-8080-30399'' then ''p2'' else ''p3'')"
| "ex_rho (Old i) = Old i"

lemma ex_created_history: "history ex_created" "relisted ex_rho ex_created ex_listeners ex_pools"
proof -
  have "list_all wf_port (svc_Ports ex_old_service)" "distinct_ports ex_old_service" "distinct [''10.0.0.1'', ''10.0.0.9'']" by code_simp+
  then show "history ex_created" unfolding ex_created_def by (rule history.created)
  show "relisted ex_rho ex_created ex_listeners ex_pools" by (rule relisted_same_order) code_simp+
qed

definition ex_proxy_service :: Service where
  "ex_proxy_service = ex_service\<lparr>svc_Annotations := [serviceAnnotationEnableFeatures \<mapsto> ''proxy-protocol'']\<rparr>"

end
