(* ===== verification/Vpc_Ensure.thy ===== *)
theory Vpc_Ensure
  imports Vpc_History
begin

section \<open>From the entry points to the VPC\<close>

text \<open>
  The theorems of \<open>Vpc_Effects\<close> and \<open>Vpc_History\<close> are about \<open>UpdateLoadBalancer\<close> and take what the list calls return as given. Here the contract of the
  VPC service is extended with the list requests (locale \<open>documented_vpc\<close>), the list operations of the Gen2 SDK, with their paging and their loop over
  the pools, are shown to return what the service holds, and the entry points \<open>EnsureLoadBalancer\<close> and \<open>EnsureLoadBalancerUpdated\<close> are followed
  from the search for the load balancer through every early return.
\<close>

subsection \<open>What a service lists\<close>

text \<open>The content that an item of a list shows.\<close>

definition shown_listener :: "ApiListener \<Rightarrow> alistener" where
  "shown_listener i = \<lparr>al_ID = Old (SafePointerString (alsn_ID i)), al_Protocol = SafePointerString (alsn_Protocol i),
     al_Port = SafePointerInt64 (alsn_Port i),
     al_Pool = Old (case alsn_DefaultPool i of None \<Rightarrow> [] | Some r \<Rightarrow> SafePointerString (aref_ID r))\<rparr>"

definition shown_pool :: "ApiPool \<Rightarrow> apool" where
  "shown_pool i = \<lparr>ap_ID = Old (SafePointerString (apl_ID i)), ap_Name = SafePointerString (apl_Name i), ap_Members = [],
     ap_Monitor = (case apl_HealthMonitor i of None \<Rightarrow> ([], 0) | Some h \<Rightarrow> (SafePointerString (ahm_Type h), SafePointerInt64 (ahm_Port h))),
     ap_Proxy = SafePointerString (apl_ProxyProtocol i)\<rparr>"

definition shown_member :: "ApiMember \<Rightarrow> oid \<times> string \<times> int64" where
  "shown_member i = (Old (SafePointerString (amem_ID i)),
     (case amem_Target i of Some (MemberTarget address _) \<Rightarrow> SafePointerString address | _ \<Rightarrow> []), SafePointerInt64 (amem_Port i))"

definition bare :: "apool \<Rightarrow> apool" where
  "bare p = p\<lparr>ap_Members := []\<rparr>"

text \<open>Contents in which everything has an identifier, as between calls: identifiers are words and unique.\<close>

fun is_id :: "oid \<Rightarrow> bool" where
  "is_id (Old i) = is_word i"
| "is_id (New n) = False"

definition identified :: "content \<Rightarrow> bool" where
  "identified c \<longleftrightarrow>
     list_all (\<lambda>l. is_id (al_ID l) \<and> is_id (al_Pool l)) (ct_Listeners c) \<and> distinct (map al_ID (ct_Listeners c)) \<and>
     list_all (\<lambda>p. is_id (ap_ID p) \<and> is_word (ap_Name p) \<and> list_all (\<lambda>m. is_id (fst m) \<and> is_word (fst (snd m))) (ap_Members p) \<and>
       distinct (map fst (ap_Members p))) (ct_Pools c) \<and> distinct (map ap_ID (ct_Pools c))"

text \<open>A call that changes nothing.\<close>

definition undisturbed :: "('s \<Rightarrow> content \<Rightarrow> bool) \<Rightarrow> ('s \<Rightarrow> string \<Rightarrow> string option) \<Rightarrow> ('s, 'a) io \<Rightarrow> bool" where
  "undisturbed holds pool_id m \<longleftrightarrow>
     (\<forall>s r s'. m s = (r, s') \<longrightarrow> (\<forall>c. holds s c \<longrightarrow> holds s' c) \<and> pool_id s' = pool_id s)"

locale documented_vpc = documented_api v rt lbID holds pool_id
  for v :: "'s VpcSdkGen2" and rt :: "'s Runtime" and lbID :: string
    and holds :: "'s \<Rightarrow> content \<Rightarrow> bool" and pool_id :: "'s \<Rightarrow> string \<Rightarrow> string option" +
  assumes reads: "undisturbed holds pool_id (v1_ListSubnets (gen2_Client v) start)"
      "undisturbed holds pool_id (v1_ListLoadBalancers (gen2_Client v) start)"
      "undisturbed holds pool_id (v1_ListLoadBalancerListeners (gen2_Client v) lbID)"
      "undisturbed holds pool_id (v1_ListLoadBalancerPools (gen2_Client v) lbID)"
      "undisturbed holds pool_id (v1_ListLoadBalancerPoolMembers (gen2_Client v) lbID i)"
    and lists_load_balancers: "holds s c \<Longrightarrow> v1_ListLoadBalancers (gen2_Client v) start s = (Inr (Some page), s') \<Longrightarrow> lb \<in> set (page_Items page) \<Longrightarrow>
      alb_ID lb \<noteq> None \<and> (alb_ID lb = Some lbID \<longrightarrow>
        list_all (\<lambda>r. pool_id s' (SafePointerString (aref_Name r)) = Some (SafePointerString (aref_ID r))) (alb_Pools lb))"
    and lists_listeners: "holds s c \<Longrightarrow> identified c \<Longrightarrow> v1_ListLoadBalancerListeners (gen2_Client v) lbID s = (Inr (Some ls), s') \<Longrightarrow>
      map shown_listener ls = ct_Listeners c \<and> list_all api_listener_ok ls"
    and lists_pools: "holds s c \<Longrightarrow> identified c \<Longrightarrow> v1_ListLoadBalancerPools (gen2_Client v) lbID s = (Inr (Some ps), s') \<Longrightarrow>
      map shown_pool ps = map bare (ct_Pools c)"
    and lists_members: "holds s c \<Longrightarrow> identified c \<Longrightarrow> p \<in> set (ct_Pools c) \<Longrightarrow> ap_ID p = Old i \<Longrightarrow>
      v1_ListLoadBalancerPoolMembers (gen2_Client v) lbID i s = (Inr (Some ms), s') \<Longrightarrow> map shown_member ms = ap_Members p"

subsection \<open>The list operations of the SDK\<close>

lemma undisturbedD: "undisturbed holds pool_id m \<Longrightarrow> m s = (r, s') \<Longrightarrow> holds s c \<Longrightarrow> holds s' c"
  "undisturbed holds pool_id m \<Longrightarrow> m s = (r, s') \<Longrightarrow> pool_id s' = pool_id s"
  by (simp_all add: undisturbed_def)

lemma undisturbed_return: "undisturbed holds pool_id (returnM x)" "undisturbed holds pool_id (raiseM e)" "undisturbed holds pool_id (liftM y)"
  by (simp_all add: undisturbed_def returnM_def raiseM_def liftM_def)

lemma undisturbed_bind:
  assumes "undisturbed holds pool_id m" "\<And>x. undisturbed holds pool_id (f x)"
  shows "undisturbed holds pool_id (bindM m f)"
  using assms unfolding undisturbed_def bindM_def by (fastforce split: prod.splits sum.splits)

lemma undisturbed_deref: "undisturbed holds pool_id (deref p)"
  by (cases p) (simp_all add: deref_def undisturbed_return)

lemmas undisturbed_rules = undisturbed_return undisturbed_bind undisturbed_deref

lemma shown_mapped:
  "abs_listener (mapLoadBalancerListener i) = shown_listener i"
  "bare (abs_pool (mapLoadBalancerPool j)) = shown_pool j"
  "mapLoadBalancerPoolMember k = Inr m \<Longrightarrow> abs_member m = shown_member k"
  by (auto simp: abs_listener_def mapLoadBalancerListener_def mapOptRef_def mapRef_def no_ref_def shown_listener_def
      abs_pool_def mapLoadBalancerPool_def bare_def shown_pool_def mapLoadBalancerPoolHealthMonitor_def no_monitor_def
      mapLoadBalancerPoolMember_def shown_member_def abs_member_def Let_def split: option.splits ApiTarget.splits)

lemma shown_members: "map_members items = Inr ms \<Longrightarrow> map abs_member ms = map shown_member items"
proof -
  have "foldR (\<lambda>acc item. bindR (mapLoadBalancerPoolMember item) (\<lambda>m. Inr (acc @ [m]))) acc items = Inr ms \<Longrightarrow>
      map abs_member ms = map abs_member acc @ map shown_member items" for acc
    by (induction items arbitrary: acc) (auto simp: bindR_def shown_mapped(3) split: sum.splits)
  then show "map_members items = Inr ms \<Longrightarrow> map abs_member ms = map shown_member items"
    unfolding map_members_def by fastforce
qed

text \<open>The paging loop: it changes nothing, and what holds of every item when its page is fetched holds of every item at the end.\<close>

lemma fetchPages_step:
  assumes "fetchPages start_of fetch f (Suc n) start acc s = Some (r, s')" "fetch start s = (a, s1)"
  obtains (stop) e where "r = Inl e" "s' = s1"
    | (last) page where "a = Inr (Some page)" "r = Inr (acc @ map f (page_Items page))" "s' = s1" "page_NextHref page = None"
    | (more) page href st where "a = Inr (Some page)"
      "fetchPages start_of fetch f n (Some st) (acc @ map f (page_Items page)) s1 = Some (r, s')"
      "page_NextHref page = Some href" "start_of href = Inr st"
proof (cases a)
  case (Inl e)
  with assms that(1) show ?thesis by auto
next
  case (Inr p)
  show ?thesis
  proof (cases p)
    case None
    with Inr assms that(1) show ?thesis by auto
  next
    case (Some page)
    show ?thesis
    proof (cases "page_NextHref page")
      case None
      with Inr Some assms that(2) show ?thesis by (simp add: Let_def)
    next
      case href: (Some href)
      show ?thesis
      proof (cases "start_of href")
        case (Inl e)
        with Inr Some href assms that(1) show ?thesis by auto
      next
        case (Inr st)
        from that(3)[of page st href] Inr \<open>a = Inr p\<close> Some href assms show ?thesis by (simp add: Let_def)
      qed
    qed
  qed
qed

lemma fetchPages_undisturbed:
  assumes "\<And>start. undisturbed holds pool_id (fetch start)"
    and "\<And>s start page s' x. holds s c \<Longrightarrow> fetch start s = (Inr (Some page), s') \<Longrightarrow> x \<in> set (page_Items page) \<Longrightarrow> Q (pool_id s') (f x)"
    and "fetchPages start_of fetch f n start acc s = Some (r, s')"
  shows "(\<forall>d. holds s d \<longrightarrow> holds s' d) \<and> pool_id s' = pool_id s \<and>
    (\<forall>ys. holds s c \<longrightarrow> (\<forall>y\<in>set acc. Q (pool_id s) y) \<longrightarrow> r = Inr ys \<longrightarrow> (\<forall>y\<in>set ys. Q (pool_id s) y))"
  using assms(3)
proof (induction n arbitrary: start acc s)
  case (Suc n)
  obtain a s1 where a: "fetch start s = (a, s1)" by (cases "fetch start s")
  note same = undisturbedD[OF assms(1) a]
  from Suc.prems a show ?case
  proof (cases rule: fetchPages_step)
    case (stop e)
    with same show ?thesis by simp
  next
    case (last page)
    with same assms(2)[of s start page s1] a show ?thesis by auto
  next
    case (more page href st)
    have "\<forall>y\<in>set (acc @ map f (page_Items page)). Q (pool_id s1) y" if "holds s c" "\<forall>y\<in>set acc. Q (pool_id s) y"
      using that assms(2)[of s start page s1] a more(1) same(2) by auto
    with Suc.IH[OF more(2)] same show ?thesis by auto
  qed
qed simp

context documented_vpc
begin

lemma list_subnets: "undisturbed holds pool_id (gen2_ListSubnets v)"
  using fetchPages_undisturbed[where Q = "\<lambda>_ _. True", OF reads(1)]
  unfolding gen2_ListSubnets_def undisturbed_def bounded_def by (fastforce split: option.splits)

lemma list_load_balancers:
  assumes "gen2_ListLoadBalancers v s = (r, s')" "holds s c"
  shows "holds s' c" "r = Inr lbs \<Longrightarrow> lb \<in> set lbs \<Longrightarrow> lb_ID lb = lbID \<Longrightarrow> truthful pool_id s' lb"
proof -
  let ?Q = "\<lambda>pid lb. lb_ID lb = lbID \<longrightarrow> list_all (\<lambda>r. pid (ref_Name r) = Some (ref_ID r)) (lb_Pools lb)"
  have item: "?Q (pool_id s2) (mapLoadBalancer x)"
    if "holds s1 c" "v1_ListLoadBalancers (gen2_Client v) start s1 = (Inr (Some page), s2)" "x \<in> set (page_Items page)" for s1 start page s2 x
    using lists_load_balancers[OF that] by (auto simp: mapLoadBalancer_def mapRef_def SafePointerString_def list_all_iff split: option.splits)
  consider "fetchPages (gen2_start v) (v1_ListLoadBalancers (gen2_Client v)) mapLoadBalancer (gen2_fuel v) None [] s = None" "isl r" "s' = s"
    | "fetchPages (gen2_start v) (v1_ListLoadBalancers (gen2_Client v)) mapLoadBalancer (gen2_fuel v) None [] s = Some (r, s')"
    using assms(1) unfolding gen2_ListLoadBalancers_def bounded_def by (auto split: option.splits)
  then have "holds s' c \<and> (\<forall>lbs. r = Inr lbs \<longrightarrow> (\<forall>lb\<in>set lbs. ?Q (pool_id s') lb))"
  proof cases
    case 2
    have "(\<forall>d. holds s d \<longrightarrow> holds s' d) \<and> pool_id s' = pool_id s \<and>
        (\<forall>ys. holds s c \<longrightarrow> (\<forall>y\<in>set ([] :: VpcLoadBalancer list). ?Q (pool_id s) y) \<longrightarrow> r = Inr ys \<longrightarrow> (\<forall>y\<in>set ys. ?Q (pool_id s) y))"
      by (rule fetchPages_undisturbed[where c = c and Q = ?Q, OF reads(2) _ 2]) (rule item)
    with assms(2) show ?thesis by auto
  qed (use assms(2) in auto)
  then show "holds s' c" "r = Inr lbs \<Longrightarrow> lb \<in> set lbs \<Longrightarrow> lb_ID lb = lbID \<Longrightarrow> truthful pool_id s' lb"
    by (auto simp: truthful_def)
qed

lemma list_listeners: "undisturbed holds pool_id (gen2_ListLoadBalancerListeners v lbID)"
  unfolding gen2_ListLoadBalancerListeners_def by (intro undisturbed_rules reads)

lemma list_members: "undisturbed holds pool_id (gen2_ListLoadBalancerPoolMembers v lbID i)"
  unfolding gen2_ListLoadBalancerPoolMembers_def by (intro undisturbed_rules reads)

lemma pool_loop: "undisturbed holds pool_id (gen2_poolLoop v lbID items acc)"
  by (induction items arbitrary: acc) (simp_all add: Let_def undisturbed_return undisturbed_bind list_members)

lemma list_pools: "undisturbed holds pool_id (gen2_ListLoadBalancerPools v lbID)"
  unfolding gen2_ListLoadBalancerPools_def by (intro undisturbed_rules reads pool_loop)

lemma listeners_shown:
  assumes "gen2_ListLoadBalancerListeners v lbID s = (Inr listeners, s')" "holds s c" "identified c"
  shows "map abs_listener listeners = ct_Listeners c \<and> list_all word_listener listeners"
proof -
  obtain ls where "v1_ListLoadBalancerListeners (gen2_Client v) lbID s = (Inr (Some ls), s')" "listeners = map mapLoadBalancerListener ls"
    using assms(1) by (auto simp: gen2_ListLoadBalancerListeners_def bindM_def deref_def returnM_def raiseM_def split: prod.splits sum.splits option.splits)
  with lists_listeners[OF assms(2,3)] show ?thesis
    by (auto simp: comp_def shown_mapped(1) list_all_iff word_mapped_listener)
qed

lemma members_shown:
  assumes "gen2_ListLoadBalancerPoolMembers v lbID i s = (Inr members, s')" "holds s c" "identified c" "p \<in> set (ct_Pools c)" "ap_ID p = Old i"
  shows "map abs_member members = ap_Members p"
proof -
  obtain ms where "v1_ListLoadBalancerPoolMembers (gen2_Client v) lbID i s = (Inr (Some ms), s')" "map_members ms = Inr members"
    using assms(1) by (auto simp: gen2_ListLoadBalancerPoolMembers_def bindM_def deref_def returnM_def raiseM_def liftM_def
        split: prod.splits sum.splits option.splits)
  with lists_members[OF assms(2-5)] show ?thesis by (simp add: shown_members)
qed

lemma bare_with_members: "bare (abs_pool q) = bare p \<Longrightarrow> map abs_member ms = ap_Members p \<Longrightarrow> abs_pool (q\<lparr>pool_Members := ms\<rparr>) = p"
  by (cases p) (simp add: bare_def abs_pool_def)

lemma pool_loop_shown:
  assumes "gen2_poolLoop v lbID items acc s = (Inr pools, s')" "holds s c" "identified c"
    and "map shown_pool items = map bare ps" "set ps \<subseteq> set (ct_Pools c)"
  shows "map abs_pool pools = map abs_pool acc @ ps"
  using assms(1,2,4,5)
proof (induction items arbitrary: acc s ps)
  case Nil
  then show ?case by (simp add: returnM_def)
next
  case (Cons item items)
  let ?pool = "mapLoadBalancerPool item"
  obtain p qs where ps: "ps = p # qs" "shown_pool item = bare p" "map shown_pool items = map bare qs" using Cons.prems(3) by (cases ps) auto
  obtain members s1 where m: "gen2_ListLoadBalancerPoolMembers v lbID (pool_ID ?pool) s = (Inr members, s1)"
      "gen2_poolLoop v lbID items (acc @ [?pool\<lparr>pool_Members := members\<rparr>]) s1 = (Inr pools, s')"
    using Cons.prems(1) by (auto simp: Let_def bindM_def split: prod.splits sum.splits)
  have bare: "bare (abs_pool ?pool) = bare p" using ps(2) shown_mapped(2) by simp
  then have "ap_ID p = Old (pool_ID ?pool)" by (cases p) (simp add: bare_def abs_pool_def)
  with members_shown[OF m(1) Cons.prems(2) assms(3)] ps(1) Cons.prems(4) have "map abs_member members = ap_Members p" by simp
  with bare have "abs_pool (?pool\<lparr>pool_Members := members\<rparr>) = p" by (rule bare_with_members)
  with Cons.IH[OF m(2) undisturbedD(1)[OF list_members m(1) Cons.prems(2)] ps(3)] ps(1) Cons.prems(4) show ?case by simp
qed

lemma pools_shown:
  assumes "gen2_ListLoadBalancerPools v lbID s = (Inr pools, s')" "holds s c" "identified c"
  shows "map abs_pool pools = ct_Pools c"
proof -
  obtain items s1 where i: "v1_ListLoadBalancerPools (gen2_Client v) lbID s = (Inr (Some items), s1)" "gen2_poolLoop v lbID items [] s1 = (Inr pools, s')"
    using assms(1) by (auto simp: gen2_ListLoadBalancerPools_def bindM_def deref_def returnM_def raiseM_def split: prod.splits sum.splits option.splits)
  from pool_loop_shown[OF i(2) undisturbedD(1)[OF reads(4) i(1) assms(2)] assms(3) lists_pools[OF assms(2,3) i(1)]] show ?thesis by simp
qed

end

subsection \<open>Updates\<close>

lemma distinct_old: "distinct (map (\<lambda>x. Old (f x)) xs) = distinct (map f xs)"
  by (simp add: distinct_map inj_on_def)

lemma identified_unique: "identified (abs_content listeners pools) \<Longrightarrow> unique_ids listeners pools"
  by (simp add: identified_def unique_ids_def abs_content_def abs_listener_def abs_pool_def abs_member_def list_all_iff comp_def distinct_old)

lemma identified_wf:
  assumes "identified (abs_content listeners pools)" "set_up (abs_content listeners pools)" "list_all word_listener listeners"
    and "list_all wf_port (svc_Ports service)" "list_all is_word nodeList"
  shows "wf_inputs listeners pools service nodeList"
proof -
  have "pool_fields p \<noteq> None \<and> word_pool p" if "p \<in> set pools" for p
    using that assms(1,2) by (auto simp: identified_def set_up_def abs_content_def abs_pool_def abs_member_def list_all_iff word_pool_def
        spelled_def pool_fields_def split: sum.splits)
  with assms(3-5) show ?thesis by (simp add: wf_inputs_def wf_pool_def list_all_iff)
qed

lemma history_listed:
  fixes service :: Service and nodeList :: "string list"
  assumes "history c" "relisted rho c listeners pools" "list_all wf_port (svc_Ports service)" "distinct_ports service" "distinct nodeList"
  shows "history (abs_content listeners pools)"
  by (rule history.updated[where k = 0, OF assms]) simp

lemma bind_cases:
  assumes "bindM m f s = (r, s')"
  obtains (stop) e where "m s = (Inl e, s')" "r = Inl e" | (go) x s1 where "m s = (Inr x, s1)" "f x s1 = (r, s')"
  using assms by (auto simp: bindM_def split: prod.splits sum.splits)

context documented_vpc
begin

text \<open>An update that stopped before its first request has changed nothing; the other one has listed the load balancer.\<close>

lemma work_cases:
  assumes "updateWork rt (VpcSdkGen2_sdk v) lb service nodes options ro subnets s = (r, s')" "lb_ID lb = lbID" "holds s d"
  obtains (refused) "isl r" "holds s' d"
    | (ran) listeners s2 pools s3 where "validateServiceSubnetsNotUpdated ro service lb subnets = Inr ()"
      "selectNodes service (getServiceZone options) nodes \<noteq> []"
      "gen2_ListLoadBalancerListeners v lbID s = (Inr listeners, s2)" "gen2_ListLoadBalancerPools v lbID s2 = (Inr pools, s3)"
  using assms(1)[unfolded updateWork_def]
proof (cases rule: bind_cases)
  case (stop e)
  with assms(3) show ?thesis by (intro refused) (simp_all add: liftM_def)
next
  case checked: (go u t)
  then have t: "t = s" by (simp add: liftM_def)
  show ?thesis
  proof (cases "selectNodes service (getServiceZone options) nodes = []")
    case True
    with checked(2) assms(3) t show ?thesis by (intro refused) (auto simp: raiseM_def)
  next
    case nodes: False
    from checked(2)[unfolded length_0_conv if_not_P[OF nodes]] show ?thesis
    proof (cases rule: bind_cases)
      case (stop e)
      with undisturbedD(1)[OF list_listeners _ assms(3)] assms(2) t show ?thesis by (intro refused) (simp_all add: VpcSdkGen2_sdk_def)
    next
      case listeners: (go listeners s2)
      then have s2: "holds s2 d" using undisturbedD(1)[OF list_listeners _ assms(3)] assms(2) t by (simp add: VpcSdkGen2_sdk_def)
      from listeners(2) show ?thesis
      proof (cases rule: bind_cases)
        case (stop e)
        with undisturbedD(1)[OF list_pools _ s2] assms(2) show ?thesis by (intro refused) (simp_all add: VpcSdkGen2_sdk_def)
      next
        case (go pools s3)
        with checked(1) nodes listeners(1) assms(2) t show ?thesis by (intro ran) (simp_all add: VpcSdkGen2_sdk_def liftM_def)
      qed
    qed
  qed
qed

lemma update_cases:
  assumes "vpc_Sdk c = VpcSdkGen2_sdk v" "lb_ID lb = lbID" "holds s d"
    and "UpdateLoadBalancer rt c (Some lb) (Some service) (Some nodes) s = (r, s')"
  obtains (refused) "isl r" "holds s' d"
    | (ran) options subnets s1 listeners s2 pools s3 where
      "IsReady lb" "validateService service = Inr options" "validateServiceTypeNotUpdated options lb = Inr ()"
      "gen2_ListSubnets v s = (Inr subnets, s1)" "validateServiceSubnetsNotUpdated (rt_range rt s1) service lb subnets = Inr ()"
      "selectNodes service (getServiceZone options) nodes \<noteq> []"
      "gen2_ListLoadBalancerListeners v lbID s1 = (Inr listeners, s2)" "gen2_ListLoadBalancerPools v lbID s2 = (Inr pools, s3)"
proof (cases "IsReady lb")
  case False
  with assms(3,4) show ?thesis by (intro refused) (auto simp: UpdateLoadBalancer_def)
next
  case ready: True
  have sdk: "sdk_ListSubnets (vpc_Sdk c) = gen2_ListSubnets v" using assms(1) by (simp add: VpcSdkGen2_sdk_def)
  from assms(4)[unfolded UpdateLoadBalancer_steps[OF ready]] show ?thesis
  proof (cases rule: bind_cases)
    case (stop e)
    with assms(3) show ?thesis by (intro refused) (simp_all add: liftM_def)
  next
    case options: (go options t)
    from options(2) show ?thesis
    proof (cases rule: bind_cases)
      case (stop e)
      with assms(3) options(1) show ?thesis by (intro refused) (simp_all add: liftM_def)
    next
      case type: (go u t')
      then have t': "t' = s" using options(1) by (simp add: liftM_def)
      from type(2) show ?thesis
      proof (cases rule: bind_cases)
        case (stop e)
        with undisturbedD(1)[OF list_subnets _ assms(3)] t' sdk show ?thesis by (intro refused) simp_all
      next
        case subnets: (go subnets s1)
        have s1: "holds s1 d" using undisturbedD(1)[OF list_subnets _ assms(3)] subnets(1) t' sdk by simp
        from subnets(2)[unfolded assms(1)] assms(2) s1 show ?thesis
        proof (cases rule: work_cases)
          case refused
          then show ?thesis by (rule that(1))
        next
          case (ran listeners s2 pools s3)
          with ready options(1) type(1) subnets(1) t' sdk show ?thesis by (intro that(2)) (simp_all add: liftM_def)
        qed
      qed
    qed
  qed
qed

lemma update_any:
  assumes "vpc_Sdk c = VpcSdkGen2_sdk v" "lb_ID lb = lbID" "truthful pool_id s lb"
    and "holds s (abs_content ls ps)" "identified (abs_content ls ps)" "history h" "relisted rho h ls ps"
    and "list_all wf_port (svc_Ports service)" "distinct_ports service"
    and "nodeList = getNodeIDs (selectNodes service (getServiceZone (getServiceOptions (Some service))) nodes)"
    and "list_all is_word nodeList" "distinct nodeList"
    and "UpdateLoadBalancer rt c (Some lb) (Some service) (Some nodes) s = (r, s')"
  shows "\<exists>after. holds s' after \<and> history after \<and> (\<not> isl r \<longrightarrow> brought service nodeList (abs_content ls ps) after)"
  using assms(1,2,4,13)
proof (cases rule: update_cases)
  case refused
  then show ?thesis using history_listed[OF assms(6-9,12)] by blast
next
  case (ran options subnets s1 listeners s2 pools s3)
  have options: "options = getServiceOptions (Some service)" using okR_validateService[of service] ran(2) by simp
  note s1 = undisturbedD[OF list_subnets ran(4)] and s2 = undisturbedD[OF list_listeners ran(7)] and s3 = undisturbedD[OF list_pools ran(8)]
  have held: "holds s1 (abs_content ls ps)" "holds s2 (abs_content ls ps)" "holds s3 (abs_content ls ps)" using assms(4) s1 s2 s3 by auto
  have truth: "truthful pool_id s3 lb" using assms(3) s1(2) s2(2) s3(2) by (simp add: truthful_def)
  have shown: "abs_content listeners pools = abs_content ls ps" "list_all word_listener listeners"
    using listeners_shown[OF ran(7) held(1) assms(5)] pools_shown[OF ran(8) held(2) assms(5)] by (simp_all add: abs_content_def)
  have listed: "relisted rho h listeners pools"
    using assms(5,7) shown(1) identified_unique[of listeners pools] by (intro relisted_same[OF assms(7)]) simp_all
  have con: "consistent listeners pools" by (rule relisted_consistent[OF history_set_up[OF assms(6)] listed])
  have wf: "wf_inputs listeners pools service nodeList"
    using assms(5,8,11) shown con by (intro identified_wf) (simp_all add: consistent_set_up)
  have sdk: "sdk_ListSubnets (vpc_Sdk c) = gen2_ListSubnets v" "sdk_ListLoadBalancerListeners (vpc_Sdk c) = gen2_ListLoadBalancerListeners v"
    "sdk_ListLoadBalancerPools (vpc_Sdk c) = gen2_ListLoadBalancerPools v"
    using assms(1) by (simp_all add: VpcSdkGen2_sdk_def)
  obtain k after where after: "holds s' after" "\<not> isl r \<longrightarrow> brought service nodeList (abs_content ls ps) after"
      "exec (effect options nodeList) (take k (plan listeners pools service nodeList)) (abs_content listeners pools) = Some after"
    using update_run[of v rt lb holds pool_id c service options s subnets s1 nodeList nodes listeners s2 pools s3 r s']
      documented_api_axioms assms(1,2,9,10,12,13) ran sdk options held(3) shown(1) truth wf con by auto
  have "history after"
    using after(3) unfolding options by (rule history.updated[OF assms(6) listed assms(8,9,12)])
  with after show ?thesis by blast
qed

end

subsection \<open>The entry points\<close>

text \<open>
  A run that leaves a load balancer with a history and, when it succeeds, one that it has brought in sync with the service and the nodes from the
  content \<open>before\<close> (\<open>brought\<close>: in sync, and every pool has the proxy protocol of the service, except pools under new names, which have none).
\<close>

definition synchronizes :: "('s \<Rightarrow> content \<Rightarrow> bool) \<Rightarrow> content \<Rightarrow> Service \<Rightarrow> string list \<Rightarrow> 'a res \<times> 's \<Rightarrow> bool" where
  "synchronizes holds before service nodeList run \<longleftrightarrow>
     (case run of (r, s') \<Rightarrow> \<exists>after. holds s' after \<and> history after \<and> (\<not> isl r \<longrightarrow> brought service nodeList before after))"

definition unseen :: "'s CloudVpc \<Rightarrow> ('s \<Rightarrow> content \<Rightarrow> bool) \<Rightarrow> bool" where
  "unseen c holds \<longleftrightarrow> (\<forall>record e s d. vpc_Recorder c = Some record \<longrightarrow> holds s d \<longrightarrow> holds (record e s) d)"

text \<open>The load balancer that a search by name finds, if it does not fail.\<close>

definition finds :: "'s CloudVpc \<Rightarrow> string \<Rightarrow> string \<Rightarrow> 's \<Rightarrow> bool" where
  "finds c lbName lbID s \<longleftrightarrow>
     (case FindLoadBalancer c lbName s of (Inl _, _) \<Rightarrow> True | (Inr None, _) \<Rightarrow> False | (Inr (Some lb), _) \<Rightarrow> lb_ID lb = lbID)"

lemma synchronizes_failed: "holds s d \<Longrightarrow> history d \<Longrightarrow> synchronizes holds before service nodeList (Inl e, s)"
  by (auto simp: synchronizes_def)

lemma synchronizes_failWith:
  "unseen c holds \<Longrightarrow> holds s d \<Longrightarrow> history d \<Longrightarrow>
   synchronizes holds before service nodeList (failWith c (Some svc) reason lbName msg s :: 'a res \<times> 's)"
  unfolding failWith_def recordServiceWarningEvent_def bindM_def raiseM_def unseen_def
  by (cases "vpc_Recorder c") (auto simp: Let_def intro: synchronizes_failed)

lemma synchronizes_try:
  assumes "synchronizes holds before service nodeList (m s)" "unseen c holds" "\<And>x s. \<exists>y. f x s = (Inr y, s)"
  shows "synchronizes holds before service nodeList (tryM m (\<lambda>err. failWith c (Some svc) reason lbName (text err)) f s)"
proof -
  obtain r s1 where m: "m s = (r, s1)" by (cases "m s")
  with assms(1) obtain d where d: "holds s1 d" "history d" "\<not> isl r \<longrightarrow> brought service nodeList before d" by (auto simp: synchronizes_def)
  show ?thesis
  proof (cases r)
    case (Inl e)
    with m d assms(2) show ?thesis by (cases e) (auto simp: tryM_def intro: synchronizes_failed synchronizes_failWith)
  next
    case (Inr x)
    with m d assms(3)[of x s1] show ?thesis by (auto simp: tryM_def synchronizes_def)
  qed
qed

context documented_vpc
begin

text \<open>The search, followed by something that updates the load balancer it finds.\<close>

lemma find_first:
  assumes "vpc_Sdk c = VpcSdkGen2_sdk v" "unseen c holds" "holds s d" "history d"
    and "finds c lbName lbID s"
    and "\<And>lb s1. holds s1 d \<Longrightarrow> lb_ID lb = lbID \<Longrightarrow> truthful pool_id s1 lb \<Longrightarrow> synchronizes holds before service nodeList (f (Some lb) s1)"
  shows "synchronizes holds before service nodeList (tryM (FindLoadBalancer c lbName) (\<lambda>err. failWith c (Some svc) reason name (text err)) f s)"
proof -
  obtain r s1 where run: "FindLoadBalancer c lbName s = (r, s1)" by (cases "FindLoadBalancer c lbName s")
  have lists: "sdk_ListLoadBalancers (vpc_Sdk c) = gen2_ListLoadBalancers v" using assms(1) by (simp add: VpcSdkGen2_sdk_def)
  consider (early) "s1 = s" "isl r" | (listed) q where "gen2_ListLoadBalancers v s = (q, s1)"
      "\<And>lb. r = Inr (Some lb) \<Longrightarrow> \<exists>lbs. q = Inr lbs \<and> lb \<in> set lbs"
    using run unfolding FindLoadBalancer_def bindM_def lists returnM_def raiseM_def
    by (fastforce split: if_splits prod.splits sum.splits dest: find_SomeD)
  then have s1: "holds s1 d \<and> (\<forall>lb. r = Inr (Some lb) \<longrightarrow> lb_ID lb = lbID \<longrightarrow> truthful pool_id s1 lb)"
  proof cases
    case (listed q)
    note lbs = list_load_balancers[OF listed(1) assms(3)]
    show ?thesis using listed(2) lbs by blast
  qed (use assms(3) in auto)
  show ?thesis
  proof (cases r)
    case (Inl e)
    with run s1 assms(2,4) show ?thesis by (cases e) (auto simp: tryM_def intro: synchronizes_failed synchronizes_failWith)
  next
    case (Inr found)
    with assms(5) run obtain lb where "found = Some lb" "lb_ID lb = lbID" by (auto simp: finds_def split: option.splits)
    with Inr run s1 assms(6) show ?thesis by (simp add: tryM_def)
  qed
qed

lemma entry_points:
  assumes "vpc_Sdk c = VpcSdkGen2_sdk v" "unseen c holds"
    and "holds s (abs_content ls ps)" "identified (abs_content ls ps)" "history h" "relisted rho h ls ps"
    and "finds c lbName lbID s"
    and "list_all wf_port (svc_Ports service)" "distinct_ports service"
    and "nodeList = getNodeIDs (selectNodes service (getServiceZone (getServiceOptions (Some service))) nodes)"
    and "list_all is_word nodeList" "distinct nodeList"
  shows "synchronizes holds (abs_content ls ps) service nodeList (EnsureLoadBalancer rt c lbName (Some service) (Some nodes) s)"
    and "synchronizes holds (abs_content ls ps) service nodeList (EnsureLoadBalancerUpdated rt c lbName (Some service) (Some nodes) s)"
proof -
  have start: "history (abs_content ls ps)" by (rule history_listed[OF assms(5,6,8,9,12)])
  have update: "synchronizes holds (abs_content ls ps) service nodeList (UpdateLoadBalancer rt c (Some lb) (Some service) (Some nodes) s1)"
    if "holds s1 (abs_content ls ps)" "lb_ID lb = lbID" "truthful pool_id s1 lb" for lb s1
    using update_any[OF assms(1) that(2,3,1) assms(4-6,8-12)]
    by (cases "UpdateLoadBalancer rt c (Some lb) (Some service) (Some nodes) s1") (simp add: synchronizes_def)
  show "synchronizes holds (abs_content ls ps) service nodeList (EnsureLoadBalancer rt c lbName (Some service) (Some nodes) s)"
    unfolding EnsureLoadBalancer_def
    by (rule find_first[OF assms(1-3) start assms(7)])
      (auto simp: updateExisting_def returnM_def intro!: synchronizes_try synchronizes_failWith assms(2) start update)
  show "synchronizes holds (abs_content ls ps) service nodeList (EnsureLoadBalancerUpdated rt c lbName (Some service) (Some nodes) s)"
    unfolding EnsureLoadBalancerUpdated_def
    by (rule find_first[OF assms(1-3) start assms(7)])
      (auto simp: returnM_def intro!: synchronizes_try synchronizes_failWith assms(2) start update)
qed

end

subsection \<open>The reference service lists what it holds\<close>

lemma is_idD: "is_id i \<Longrightarrow> Old (oid_text i) = i" "is_id i \<Longrightarrow> is_word (oid_text i)"
  by (cases i; simp)+

lemma pool_by_idD: "pool_by_id c i = Some p \<Longrightarrow> p \<in> set (ct_Pools c)"
  by (auto simp: pool_by_id_def dest: find_SomeD)

lemma pool_by_id_identified:
  assumes "identified c" "p \<in> set (ct_Pools c)" "ap_ID p = Old i"
  shows "pool_by_id c i = Some p"
proof -
  have same: "q = p" if "q \<in> set (ct_Pools c)" "oid_text (ap_ID q) = i" for q
  proof -
    have "ap_ID q = Old i" using that assms(1) is_idD(1)[of "ap_ID q"] by (auto simp: identified_def list_all_iff)
    with assms that(1) show ?thesis by (auto simp: identified_def distinct_map inj_on_def)
  qed
  from assms(2,3) have "find (\<lambda>p. oid_text (ap_ID p) = i) (ct_Pools c) \<noteq> None" by (auto simp: find_None_iff)
  with same show ?thesis by (auto simp: pool_by_id_def dest: find_SomeD)
qed

lemma reference_listener_shown:
  assumes "identified c" "l \<in> set (ct_Listeners c)"
  shows "shown_listener (api_listener_of c l) = l" "api_listener_ok (api_listener_of c l)"
proof -
  have l: "is_id (al_ID l)" "is_id (al_Pool l)" using assms by (auto simp: identified_def list_all_iff)
  then show "shown_listener (api_listener_of c l) = l"
    by (simp add: shown_listener_def api_listener_of_def SafePointerString_def SafePointerInt64_def is_idD)
  have "is_word (ap_Name p)" if "pool_by_id c (oid_text (al_Pool l)) = Some p" for p
    using pool_by_idD[OF that] assms(1) by (auto simp: identified_def list_all_iff)
  with l show "api_listener_ok (api_listener_of c l)"
    by (auto simp: api_listener_ok_def api_listener_of_def word_or_nil_def is_idD split: option.splits)
qed

lemma reference_pool_shown: "is_id (ap_ID p) \<Longrightarrow> shown_pool (api_pool_of p) = bare p"
  by (cases p) (simp add: shown_pool_def api_pool_of_def bare_def SafePointerString_def SafePointerInt64_def is_idD)

lemma reference_member_shown: "is_id (fst m) \<Longrightarrow> shown_member (api_member_of m) = m"
  by (cases m) (simp add: shown_member_def api_member_of_def SafePointerString_def SafePointerInt64_def is_idD)

interpretation reference_vpc: documented_vpc reference_gen2 reference_runtime lbID "(=)" reference_pool_id
proof (unfold_locales, goal_cases)
  case (6 s c start page s' lb)
  then show ?case
    by (auto simp: reference_gen2_def reference_client_def ex_api_lb_def api_ref_of_def SafePointerString_def list_all_iff split: option.splits)
next
  case (7 s c ls s')
  then show ?case
    by (auto simp: reference_gen2_def reference_client_def list_all_iff comp_def reference_listener_shown intro!: map_idI)
next
  case (8 s c ps s')
  then show ?case
    by (auto simp: reference_gen2_def reference_client_def identified_def list_all_iff reference_pool_shown)
next
  case (9 s c p i ms s')
  then have "ms = map api_member_of (ap_Members p)" using pool_by_id_identified[of c p i] by (simp add: reference_gen2_def reference_client_def)
  moreover have "shown_member (api_member_of m) = m" if "m \<in> set (ap_Members p)" for m
    using that 9(2,3) by (intro reference_member_shown) (auto simp: identified_def list_all_iff)
  ultimately show ?case by (simp add: map_idI)
qed (simp_all add: undisturbed_def reference_gen2_def reference_client_def answered_def)

subsection \<open>Properties\<close>

text \<open>C3: The entry points, end to end. The VPC service does what it documents, and holds a load balancer that the program created and updated
  before, under the identifiers that it has given. Kubernetes calls \<open>EnsureLoadBalancer\<close> or \<open>EnsureLoadBalancerUpdated\<close> with any service with distinct
  TCP ports and any nodes; the load balancer is the one that the search finds if the list request succeeds. Then, whatever requests fail, whether
  the service is accepted or not, and however many pages lists have, the VPC holds afterwards a load balancer with a history again; when the call
  succeeds, it is in sync with the service and the selected nodes, but for the proxy protocol of the pools that this very call
  created: every pool whose name was there before has the proxy protocol that the service asks for, a pool under a new name has none even
  if the service asks for it, as \<open>CreateLoadBalancerPool\<close> does not send it. Without the proxy-protocol option, or when no pool was added, the load balancer is in
  sync in that respect too; otherwise the next call brings it there (\<open>Vpc_Store\<close>).\<close>

theorem entry_points_synchronize:
  assumes "documented_vpc v rt lbID holds pool_id" "vpc_Sdk c = VpcSdkGen2_sdk v" "unseen c holds"
    and "holds s (abs_content ls ps)" "identified (abs_content ls ps)" "history h" "relisted rho h ls ps"
    and "finds c lbName lbID s"
    and "list_all wf_port (svc_Ports service)" "distinct_ports service"
    and "nodeList = getNodeIDs (selectNodes service (getServiceZone (getServiceOptions (Some service))) nodes)"
    and "list_all is_word nodeList" "distinct nodeList"
  shows "synchronizes holds (abs_content ls ps) service nodeList (EnsureLoadBalancer rt c lbName (Some service) (Some nodes) s) \<and>
    synchronizes holds (abs_content ls ps) service nodeList (EnsureLoadBalancerUpdated rt c lbName (Some service) (Some nodes) s)"
  using documented_vpc.entry_points[OF assms] by blast

lemma reference_found: "FindLoadBalancer reference_cloud ''lb'' ex_content = (Inr (Some ex_lb), ex_content)"
  by code_simp

lemma ex_identified: "identified (abs_content ex_listeners ex_pools)" "list_all is_word ex_nodes" "list_all wf_port (svc_Ports ex_service)"
  by code_simp+

theorem entry_points_synchronize_witness:
  "\<exists>status after. EnsureLoadBalancer reference_runtime reference_cloud ''lb'' (Some ex_service) (Some ex_cluster) ex_content =
      (Inr status, after) \<and> history after \<and> brought ex_service ex_nodes ex_content after"
proof -
  obtain r s' where run: "UpdateLoadBalancer reference_runtime reference_cloud (Some ex_lb) (Some ex_service) (Some ex_cluster) ex_content = (r, s')"
    by (cases "UpdateLoadBalancer reference_runtime reference_cloud (Some ex_lb) (Some ex_service) (Some ex_cluster) ex_content")
  with reference_succeeds[OF run] obtain lb' where r: "r = Inr lb'" by (cases r) simp_all
  have ensured: "EnsureLoadBalancer reference_runtime reference_cloud ''lb'' (Some ex_service) (Some ex_cluster) ex_content =
      (Inr (GetLoadBalancerStatus lb'), s')"
    using run r reference_found reference_checks(1) by (simp add: EnsureLoadBalancer_def updateExisting_def tryM_def returnM_def)
  have "lb_ID ex_lb = ''id-1''" by code_simp
  then have found: "finds reference_cloud ''lb'' ''id-1'' ex_content" by (simp add: finds_def reference_found)
  have "unseen reference_cloud (=)" by (simp add: unseen_def reference_cloud_def)
  from entry_points_synchronize[OF reference_vpc.documented_vpc_axioms reference_sdk this ex_content_def ex_identified(1) ex_created_history found
      ex_identified(3) ex_distinct(1) reference_nodes(1) ex_identified(2) ex_distinct(2)] ensured
  show ?thesis by (simp add: synchronizes_def ex_content_def)
qed

end
