(* ===== verification/Vpc_Frame.thy ===== *)
theory Vpc_Frame
  imports Vpc_Gen2
begin

section \<open>One load balancer at a time\<close>

text \<open>
  The entry points for a service send the requests that change something only to the load balancer of that service. A property of the state that
  those requests, the reading ones and the waiting keep is kept by the entry points: for example what the VPC holds for another service. The locale
  \<open>own_requests\<close> says this of an SDK, \<open>own_api_requests\<close> of a client of the VPC API; the Gen2 SDK on such a client is a sublocale.
\<close>

subsection \<open>Rules\<close>

text \<open>\<open>stays Inv post m\<close>: from a state with \<open>Inv\<close>, however it ends, \<open>m\<close> leaves a state with \<open>Inv\<close>, and the value, if there is one, has \<open>post\<close>.\<close>

definition stays :: "('s \<Rightarrow> bool) \<Rightarrow> ('a \<Rightarrow> bool) \<Rightarrow> ('s, 'a) io \<Rightarrow> bool" where
  "stays Inv post m \<longleftrightarrow> (\<forall>s r s'. Inv s \<longrightarrow> m s = (r, s') \<longrightarrow> Inv s' \<and> (\<forall>x. r = Inr x \<longrightarrow> post x))"

lemma staysD: "stays Inv post m \<Longrightarrow> Inv s \<Longrightarrow> m s = (r, s') \<Longrightarrow> Inv s'"
  "stays Inv post m \<Longrightarrow> Inv s \<Longrightarrow> m s = (Inr x, s') \<Longrightarrow> post x"
  by (auto simp: stays_def)

lemma stays_weaken: "stays Inv post m \<Longrightarrow> (\<And>x. post x \<Longrightarrow> post' x) \<Longrightarrow> stays Inv post' m"
  by (auto simp: stays_def)

lemma stays_return: "post x \<Longrightarrow> stays Inv post (returnM x)"
  by (simp add: stays_def returnM_def)

lemma stays_raise: "stays Inv post (raiseM e)"
  by (simp add: stays_def raiseM_def)

lemma stays_lift: "stays Inv (\<lambda>_. True) (liftM r)"
  by (simp add: stays_def liftM_def)

lemma stays_bind:
  assumes "stays Inv mid m" "\<And>x. mid x \<Longrightarrow> stays Inv post (f x)"
  shows "stays Inv post (bindM m f)"
  unfolding stays_def
proof (intro allI impI)
  fix s r s' assume s: "Inv s" "bindM m f s = (r, s')"
  obtain a s1 where a: "m s = (a, s1)" by (cases "m s")
  show "Inv s' \<and> (\<forall>x. r = Inr x \<longrightarrow> post x)"
  proof (cases a)
    case (Inl e)
    with s a staysD(1)[OF assms(1) s(1) a] show ?thesis by (auto simp: bindM_def)
  next
    case (Inr x)
    with s a staysD[OF assms(1) s(1)] assms(2)[of x] show ?thesis by (auto simp: bindM_def stays_def)
  qed
qed

lemma stays_seq: "stays Inv (\<lambda>_. True) m \<Longrightarrow> (\<And>x. stays Inv post (f x)) \<Longrightarrow> stays Inv post (bindM m f)"
  by (rule stays_bind)

lemma stays_try:
  assumes "stays Inv mid m" "\<And>e. stays Inv post (handler e)" "\<And>x. mid x \<Longrightarrow> stays Inv post (f x)"
  shows "stays Inv post (tryM m handler f)"
  unfolding stays_def
proof (intro allI impI)
  fix s r s' assume s: "Inv s" "tryM m handler f s = (r, s')"
  obtain a s1 where a: "m s = (a, s1)" by (cases "m s")
  show "Inv s' \<and> (\<forall>x. r = Inr x \<longrightarrow> post x)"
  proof (cases a)
    case (Inl e)
    with s a staysD(1)[OF assms(1) s(1) a] assms(2) show ?thesis by (cases e) (auto simp: tryM_def stays_def)
  next
    case (Inr x)
    with s a staysD[OF assms(1) s(1)] assms(3)[of x] show ?thesis by (auto simp: tryM_def stays_def)
  qed
qed

lemma stays_if: "(b \<Longrightarrow> stays Inv post m) \<Longrightarrow> (\<not> b \<Longrightarrow> stays Inv post n) \<Longrightarrow> stays Inv post (if b then m else n)"
  by simp

lemma stays_option:
  "stays Inv post m \<Longrightarrow> (\<And>x. stays Inv post (f x)) \<Longrightarrow> stays Inv post (case p of None \<Rightarrow> m | Some x \<Rightarrow> f x)"
  by (simp split: option.split)

lemma stays_prod: "(\<And>x y. stays Inv post (f x y)) \<Longrightarrow> stays Inv post (case p of (x, y) \<Rightarrow> f x y)"
  by (simp split: prod.split)

lemma stays_return_any: "stays Inv (\<lambda>_. True) (returnM x)"
  by (rule stays_return) (rule TrueI)

lemma stays_state: "(\<And>t. stays Inv post (f t)) \<Longrightarrow> stays Inv post (\<lambda>s. f (g s) s)"
  by (auto simp: stays_def)

subsection \<open>Contracts\<close>

text \<open>\<open>own\<close>: the load balancers that requests may be sent for. What a request for one of them returns is about one of them.\<close>

locale own_requests =
  fixes sdk :: "'s CloudVpcSdk" and rt :: "'s Runtime" and Inv :: "'s \<Rightarrow> bool" and own :: "string \<Rightarrow> bool"
  assumes reading: "stays Inv (\<lambda>_. True) (sdk_ListLoadBalancers sdk)" "stays Inv (\<lambda>_. True) (sdk_ListSubnets sdk)"
    and listing: "own lbID \<Longrightarrow> stays Inv (\<lambda>_. True) (sdk_ListLoadBalancerListeners sdk lbID)"
      "own lbID \<Longrightarrow> stays Inv (\<lambda>_. True) (sdk_ListLoadBalancerPools sdk lbID)"
      "own lbID \<Longrightarrow> stays Inv (\<lambda>lb. own (lb_ID lb)) (sdk_GetLoadBalancer sdk lbID)"
    and changing: "own lbID \<Longrightarrow> stays Inv (\<lambda>_. True) (sdk_CreateLoadBalancerListener sdk lbID n i)"
      "own lbID \<Longrightarrow> stays Inv (\<lambda>_. True) (sdk_CreateLoadBalancerPool sdk lbID n nodeList options)"
      "own lbID \<Longrightarrow> stays Inv (\<lambda>_. True) (sdk_CreateLoadBalancerPoolMember sdk lbID n i node)"
      "own lbID \<Longrightarrow> stays Inv (\<lambda>_. True) (sdk_DeleteLoadBalancerListener sdk lbID i)"
      "own lbID \<Longrightarrow> stays Inv (\<lambda>_. True) (sdk_DeleteLoadBalancerPool sdk lbID i)"
      "own lbID \<Longrightarrow> stays Inv (\<lambda>_. True) (sdk_DeleteLoadBalancerPoolMember sdk lbID i j)"
      "own lbID \<Longrightarrow> stays Inv (\<lambda>_. True) (sdk_ReplaceLoadBalancerPoolMembers sdk lbID n i nodeList)"
      "own lbID \<Longrightarrow> stays Inv (\<lambda>_. True) (sdk_UpdateLoadBalancerPool sdk lbID n pool options)"
    and waiting: "Inv s \<Longrightarrow> Inv (rt_Sleep rt d s)"
begin

lemma stays_processUpdate:
  assumes "own (lb_ID lb)"
  shows "stays Inv (\<lambda>_. True) (processUpdate sdk lb nodeList pools options update)"
  unfolding processUpdate_def createLoadBalancerListener_def createLoadBalancerPool_def createLoadBalancerPoolMember_def
    deleteLoadBalancerListener_def deleteLoadBalancerPool_def deleteLoadBalancerPoolMember_def updateLoadBalancerPool_def
    replaceLoadBalancerPoolMembers_def Let_def option.case
  by (intro stays_seq[OF stays_lift] stays_if stays_raise stays_option stays_return_any changing assms stays_seq[OF changing(1)] stays_seq[OF changing(2)]
      stays_seq[OF changing(3)] stays_seq[OF changing(7)] stays_seq[OF changing(8)])

lemma stays_waitLoop: "own lbID \<Longrightarrow> own (lb_ID lb) \<Longrightarrow> stays Inv (\<lambda>lb. own (lb_ID lb)) (waitLoop rt sdk lbID startTime minSleep maxWait n lb)"
proof (induction n arbitrary: lb)
  case 0
  then show ?case by (simp add: stays_def)
next
  case (Suc n)
  have again: "stays Inv (\<lambda>lb. own (lb_ID lb)) (bindM (sdk_GetLoadBalancer sdk lbID) (waitLoop rt sdk lbID startTime minSleep maxWait n))"
    by (rule stays_bind[OF listing(3)[OF Suc.prems(1)]]) (rule Suc.IH[OF Suc.prems(1)])
  have "Inv s' \<and> (\<forall>x. r = Inr x \<longrightarrow> own (lb_ID x))"
    if s: "Inv s" and run: "waitLoop rt sdk lbID startTime minSleep maxWait (Suc n) lb s = (r, s')" for s r s'
  proof (cases "IsReady lb \<or> rt_Now rt s - startTime > maxWait * second")
    case True
    with s run Suc.prems show ?thesis by (auto split: if_splits)
  next
    case False
    with run have "bindM (sdk_GetLoadBalancer sdk lbID) (waitLoop rt sdk lbID startTime minSleep maxWait n)
        (rt_Sleep rt (second * minSleep) s) = (r, s')" by simp
    from staysD(1)[OF again waiting[OF s] this] staysD(2)[OF again waiting[OF s]] this show ?thesis by blast
  qed
  then show ?case unfolding stays_def by blast
qed

lemma stays_wait: "own (lb_ID lb) \<Longrightarrow> stays Inv (\<lambda>lb. own (lb_ID lb)) (WaitLoadBalancerReady rt sdk lb minSleep maxWait)"
  using stays_waitLoop[of "lb_ID lb" lb] by (simp add: stays_def WaitLoadBalancerReady_def)

lemma stays_refresh:
  assumes "own (lb_ID lb)"
  shows "stays Inv (\<lambda>lb. own (lb_ID lb)) (refreshLoadBalancer rt sdk lb)"
  unfolding refreshLoadBalancer_def Let_def by (rule stays_bind[OF listing(3)[OF assms]]) (intro stays_if stays_wait stays_return)

lemma stays_processUpdates:
  "own (lb_ID lb) \<Longrightarrow> stays Inv (\<lambda>lb. own (lb_ID lb)) (processUpdates rt sdk nodeList pools options i lb updates)"
proof (induction updates arbitrary: i lb)
  case Nil
  then show ?case unfolding processUpdates.simps by (rule stays_return)
next
  case (Cons u updates)
  have "stays Inv (\<lambda>lb. own (lb_ID lb)) (if i > 0 then refreshLoadBalancer rt sdk lb else returnM lb)"
    using Cons.prems by (intro stays_if stays_refresh stays_return)
  then show ?case
    unfolding processUpdates.simps by (rule stays_bind) (rule stays_seq[OF stays_processUpdate Cons.IH])
qed

lemma stays_UpdateLoadBalancer:
  assumes "vpc_Sdk c = sdk" "own (lb_ID lb)"
  shows "stays Inv (\<lambda>lb. own (lb_ID lb)) (UpdateLoadBalancer rt c (Some lb) (Some service) (Some nodes))"
proof (cases "IsReady lb")
  case False
  then show ?thesis by (simp add: stays_def UpdateLoadBalancer_def)
next
  case True
  have "stays Inv (\<lambda>lb. own (lb_ID lb)) (updateWork rt sdk lb service nodes options ro subnets)" for options ro subnets
    unfolding updateWork_def
    by (rule stays_seq[OF stays_lift], rule stays_if, rule stays_raise, rule stays_seq[OF listing(1)[OF assms(2)]], rule stays_seq[OF listing(2)[OF assms(2)]],
        rule stays_seq[OF stays_lift], rule stays_prod, rule stays_if, rule stays_return, rule assms(2), rule stays_processUpdates, rule assms(2))
  then have "stays Inv (\<lambda>lb. own (lb_ID lb)) (\<lambda>s. updateWork rt sdk lb service nodes options (rt_range rt s) subnets s)" for options subnets
    by (rule stays_state[where f = "\<lambda>ro. updateWork rt sdk lb service nodes options ro subnets" and g = "rt_range rt"])
  then show ?thesis
    unfolding UpdateLoadBalancer_steps[OF True] assms(1)
    by (intro stays_seq[OF stays_lift] stays_seq[OF reading(2)])
qed

end

locale own_calls = own_requests sdk rt Inv own
  for sdk :: "'s CloudVpcSdk" and rt :: "'s Runtime" and Inv :: "'s \<Rightarrow> bool" and own :: "string \<Rightarrow> bool" +
  fixes c :: "'s CloudVpc" and lbName :: string
  assumes cloud_sdk: "vpc_Sdk c = sdk"
    and creating: "stays Inv (\<lambda>_. True) (sdk_CreateLoadBalancer sdk lbName nodeList poolNames subnets options)"
    and recording: "vpc_Recorder c = Some record \<Longrightarrow> Inv s \<Longrightarrow> Inv (record e s)"
begin

lemma stays_failWith: "stays Inv post (failWith c (Some service) reason n text)"
  unfolding failWith_def stays_def
  by (auto simp: recordServiceWarningEvent_def bindM_def raiseM_def Let_def recording split: option.splits)

lemma stays_FindLoadBalancer: "stays Inv (\<lambda>_. True) (FindLoadBalancer c lbName)"
  unfolding FindLoadBalancer_def cloud_sdk by (intro stays_if stays_raise stays_seq[OF reading(1)] stays_return_any)

lemma stays_CreateLoadBalancer: "stays Inv (\<lambda>_. True) (CreateLoadBalancer rt c lbName (Some service) (Some nodes))"
proof (cases "lbName = []")
  case True
  then show ?thesis by (simp add: stays_def CreateLoadBalancer_def Let_def)
next
  case False
  have work: "stays Inv (\<lambda>_. True) (createWork sdk lbName service nodes options subnets)" for options subnets
    unfolding createWork_def by (intro stays_seq[OF stays_lift] stays_if stays_raise creating)
  show ?thesis
    unfolding CreateLoadBalancer_steps[OF False] cloud_sdk Let_def
    by (intro stays_seq[OF stays_lift] stays_seq[OF reading(2)]) (use staysD(1)[OF work] in \<open>auto simp: stays_def split: list.splits\<close>)
qed

text \<open>The entry points for a name, if the search for it finds only load balancers that requests may be sent for.\<close>

lemma stays_entry_points:
  assumes "stays Inv (\<lambda>found. case found of None \<Rightarrow> True | Some lb \<Rightarrow> own (lb_ID lb)) (FindLoadBalancer c lbName)"
  shows "stays Inv (\<lambda>_. True) (EnsureLoadBalancer rt c lbName (Some service) (Some nodes))"
    and "stays Inv (\<lambda>_. True) (EnsureLoadBalancerUpdated rt c lbName (Some service) (Some nodes))"
    and "(\<And>lbID. own lbID \<Longrightarrow> stays Inv (\<lambda>_. True) (sdk_DeleteLoadBalancer sdk lbID)) \<Longrightarrow>
      stays Inv (\<lambda>_. True) (EnsureLoadBalancerDeleted c lbName (Some service))"
proof -
  have existing: "stays Inv (\<lambda>_. True) (updateExisting rt c lbName (Some service) (Some nodes) lb)" if "IsReady lb \<longrightarrow> own (lb_ID lb)" for lb
    using that unfolding updateExisting_def
    by (intro stays_if stays_failWith stays_try[OF stays_UpdateLoadBalancer[OF cloud_sdk]] stays_return_any) simp_all
  show "stays Inv (\<lambda>_. True) (EnsureLoadBalancer rt c lbName (Some service) (Some nodes))"
    unfolding EnsureLoadBalancer_def
  proof (rule stays_try[OF assms stays_failWith], goal_cases)
    case (1 found)
    then show ?case
    proof (cases found)
      case None
      then show ?thesis unfolding None option.case
        by (intro stays_try[OF stays_CreateLoadBalancer stays_failWith] stays_if stays_return_any existing) simp
    next
      case (Some lb)
      with 1 show ?thesis by (simp add: existing)
    qed
  qed
  show "stays Inv (\<lambda>_. True) (EnsureLoadBalancerUpdated rt c lbName (Some service) (Some nodes))"
    unfolding EnsureLoadBalancerUpdated_def
  proof (rule stays_try[OF assms stays_failWith], goal_cases)
    case (1 found)
    then show ?case unfolding updateExisting_def
      by (cases found; simp only: option.case)
        (intro stays_return_any stays_if stays_failWith stays_try[OF stays_UpdateLoadBalancer[OF cloud_sdk] stays_failWith]; assumption)+
  qed
  show "stays Inv (\<lambda>_. True) (EnsureLoadBalancerDeleted c lbName (Some service))"
    if "\<And>lbID. own lbID \<Longrightarrow> stays Inv (\<lambda>_. True) (sdk_DeleteLoadBalancer sdk lbID)"
    unfolding EnsureLoadBalancerDeleted_def
  proof (rule stays_try[OF assms stays_failWith], goal_cases)
    case (1 found)
    with that show ?case
      by (cases found; simp only: option.case DeleteLoadBalancer_def cloud_sdk)
        (intro stays_return_any stays_try[OF that stays_failWith])+
  qed
qed

end

subsection \<open>The Gen2 SDK\<close>

lemma stays_deref: "stays Inv post m \<Longrightarrow> (\<And>x. post (Some x) \<Longrightarrow> stays Inv post' (f x)) \<Longrightarrow> stays Inv post' (bindM m (\<lambda>p. bindM (deref p) f))"
proof (rule stays_bind, assumption)
  fix p assume f: "\<And>x. post (Some x) \<Longrightarrow> stays Inv post' (f x)" "post p"
  show "stays Inv post' (bindM (deref p) f)"
  proof (cases p)
    case None
    then show ?thesis by (simp add: deref_def stays_def bindM_def raiseM_def)
  next
    case (Some x)
    with f show ?thesis by (simp add: deref_def stays_def bindM_def returnM_def)
  qed
qed

lemma stays_fetchPages:
  assumes "\<And>start. stays Inv (\<lambda>_. True) (fetch start)" "Inv s" "fetchPages start_of fetch f n start acc s = Some (r, s')"
  shows "Inv s'"
  using assms(2,3)
proof (induction n arbitrary: start acc s)
  case (Suc n)
  obtain a s1 where a: "fetch start s = (a, s1)" by (cases "fetch start s")
  have "Inv s1" by (rule staysD(1)[OF assms(1) Suc.prems(1) a])
  with Suc a show ?case by (auto simp: Let_def split: sum.splits option.splits)
qed simp

lemma stays_pages:
  assumes "\<And>start. stays Inv (\<lambda>_. True) (fetch start)"
  shows "stays Inv (\<lambda>_. True) (bounded (fetchPages start_of fetch f n start acc))"
  unfolding stays_def bounded_def using stays_fetchPages[OF assms] by (auto split: option.splits)

locale own_api_requests =
  fixes v :: "'s VpcSdkGen2" and rt :: "'s Runtime" and Inv :: "'s \<Rightarrow> bool" and own :: "string \<Rightarrow> bool"
  assumes api_reading: "stays Inv (\<lambda>_. True) (v1_ListLoadBalancers (gen2_Client v) start)" "stays Inv (\<lambda>_. True) (v1_ListSubnets (gen2_Client v) start)"
    and api_listing: "own lbID \<Longrightarrow> stays Inv (\<lambda>_. True) (v1_ListLoadBalancerListeners (gen2_Client v) lbID)"
      "own lbID \<Longrightarrow> stays Inv (\<lambda>_. True) (v1_ListLoadBalancerPools (gen2_Client v) lbID)"
      "own lbID \<Longrightarrow> stays Inv (\<lambda>_. True) (v1_ListLoadBalancerPoolMembers (gen2_Client v) lbID i)"
      "own lbID \<Longrightarrow> stays Inv (\<lambda>r. case r of None \<Rightarrow> True | Some lb \<Rightarrow> own (SafePointerString (alb_ID lb))) (v1_GetLoadBalancer (gen2_Client v) lbID)"
    and api_changing: "own lbID \<Longrightarrow> stays Inv (\<lambda>_. True) (v1_CreateLoadBalancerListener (gen2_Client v) lbID lreq)"
      "own lbID \<Longrightarrow> stays Inv (\<lambda>_. True) (v1_CreateLoadBalancerPool (gen2_Client v) lbID preq)"
      "own lbID \<Longrightarrow> stays Inv (\<lambda>_. True) (v1_CreateLoadBalancerPoolMember (gen2_Client v) lbID i mreq)"
      "own lbID \<Longrightarrow> stays Inv (\<lambda>_. True) (v1_DeleteLoadBalancerListener (gen2_Client v) lbID i)"
      "own lbID \<Longrightarrow> stays Inv (\<lambda>_. True) (v1_DeleteLoadBalancerPool (gen2_Client v) lbID i)"
      "own lbID \<Longrightarrow> stays Inv (\<lambda>_. True) (v1_DeleteLoadBalancerPoolMember (gen2_Client v) lbID i j)"
      "own lbID \<Longrightarrow> stays Inv (\<lambda>_. True) (v1_ReplaceLoadBalancerPoolMembers (gen2_Client v) lbID i mreqs)"
      "own lbID \<Longrightarrow> stays Inv (\<lambda>_. True) (v1_UpdateLoadBalancerPool (gen2_Client v) lbID i patch)"
    and api_waiting: "Inv s \<Longrightarrow> Inv (rt_Sleep rt d s)"
begin

lemma stays_members: "own lbID \<Longrightarrow> stays Inv (\<lambda>_. True) (gen2_ListLoadBalancerPoolMembers v lbID i)"
  unfolding gen2_ListLoadBalancerPoolMembers_def by (intro stays_deref[OF api_listing(3)] stays_lift)

lemma stays_poolLoop: "own lbID \<Longrightarrow> stays Inv (\<lambda>_. True) (gen2_poolLoop v lbID items acc)"
proof (induction items arbitrary: acc)
  case Nil
  show ?case unfolding gen2_poolLoop.simps by (rule stays_return_any)
next
  case (Cons item items)
  then show ?case unfolding gen2_poolLoop.simps Let_def by (intro stays_seq[OF stays_members])
qed

end

sublocale own_api_requests \<subseteq> gen2: own_requests "VpcSdkGen2_sdk v" rt Inv own
proof (unfold_locales, unfold VpcSdkGen2_sdk_def CloudVpcSdk.simps gen2_ListLoadBalancers_def gen2_ListSubnets_def
    gen2_ListLoadBalancerListeners_def gen2_ListLoadBalancerPools_def gen2_GetLoadBalancer_def
    gen2_CreateLoadBalancerListener_def gen2_CreateLoadBalancerPool_def gen2_CreateLoadBalancerPoolMember_def
    gen2_DeleteLoadBalancerListener_def gen2_DeleteLoadBalancerPool_def gen2_DeleteLoadBalancerPoolMember_def
    gen2_ReplaceLoadBalancerPoolMembers_def gen2_UpdateLoadBalancerPool_def Let_def, goal_cases)
  case (5 lbID)
  show ?case
    by (rule stays_deref[OF api_listing(4)[OF 5]], rule stays_return) (simp add: mapLoadBalancer_def)
qed (intro stays_pages api_reading api_listing api_changing stays_deref[OF api_listing(1)] stays_deref[OF api_listing(2)] stays_poolLoop
    stays_return_any stays_seq[OF stays_lift] stays_lift stays_deref[OF api_changing(1)] stays_deref[OF api_changing(2)]
    stays_deref[OF api_changing(3)] stays_deref[OF api_changing(7)] stays_deref[OF api_changing(8)] api_waiting; assumption?)+

context own_api_requests
begin

lemma gen2_own_requests: "own_requests (VpcSdkGen2_sdk v) rt Inv own"
  by (rule gen2.own_requests_axioms)

lemma gen2_own_calls:
  assumes "vpc_Sdk c = VpcSdkGen2_sdk v" "\<And>req. clb_Name req = lbName \<Longrightarrow> stays Inv (\<lambda>_. True) (v1_CreateLoadBalancer (gen2_Client v) req)"
    and "\<forall>record s e. vpc_Recorder c = Some record \<longrightarrow> Inv s \<longrightarrow> Inv (record e s)"
  shows "own_calls (VpcSdkGen2_sdk v) rt Inv own c lbName"
proof -
  have "stays Inv (\<lambda>_. True) (sdk_CreateLoadBalancer (VpcSdkGen2_sdk v) lbName nodeList poolNames subnets options)"
    for nodeList poolNames subnets options
    unfolding VpcSdkGen2_sdk_def CloudVpcSdk.simps gen2_CreateLoadBalancer_def
    by (rule stays_seq[OF stays_lift], rule stays_prod, rule stays_deref[OF assms(2)], simp, rule stays_return_any)
  then have "own_calls_axioms (VpcSdkGen2_sdk v) Inv c lbName" using assms(1,3) by unfold_locales blast+
  then show ?thesis by (rule own_calls.intro[OF gen2_own_requests])
qed

end

end
