(* ===== verification/Vpc_Reconcile.thy ===== *)
theory Vpc_Reconcile
  imports Vpc_Ensure Vpc_Frame
begin

section \<open>A VPC with many load balancers\<close>

text \<open>
  The controller serves many services, each with a load balancer of its own name. The locale \<open>documented_cloud\<close> puts the contracts together: for every
  load balancer that of \<open>Vpc_Ensure\<close>, that a request for one load balancer does not change another (\<open>Vpc_Frame\<close>), creation, deletion and the meaning of
  names. In it, calls for any services follow each other, failing or not: load balancers keep a history, and the load balancer of a
  service is what the last successful call for that service made it, whatever calls for other services came after.
\<close>

subsection \<open>Contracts\<close>

text \<open>
  \<open>holds i s c\<close>: the VPC in state \<open>s\<close> holds the content \<open>c\<close> for the load balancer with the ID \<open>i\<close>; \<open>owner s n\<close>: the load balancer that has \<open>n\<close> as its
  ID, name or hostname; \<open>names\<close>: the names in use for services, which are no IDs or hostnames.
\<close>

definition placed :: "(string \<Rightarrow> 's \<Rightarrow> content \<Rightarrow> bool) \<Rightarrow> ('s \<Rightarrow> string \<Rightarrow> string option) \<Rightarrow> string \<Rightarrow> string \<Rightarrow> content \<Rightarrow> 's \<Rightarrow> bool" where
  "placed holds owner n i c s \<longleftrightarrow> owner s n = Some i \<and> holds i s c"

definition has_key :: "string \<Rightarrow> ApiLoadBalancer \<Rightarrow> bool" where
  "has_key n lb \<longleftrightarrow> n = SafePointerString (alb_ID lb) \<or> n = SafePointerString (alb_Name lb) \<or> n = SafePointerString (alb_Hostname lb)"

locale documented_cloud =
  fixes v :: "'s VpcSdkGen2" and rt :: "'s Runtime" and holds :: "string \<Rightarrow> 's \<Rightarrow> content \<Rightarrow> bool"
    and pool_id :: "string \<Rightarrow> 's \<Rightarrow> string \<Rightarrow> string option" and owner :: "'s \<Rightarrow> string \<Rightarrow> string option" and names :: "string set"
  assumes each: "documented_vpc v rt i (holds i) (pool_id i)"
    and apart: "own_api_requests v rt (placed holds owner n i c) (\<lambda>j. j \<noteq> i)"
    and owner_kept: "own_api_requests v rt (\<lambda>s. owner s n = p) (\<lambda>_. True)"
    and create_apart: "stays (\<lambda>s. holds i s c) (\<lambda>_. True) (v1_CreateLoadBalancer (gen2_Client v) req)"
      "stays (\<lambda>s. owner s n = Some i) (\<lambda>_. True) (v1_CreateLoadBalancer (gen2_Client v) req)"
    and creates: "v1_CreateLoadBalancer (gen2_Client v) req s = (r, s') \<Longrightarrow> n \<in> names \<Longrightarrow> owner s' n = Some i \<Longrightarrow>
        owner s n = Some i \<or> n = clb_Name req \<and> holds i s' (abs_create req)"
    and created: "v1_CreateLoadBalancer (gen2_Client v) req s = (Inr lb, s') \<Longrightarrow> clb_Name req \<in> names \<Longrightarrow>
        owner s (clb_Name req) = None \<and> owner s' (clb_Name req) \<noteq> None"
    and delete_apart: "j \<noteq> i \<Longrightarrow> stays (placed holds owner n i c) (\<lambda>_. True) (v1_DeleteLoadBalancer (gen2_Client v) j)"
    and deletes: "v1_DeleteLoadBalancer (gen2_Client v) i s = (q, s') \<Longrightarrow> owner s' n = Some i \<Longrightarrow> holds i s c \<Longrightarrow> holds i s' c"
      "v1_DeleteLoadBalancer (gen2_Client v) i s = (q, s') \<Longrightarrow> n \<in> names \<Longrightarrow> owner s' n = Some j \<Longrightarrow> owner s n = Some j"
    and resolves: "serves_pages (gen2_start v) (v1_ListLoadBalancers (gen2_Client v)) None s pages s' \<Longrightarrow>
        owner s n = map_option (\<lambda>lb. SafePointerString (alb_ID lb)) (find (has_key n) (concat (map page_Items pages)))"
    and named_apart: "n \<in> names \<Longrightarrow> m \<in> names \<Longrightarrow> owner s n = Some i \<Longrightarrow> owner s m = Some i \<Longrightarrow> n = m"
    and no_empty_name: "[] \<notin> names"
    and identifies: "holds i s c \<Longrightarrow> \<exists>rho ls ps. relisted rho c ls ps \<and> identified (abs_content ls ps) \<and> holds i s (abs_content ls ps)"

locale controller = documented_cloud v rt holds pool_id owner names
  for v :: "'s VpcSdkGen2" and rt :: "'s Runtime" and holds :: "string \<Rightarrow> 's \<Rightarrow> content \<Rightarrow> bool"
    and pool_id :: "string \<Rightarrow> 's \<Rightarrow> string \<Rightarrow> string option" and owner :: "'s \<Rightarrow> string \<Rightarrow> string option" and names :: "string set" +
  fixes c :: "'s CloudVpc"
  assumes gen2_sdk: "vpc_Sdk c = VpcSdkGen2_sdk v"
    and records: "vpc_Recorder c = Some record \<Longrightarrow> owner (record e s) = owner s"
      "vpc_Recorder c = Some record \<Longrightarrow> holds i s d \<Longrightarrow> holds i (record e s) d"

text \<open>Every load balancer of a service has a history; the load balancer of a service is in sync.\<close>

definition managed :: "(string \<Rightarrow> 's \<Rightarrow> content \<Rightarrow> bool) \<Rightarrow> ('s \<Rightarrow> string \<Rightarrow> string option) \<Rightarrow> string set \<Rightarrow> 's \<Rightarrow> bool" where
  "managed holds owner names s \<longleftrightarrow> (\<forall>n \<in> names. \<forall>i. owner s n = Some i \<longrightarrow> (\<exists>d. holds i s d \<and> history d))"

definition settled :: "(string \<Rightarrow> 's \<Rightarrow> content \<Rightarrow> bool) \<Rightarrow> ('s \<Rightarrow> string \<Rightarrow> string option) \<Rightarrow> string \<Rightarrow> Service \<Rightarrow> string list \<Rightarrow> 's \<Rightarrow> bool" where
  "settled holds owner n service nodeList s \<longleftrightarrow> (\<exists>i d. owner s n = Some i \<and> holds i s d \<and> in_sync service nodeList d)"

text \<open>\<open>reached\<close>: settled, with a history, and with the proxy protocol of the service, which for services with that option is asked for only if \<open>final\<close>.\<close>

definition reached :: "bool \<Rightarrow> (string \<Rightarrow> 's \<Rightarrow> content \<Rightarrow> bool) \<Rightarrow> ('s \<Rightarrow> string \<Rightarrow> string option) \<Rightarrow> string \<Rightarrow> Service \<Rightarrow> string list \<Rightarrow> 's \<Rightarrow> bool" where
  "reached final holds owner n service nodeList s \<longleftrightarrow>
     (\<exists>i d. owner s n = Some i \<and> holds i s d \<and> history d \<and> in_sync service nodeList d \<and>
        (final \<or> \<not> isProxyProtocol (getServiceOptions (Some service)) \<longrightarrow> proxies_ok service d))"

lemma reached_settled: "reached final holds owner n service nodeList s \<Longrightarrow> settled holds owner n service nodeList s"
  by (auto simp: reached_def settled_def)

subsection \<open>Names\<close>

lemma fetchPages_pages:
  assumes "fetchPages start_of fetch f n start acc s = Some (Inr ys, s')"
  shows "\<exists>pages. serves_pages start_of fetch start s pages s' \<and> ys = acc @ map f (concat (map page_Items pages))"
  using assms
proof (induction n arbitrary: start acc s)
  case (Suc n)
  obtain a s1 where a: "fetch start s = (a, s1)" by (cases "fetch start s")
  from Suc.prems a show ?case
  proof (cases rule: fetchPages_step)
    case (last page)
    with a show ?thesis by (intro exI[of _ "[page]"]) simp
  next
    case (more page href st)
    with Suc.IH[OF more(2)] a obtain pages where "serves_pages start_of fetch (Some st) s1 pages s'"
        "ys = (acc @ map f (page_Items page)) @ map f (concat (map page_Items pages))" by blast
    with more a show ?thesis by (intro exI[of _ "page # pages"]) simp
  qed simp
qed simp

lemma find_map: "find P (map f xs) = map_option f (find (\<lambda>x. P (f x)) xs)"
  by (induction xs) simp_all

context controller
begin

lemma find_resolves:
  assumes "FindLoadBalancer c n s = (Inr found, s')"
  shows "map_option lb_ID found = owner s n"
proof -
  obtain lbs where run: "gen2_ListLoadBalancers v s = (Inr lbs, s')"
      "found = find (\<lambda>lb. n = lb_ID lb \<or> n = lb_Name lb \<or> n = lb_Hostname lb) lbs"
    using assms by (auto simp: FindLoadBalancer_def gen2_sdk VpcSdkGen2_sdk_def bindM_def split: if_splits prod.splits sum.splits)
  from run(1) obtain pages where pages: "serves_pages (gen2_start v) (v1_ListLoadBalancers (gen2_Client v)) None s pages s'"
      "lbs = map mapLoadBalancer (concat (map page_Items pages))"
    using fetchPages_pages[of "gen2_start v" "v1_ListLoadBalancers (gen2_Client v)" mapLoadBalancer "gen2_fuel v" None "[]" s lbs s']
    by (auto simp: gen2_ListLoadBalancers_def bounded_def split: option.splits)
  have "found = map_option mapLoadBalancer (find (has_key n) (concat (map page_Items pages)))"
    unfolding run(2) pages(2) find_map has_key_def[abs_def] by (simp add: mapLoadBalancer_def)
  then show ?thesis unfolding resolves[OF pages(1)] by (simp add: option.map_comp comp_def mapLoadBalancer_def)
qed

lemma find_finds: "owner s n = Some i \<Longrightarrow> finds c n i s"
  using find_resolves[of n s] by (auto simp: finds_def split: prod.splits sum.splits option.splits)

end

subsection \<open>What calls leave alone\<close>

context controller
begin

lemma calls_stay:
  assumes "own_api_requests v rt Inv own" "\<And>req. clb_Name req = n \<Longrightarrow> stays Inv (\<lambda>_. True) (v1_CreateLoadBalancer (gen2_Client v) req)"
    and "\<forall>record s e. vpc_Recorder c = Some record \<longrightarrow> Inv s \<longrightarrow> Inv (record e s)" "\<forall>s i. Inv s \<longrightarrow> owner s n = Some i \<longrightarrow> own i"
  shows "stays Inv (\<lambda>_. True) (EnsureLoadBalancer rt c n (Some service) (Some nodes))"
    and "stays Inv (\<lambda>_. True) (EnsureLoadBalancerUpdated rt c n (Some service) (Some nodes))"
    and "(\<And>i. own i \<Longrightarrow> stays Inv (\<lambda>_. True) (v1_DeleteLoadBalancer (gen2_Client v) i)) \<Longrightarrow>
      stays Inv (\<lambda>_. True) (EnsureLoadBalancerDeleted c n (Some service))"
proof -
  have own: "own_calls (VpcSdkGen2_sdk v) rt Inv own c n"
    by (rule own_api_requests.gen2_own_calls[OF assms(1) gen2_sdk assms(2,3)])
  have find: "stays Inv (\<lambda>found. case found of None \<Rightarrow> True | Some lb \<Rightarrow> own (lb_ID lb)) (FindLoadBalancer c n)"
    unfolding stays_def
  proof (intro allI impI conjI)
    fix s r s' assume s: "Inv s" "FindLoadBalancer c n s = (r, s')"
    from own_calls.stays_FindLoadBalancer[OF own] s show "Inv s'" by (auto simp: stays_def)
    fix found assume "r = Inr found"
    with find_resolves[of n s found s'] s(2) have "map_option lb_ID found = owner s n" by simp
    with assms(4) s(1) show "case found of None \<Rightarrow> True | Some lb \<Rightarrow> own (lb_ID lb)" by (cases found) auto
  qed
  note entry = own_calls.stays_entry_points[OF own find]
  show "stays Inv (\<lambda>_. True) (EnsureLoadBalancer rt c n (Some service) (Some nodes))" by (rule entry(1))
  show "stays Inv (\<lambda>_. True) (EnsureLoadBalancerUpdated rt c n (Some service) (Some nodes))" by (rule entry(2))
  show "stays Inv (\<lambda>_. True) (EnsureLoadBalancerDeleted c n (Some service))"
    if "\<And>i. own i \<Longrightarrow> stays Inv (\<lambda>_. True) (v1_DeleteLoadBalancer (gen2_Client v) i)"
    by (rule entry(3)) (simp add: that VpcSdkGen2_sdk_def gen2_DeleteLoadBalancer_def)
qed

text \<open>The load balancer of another name.\<close>

lemma calls_apart:
  assumes "n \<in> names" "m \<in> names" "m \<noteq> n"
  shows "stays (placed holds owner m i d) (\<lambda>_. True) (EnsureLoadBalancer rt c n (Some service) (Some nodes))"
    and "stays (placed holds owner m i d) (\<lambda>_. True) (EnsureLoadBalancerUpdated rt c n (Some service) (Some nodes))"
    and "stays (placed holds owner m i d) (\<lambda>_. True) (EnsureLoadBalancerDeleted c n (Some service))"
proof -
  have create: "stays (placed holds owner m i d) (\<lambda>_. True) (v1_CreateLoadBalancer (gen2_Client v) req)" for req
    using create_apart(1)[of i d req] create_apart(2)[of m i req] by (auto simp: stays_def placed_def)
  have recorded: "\<forall>f s e. vpc_Recorder c = Some f \<longrightarrow> placed holds owner m i d s \<longrightarrow> placed holds owner m i d (f e s)"
    by (simp add: placed_def records)
  have other: "\<forall>s j. placed holds owner m i d s \<longrightarrow> owner s n = Some j \<longrightarrow> j \<noteq> i"
    using named_apart[OF assms(2,1)] assms(3) unfolding placed_def by blast
  note stay = calls_stay[OF apart create recorded other]
  show "stays (placed holds owner m i d) (\<lambda>_. True) (EnsureLoadBalancer rt c n (Some service) (Some nodes))" by (rule stay(1))
  show "stays (placed holds owner m i d) (\<lambda>_. True) (EnsureLoadBalancerUpdated rt c n (Some service) (Some nodes))" by (rule stay(2))
  show "stays (placed holds owner m i d) (\<lambda>_. True) (EnsureLoadBalancerDeleted c n (Some service))" by (rule stay(3)[OF delete_apart])
qed

text \<open>No load balancer for another name comes into being.\<close>

lemma calls_unnamed:
  assumes "n \<in> names" "m \<in> names" "m \<noteq> n"
  shows "stays (\<lambda>s. owner s m = None) (\<lambda>_. True) (EnsureLoadBalancer rt c n (Some service) (Some nodes))"
    and "stays (\<lambda>s. owner s m = None) (\<lambda>_. True) (EnsureLoadBalancerUpdated rt c n (Some service) (Some nodes))"
    and "stays (\<lambda>s. owner s m = None) (\<lambda>_. True) (EnsureLoadBalancerDeleted c n (Some service))"
proof -
  have create: "stays (\<lambda>s. owner s m = None) (\<lambda>_. True) (v1_CreateLoadBalancer (gen2_Client v) req)" if "clb_Name req = n" for req
    unfolding stays_def using creates[OF _ assms(2)] assms(3) that by (metis not_None_eq)
  have delete: "stays (\<lambda>s. owner s m = None) (\<lambda>_. True) (v1_DeleteLoadBalancer (gen2_Client v) j)" for j
    unfolding stays_def using deletes(2)[OF _ assms(2)] by (metis not_None_eq)
  have recorded: "\<forall>f s e. vpc_Recorder c = Some f \<longrightarrow> owner s m = None \<longrightarrow> owner (f e s) m = None"
    by (simp add: records)
  note stay = calls_stay[OF owner_kept create recorded]
  show "stays (\<lambda>s. owner s m = None) (\<lambda>_. True) (EnsureLoadBalancer rt c n (Some service) (Some nodes))" by (rule stay(1)) simp_all
  show "stays (\<lambda>s. owner s m = None) (\<lambda>_. True) (EnsureLoadBalancerUpdated rt c n (Some service) (Some nodes))" by (rule stay(2)) simp_all
  show "stays (\<lambda>s. owner s m = None) (\<lambda>_. True) (EnsureLoadBalancerDeleted c n (Some service))" by (rule stay(3)) (simp_all add: delete)
qed

text \<open>The owner of a name that is in use is not changed by updates.\<close>

lemma owner_stays:
  "stays (\<lambda>s. owner s n = Some i) (\<lambda>_. True) (EnsureLoadBalancer rt c n (Some service) (Some nodes))"
  "stays (\<lambda>s. owner s n = Some i) (\<lambda>_. True) (EnsureLoadBalancerUpdated rt c n (Some service) (Some nodes))"
proof -
  have recorded: "\<forall>f s e. vpc_Recorder c = Some f \<longrightarrow> owner s n = Some i \<longrightarrow> owner (f e s) n = Some i"
    by (simp add: records)
  note stay = calls_stay[OF owner_kept create_apart(2) recorded]
  show "stays (\<lambda>s. owner s n = Some i) (\<lambda>_. True) (EnsureLoadBalancer rt c n (Some service) (Some nodes))" by (rule stay(1)) simp_all
  show "stays (\<lambda>s. owner s n = Some i) (\<lambda>_. True) (EnsureLoadBalancerUpdated rt c n (Some service) (Some nodes))" by (rule stay(2)) simp_all
qed

end

subsection \<open>Calls for the name itself\<close>

definition nodes_for :: "Service \<Rightarrow> Node list \<Rightarrow> string list" where
  "nodes_for service nodes = getNodeIDs (selectNodes service (getServiceZone (getServiceOptions (Some service))) nodes)"

text \<open>Services with distinct TCP ports, nodes with distinct addresses that are words.\<close>

definition workable :: "Service \<Rightarrow> Node list \<Rightarrow> bool" where
  "workable service nodes \<longleftrightarrow> list_all wf_port (svc_Ports service) \<and> distinct_ports service \<and>
     list_all is_word (nodes_for service nodes) \<and> distinct (nodes_for service nodes)"

lemma created_content:
  assumes "workable service nodes"
  shows "history (abs_create (create_request rg n (nodes_for service nodes) subnets service))"
    "in_sync service (nodes_for service nodes) (abs_create (create_request rg n (nodes_for service nodes) subnets service))"
    "proxies_ok service (abs_create (create_request rg n (nodes_for service nodes) subnets service))"
  using assms history.created[of service "nodes_for service nodes" rg n subnets]
    created_in_sync[of service "nodes_for service nodes" "create_request rg n (nodes_for service nodes) subnets service"]
  by (simp_all add: workable_def create_request_def proxies_ok_def abs_create_def abs_new_pool_def wanted_pool_def list_all_iff)

text \<open>Nothing has changed that matters here.\<close>

definition quiet :: "(string \<Rightarrow> 's \<Rightarrow> content \<Rightarrow> bool) \<Rightarrow> ('s \<Rightarrow> string \<Rightarrow> string option) \<Rightarrow> 's \<Rightarrow> 's \<Rightarrow> bool" where
  "quiet holds owner s s' \<longleftrightarrow> owner s' = owner s \<and> (\<forall>i d. holds i s d \<longrightarrow> holds i s' d)"

lemma quiet_refl: "quiet holds owner s s"
  by (simp add: quiet_def)

lemma quiet_history:
  "quiet holds owner s s' \<Longrightarrow> \<forall>i. owner s n = Some i \<longrightarrow> (\<exists>d. holds i s d \<and> history d) \<Longrightarrow>
   \<forall>i. owner s' n = Some i \<longrightarrow> (\<exists>d. holds i s' d \<and> history d)"
  unfolding quiet_def by metis

lemma quiet_reached: "quiet holds owner s s' \<Longrightarrow> reached final holds owner n service nodeList s \<Longrightarrow> reached final holds owner n service nodeList s'"
  unfolding quiet_def reached_def by metis

lemma quiet_trans: "quiet holds owner s s1 \<Longrightarrow> quiet holds owner s1 s2 \<Longrightarrow> quiet holds owner s s2"
  by (simp add: quiet_def)

context controller
begin

lemma quiet_reads:
  "gen2_ListSubnets v s = (r, s') \<Longrightarrow> quiet holds owner s s'" "gen2_ListLoadBalancers v s = (q, s') \<Longrightarrow> quiet holds owner s s'"
proof -
  have own: "own_requests (VpcSdkGen2_sdk v) rt (\<lambda>s. owner s n = p) (\<lambda>_. True)" for n p
    by (rule own_api_requests.gen2_own_requests[OF owner_kept])
  show "quiet holds owner s s'" if "gen2_ListSubnets v s = (r, s')"
    using that undisturbedD(1)[OF documented_vpc.list_subnets[OF each] that] staysD(1)[OF own_requests.reading(2)[OF own] refl, of s]
    by (auto simp: quiet_def fun_eq_iff VpcSdkGen2_sdk_def)
  show "quiet holds owner s s'" if "gen2_ListLoadBalancers v s = (q, s')"
    using that documented_vpc.list_load_balancers(1)[OF each that] staysD(1)[OF own_requests.reading(1)[OF own] refl, of s]
    by (auto simp: quiet_def fun_eq_iff VpcSdkGen2_sdk_def)
qed

lemma quiet_find: "FindLoadBalancer c n s = (r, s') \<Longrightarrow> quiet holds owner s s'"
  using quiet_reads(2)[of s] quiet_refl
  by (auto simp: FindLoadBalancer_def gen2_sdk VpcSdkGen2_sdk_def bindM_def split: if_splits prod.splits sum.splits)

lemma quiet_failWith: "failWith c (Some service) reason n text s = (r, s') \<Longrightarrow> quiet holds owner s s' \<and> isl r"
  by (auto simp: failWith_def recordServiceWarningEvent_def bindM_def Let_def quiet_def records split: option.splits)

text \<open>A creation that stopped before its request, and one that sent it.\<close>

lemma create_cases:
  assumes "CreateLoadBalancer rt c n (Some service) (Some nodes) s = (r, s')" "workable service nodes" "n \<noteq> []"
  obtains (refused) "isl r" "quiet holds owner s s'"
    | (sent) rg subnets s1 where "quiet holds owner s s1"
      "bindM (v1_CreateLoadBalancer (gen2_Client v) (create_request rg n (nodes_for service nodes) subnets service)) (answer mapLoadBalancer) s1 = (r, s')"
  using assms(1)[unfolded CreateLoadBalancer_steps[OF assms(3)]]
proof (cases rule: bind_cases)
  case (stop e)
  then show ?thesis by (intro refused) (simp_all add: liftM_def quiet_refl)
next
  case options: (go options t)
  then have t: "t = s" and opt: "options = getServiceOptions (Some service)" using okR_validateService[of service] by (auto simp: liftM_def)
  from options(2) show ?thesis
  proof (cases rule: bind_cases)
    case (stop e)
    with quiet_reads(1)[of s] t gen2_sdk show ?thesis by (intro refused) (simp_all add: VpcSdkGen2_sdk_def)
  next
    case subnets: (go subnets s1)
    then have s1: "quiet holds owner s s1" using quiet_reads(1)[of s] t gen2_sdk by (simp add: VpcSdkGen2_sdk_def)
    have work: thesis if "createWork (vpc_Sdk c) n service nodes options subnetIDs s1 = (r, s')" for subnetIDs
      using that[unfolded createWork_def]
    proof (cases rule: bind_cases)
      case (stop e)
      with s1 show ?thesis by (intro refused) (simp_all add: liftM_def)
    next
      case (go subnetList t')
      then show ?thesis using s1 sends_create_request[of service _ v n "nodes_for service nodes" subnetList] assms(2) opt gen2_sdk refused sent
        by (auto simp: bindM_def liftM_def nodes_for_def workable_def VpcSdkGen2_sdk_def split: if_splits sum.splits)
    qed
    from subnets(2) s1 work show ?thesis by (auto simp: Let_def intro: refused split: list.splits)
  qed
qed

end

context controller
begin

lemma create_sent:
  assumes "owner s n = None" "n \<in> names" "workable service nodes"
    and "bindM (v1_CreateLoadBalancer (gen2_Client v) (create_request rg n (nodes_for service nodes) subnets service)) (answer mapLoadBalancer) s = (q, s')"
  shows "\<forall>i. owner s' n = Some i \<longrightarrow> (\<exists>d. holds i s' d \<and> history d)"
    and "\<not> isl q \<Longrightarrow> reached False holds owner n service (nodes_for service nodes) s'"
proof -
  let ?req = "create_request rg n (nodes_for service nodes) subnets service"
  have name: "clb_Name ?req = n" by (simp add: create_request_def)
  obtain a where a: "v1_CreateLoadBalancer (gen2_Client v) ?req s = (a, s')" "isl a \<longrightarrow> isl q"
    using assms(4)
  proof (cases rule: bind_cases)
    case (go p s1)
    with answer_state(1)[of mapLoadBalancer p s1] that show ?thesis by auto
  qed auto
  have held: "owner s' n = Some i \<Longrightarrow> holds i s' (abs_create ?req)" for i
    using creates[OF a(1) assms(2)] assms(1) by auto
  with created_content(1)[OF assms(3)] show "\<forall>i. owner s' n = Some i \<longrightarrow> (\<exists>d. holds i s' d \<and> history d)" by blast
  show "reached False holds owner n service (nodes_for service nodes) s'" if ok: "\<not> isl q"
  proof -
    obtain p where "a = Inr p" using ok a(2) by (cases a) auto
    with created[of ?req s p s'] a(1) assms(2) name obtain i where "owner s' n = Some i" by auto
    with held created_content[OF assms(3)] show ?thesis unfolding reached_def by blast
  qed
qed

text \<open>What follows a creation changes nothing.\<close>

lemma after_create:
  assumes "tryM (\<lambda>s. (q, s2)) (\<lambda>err. failWith c (Some service) reason n (text err))
      (\<lambda>lb. if IsReady lb \<or> \<not> IsNLB lb then returnM (GetLoadBalancerStatus lb) else updateExisting rt c n (Some service) (Some nodes) lb) s1 = (r, s')"
  shows "quiet holds owner s2 s' \<and> (\<not> isl r \<longrightarrow> \<not> isl q)"
proof (cases q)
  case (Inl e)
  with assms show ?thesis by (cases e) (auto simp: tryM_def quiet_refl dest: quiet_failWith)
next
  case (Inr lb)
  with assms show ?thesis
    by (auto simp: tryM_def updateExisting_def quiet_refl dest: quiet_failWith split: if_splits)
qed

lemma ensure_new:
  assumes "owner s n = None" "n \<in> names" "workable service nodes"
    and "EnsureLoadBalancer rt c n (Some service) (Some nodes) s = (r, s')"
  shows "(\<forall>i. owner s' n = Some i \<longrightarrow> (\<exists>d. holds i s' d \<and> history d)) \<and>
    (\<not> isl r \<longrightarrow> reached False holds owner n service (nodes_for service nodes) s')"
proof -
  have stopped: ?thesis if "quiet holds owner s s'" "isl r"
    using that assms(1) by (simp add: quiet_def)
  obtain f s1 where f: "FindLoadBalancer c n s = (f, s1)" by (cases "FindLoadBalancer c n s")
  note s1 = quiet_find[OF f]
  show ?thesis
  proof (cases f)
    case (Inl e)
    with assms(4) f s1 have "quiet holds owner s s' \<and> isl r"
      by (cases e) (auto simp: EnsureLoadBalancer_def tryM_def dest: quiet_failWith intro: quiet_trans)
    with stopped show ?thesis by blast
  next
    case (Inr found)
    with find_resolves[of n s found s1] f assms(1) have found: "found = None" by simp
    obtain q s2 where q: "CreateLoadBalancer rt c n (Some service) (Some nodes) s1 = (q, s2)"
      by (cases "CreateLoadBalancer rt c n (Some service) (Some nodes) s1")
    have "quiet holds owner s2 s' \<and> (\<not> isl r \<longrightarrow> \<not> isl q)"
      by (rule after_create[of q s2 service creatingCloudLoadBalancerFailed n "\<lambda>err. ''Failed ensuring LoadBalancer: '' @ err" nodes s1])
        (use assms(4) f Inr found q in \<open>simp add: EnsureLoadBalancer_def tryM_def\<close>)
    then have rest: "quiet holds owner s2 s'" "\<not> isl r \<Longrightarrow> \<not> isl q" by simp_all
    have "n \<noteq> []" using assms(2) no_empty_name by auto
    with q assms(3) show ?thesis
    proof (cases rule: create_cases)
      case refused
      with rest s1 show ?thesis by (intro stopped) (auto intro: quiet_trans)
    next
      case (sent rg subnets s0)
      have "owner s0 n = None" using s1 sent(1) assms(1) by (simp add: quiet_def)
      note sent = create_sent[OF this assms(2,3) sent(2)]
      from quiet_history[OF rest(1) sent(1)] quiet_reached[OF rest(1) sent(2)] rest(2) show ?thesis by blast
    qed
  qed
qed

lemma existing_synchronizes:
  assumes "holds i s h" "history h" "owner s n = Some i" "workable service nodes"
  obtains before where "ap_Name ` set (ct_Pools before) = ap_Name ` set (ct_Pools h)"
    "synchronizes (holds i) before service (nodes_for service nodes) (EnsureLoadBalancer rt c n (Some service) (Some nodes) s)"
    "synchronizes (holds i) before service (nodes_for service nodes) (EnsureLoadBalancerUpdated rt c n (Some service) (Some nodes) s)"
proof -
  obtain rho ls ps where l: "relisted rho h ls ps" "identified (abs_content ls ps)" "holds i s (abs_content ls ps)" using identifies[OF assms(1)] by blast
  have unseen: "unseen c (holds i)" using records(2) by (auto simp: unseen_def)
  have w: "list_all wf_port (svc_Ports service)" "distinct_ports service" "list_all is_word (nodes_for service nodes)" "distinct (nodes_for service nodes)"
    using assms(4) by (simp_all add: workable_def)
  have "ap_Name ` set (ct_Pools (abs_content ls ps)) = ap_Name ` set (ct_Pools h)"
    using listing.keys(4)[OF relisted_listing[OF l(1)]] by simp
  moreover note documented_vpc.entry_points[OF each gen2_sdk unseen l(3,2) assms(2) l(1) find_finds[OF assms(3)] w(1,2) nodes_for_def w(3,4)]
  ultimately show ?thesis by (rule that)
qed

text \<open>A success reaches the service; when it started in sync with it, no pool was created, and the proxy protocol is right, too.\<close>

lemma synchronizes_reached:
  assumes "synchronizes (holds i) before service nodeList (Inr x, s')" "owner s' n = Some i"
  shows "reached False holds owner n service nodeList s'"
    and "in_sync service nodeList h \<Longrightarrow> ap_Name ` set (ct_Pools before) = ap_Name ` set (ct_Pools h) \<Longrightarrow> reached True holds owner n service nodeList s'"
proof -
  obtain d where d: "holds i s' d" "history d" "brought service nodeList before d" using assms(1) by (auto simp: synchronizes_def)
  have sync: "in_sync service nodeList d" by (rule brought_in_sync[OF d(3)])
  have "proxies_ok service d" if "\<not> isProxyProtocol (getServiceOptions (Some service))"
    using brought_without_proxy[OF d(3) that] by (simp add: proxies_ok_def list_all_iff)
  with d sync assms(2) show "reached False holds owner n service nodeList s'" unfolding reached_def by blast
  assume h: "in_sync service nodeList h" "ap_Name ` set (ct_Pools before) = ap_Name ` set (ct_Pools h)"
  have "ap_Name ` set (ct_Pools d) = ap_Name ` set (ct_Pools before)" using sync h by (simp add: in_sync_def)
  with d(3) have "proxies_ok service d" by (auto simp: brought_def proxies_ok_def list_all_iff)
  with d sync assms(2) show "reached True holds owner n service nodeList s'" unfolding reached_def by blast
qed

end

subsection \<open>Sequences of calls\<close>

datatype lb_call = Ensure string Service "Node list" | Update string Service "Node list" | Delete string Service

fun call_name :: "lb_call \<Rightarrow> string" where
  "call_name (Ensure n _ _) = n"
| "call_name (Update n _ _) = n"
| "call_name (Delete n _) = n"

fun call_workable :: "lb_call \<Rightarrow> bool" where
  "call_workable (Ensure _ service nodes) = workable service nodes"
| "call_workable (Update _ service nodes) = workable service nodes"
| "call_workable (Delete _ _) = True"

fun run_lb_call :: "'s Runtime \<Rightarrow> 's CloudVpc \<Rightarrow> lb_call \<Rightarrow> ('s, unit) io" where
  "run_lb_call rt c (Ensure n service nodes) = unit_of (EnsureLoadBalancer rt c n (Some service) (Some nodes))"
| "run_lb_call rt c (Update n service nodes) = EnsureLoadBalancerUpdated rt c n (Some service) (Some nodes)"
| "run_lb_call rt c (Delete n service) = EnsureLoadBalancerDeleted c n (Some service)"

text \<open>Kubernetes goes on after a failed call.\<close>

fun run_lb_calls :: "'s Runtime \<Rightarrow> 's CloudVpc \<Rightarrow> lb_call list \<Rightarrow> 's \<Rightarrow> 's" where
  "run_lb_calls rt c [] s = s"
| "run_lb_calls rt c (x # xs) s = run_lb_calls rt c xs (snd (run_lb_call rt c x s))"

lemma run_lb_calls_append: "run_lb_calls rt c (xs @ ys) s = run_lb_calls rt c ys (run_lb_calls rt c xs s)"
  by (induction xs arbitrary: s) simp_all

lemma stays_unit_of: "stays Inv (\<lambda>_. True) m \<Longrightarrow> stays Inv (\<lambda>_. True) (unit_of m)"
  unfolding unit_of_def by (intro stays_seq stays_return_any)

lemma unit_of_run: "unit_of m s = (r, s') \<Longrightarrow> \<exists>q. m s = (q, s') \<and> isl q = isl r"
  by (auto simp: unit_of_def bindM_def returnM_def split: prod.splits sum.splits)

context controller
begin

lemma call_apart:
  assumes "call_name x \<in> names" "m \<in> names" "m \<noteq> call_name x"
  shows "stays (placed holds owner m i d) (\<lambda>_. True) (run_lb_call rt c x)"
  using assms by (cases x) (simp_all add: calls_apart stays_unit_of)

lemma call_unnamed:
  assumes "call_name x \<in> names" "m \<in> names" "m \<noteq> call_name x"
  shows "stays (\<lambda>s. owner s m = None) (\<lambda>_. True) (run_lb_call rt c x)"
  using assms by (cases x) (simp_all add: calls_unnamed stays_unit_of)

text \<open>The load balancer of the name of the call.\<close>

lemma own_update:
  assumes "managed holds owner names s" "n \<in> names" "workable service nodes"
    and "EnsureLoadBalancerUpdated rt c n (Some service) (Some nodes) s = (r, s')"
  shows "\<forall>i. owner s' n = Some i \<longrightarrow> (\<exists>d. holds i s' d \<and> history d)"
proof (cases "owner s n")
  case None
  obtain f s1 where f: "FindLoadBalancer c n s = (f, s1)" by (cases "FindLoadBalancer c n s")
  have "f = Inr found \<Longrightarrow> found = None" for found using find_resolves[of n s found s1] f None by simp
  then have "quiet holds owner s s'"
    using assms(4) f quiet_find[OF f]
    by (auto simp: EnsureLoadBalancerUpdated_def tryM_def returnM_def split: sum.splits go_err.splits option.splits
        dest: quiet_failWith intro: quiet_trans)
  with None show ?thesis by (simp add: quiet_def)
next
  case (Some i)
  obtain h where h: "holds i s h" "history h" using assms(1,2) Some by (auto simp: managed_def)
  have "owner s' n = Some i" by (rule staysD(1)[OF owner_stays(2) Some assms(4)])
  moreover obtain before where "synchronizes (holds i) before service (nodes_for service nodes) (r, s')"
    using existing_synchronizes[OF h Some assms(3)] assms(4) by metis
  ultimately show ?thesis by (auto simp: synchronizes_def)
qed

lemma own_ensure:
  assumes "managed holds owner names s" "n \<in> names" "workable service nodes"
    and "EnsureLoadBalancer rt c n (Some service) (Some nodes) s = (r, s')"
  shows "(\<forall>i. owner s' n = Some i \<longrightarrow> (\<exists>d. holds i s' d \<and> history d)) \<and>
    (\<not> isl r \<longrightarrow> reached False holds owner n service (nodes_for service nodes) s')"
proof (cases "owner s n")
  case None
  from ensure_new[OF None assms(2-4)] show ?thesis .
next
  case (Some i)
  obtain h where h: "holds i s h" "history h" using assms(1,2) Some by (auto simp: managed_def)
  have i: "owner s' n = Some i" by (rule staysD(1)[OF owner_stays(1) Some assms(4)])
  obtain before where sync: "synchronizes (holds i) before service (nodes_for service nodes) (r, s')"
    using existing_synchronizes[OF h Some assms(3)] assms(4) by metis
  then have "\<forall>j. owner s' n = Some j \<longrightarrow> (\<exists>d. holds j s' d \<and> history d)" using i by (auto simp: synchronizes_def)
  with sync i synchronizes_reached(1) show ?thesis by (cases r) auto
qed

lemma own_delete:
  assumes "managed holds owner names s" "n \<in> names" "EnsureLoadBalancerDeleted c n (Some service) s = (r, s')"
  shows "\<forall>i. owner s' n = Some i \<longrightarrow> (\<exists>d. holds i s' d \<and> history d)"
proof -
  have start: "\<forall>i. owner s n = Some i \<longrightarrow> (\<exists>d. holds i s d \<and> history d)" using assms(1,2) by (simp add: managed_def)
  obtain f s1 where f: "FindLoadBalancer c n s = (f, s1)" by (cases "FindLoadBalancer c n s")
  note s1 = quiet_find[OF f]
  note at_s1 = quiet_history[OF s1 start]
  show ?thesis
  proof (cases "\<exists>lb. f = Inr (Some lb)")
    case False
    with assms(3) f s1 have "quiet holds owner s s'"
      by (auto simp: EnsureLoadBalancerDeleted_def tryM_def returnM_def split: sum.splits go_err.splits option.splits
          dest: quiet_failWith intro: quiet_trans)
    from quiet_history[OF this start] show ?thesis .
  next
    case True
    then obtain lb where lb: "f = Inr (Some lb)" by blast
    have i: "owner s1 n = Some (lb_ID lb)" using find_resolves[of n s "Some lb" s1] f lb s1 by (simp add: quiet_def)
    obtain q s2 where q: "v1_DeleteLoadBalancer (gen2_Client v) (lb_ID lb) s1 = (q, s2)" by (cases "v1_DeleteLoadBalancer (gen2_Client v) (lb_ID lb) s1")
    have "quiet holds owner s2 s'"
      using assms(3) f lb q
      by (auto simp: EnsureLoadBalancerDeleted_def DeleteLoadBalancer_def gen2_sdk VpcSdkGen2_sdk_def gen2_DeleteLoadBalancer_def tryM_def returnM_def
          quiet_refl split: sum.splits go_err.splits dest: quiet_failWith)
    moreover have "\<forall>i. owner s2 n = Some i \<longrightarrow> (\<exists>d. holds i s2 d \<and> history d)"
      using deletes(1)[OF q] deletes(2)[OF q assms(2)] i at_s1 by (metis option.inject)
    ultimately show ?thesis by (rule quiet_history)
  qed
qed

lemma own_call:
  assumes "managed holds owner names s" "call_name x \<in> names" "call_workable x" "run_lb_call rt c x s = (r, s')"
  shows "\<forall>i. owner s' (call_name x) = Some i \<longrightarrow> (\<exists>d. holds i s' d \<and> history d)"
  using assms
proof (cases x)
  case (Ensure n service nodes)
  with assms unit_of_run[of "EnsureLoadBalancer rt c n (Some service) (Some nodes)" s r s'] own_ensure[OF assms(1), of n service nodes _ s']
  show ?thesis by auto
next
  case (Update n service nodes)
  with assms own_update[of s n service nodes r s'] show ?thesis by simp
next
  case (Delete n service)
  with assms own_delete[of s n service r s'] show ?thesis by simp
qed

lemma managed_call:
  assumes "managed holds owner names s" "call_name x \<in> names" "call_workable x" "run_lb_call rt c x s = (r, s')"
  shows "managed holds owner names s'"
  unfolding managed_def
proof
  fix m assume m: "m \<in> names"
  show "\<forall>i. owner s' m = Some i \<longrightarrow> (\<exists>d. holds i s' d \<and> history d)"
  proof (cases "m = call_name x")
    case True
    with own_call[OF assms] show ?thesis by simp
  next
    case False
    show ?thesis
    proof (cases "owner s m")
      case None
      with staysD(1)[OF call_unnamed[OF assms(2) m False] None assms(4)] show ?thesis by simp
    next
      case (Some i)
      with assms(1) m obtain d where d: "placed holds owner m i d s" "history d" by (auto simp: managed_def placed_def)
      from staysD(1)[OF call_apart[OF assms(2) m False] d(1) assms(4)] d(2) show ?thesis by (auto simp: placed_def)
    qed
  qed
qed

lemma managed_calls:
  "managed holds owner names s \<Longrightarrow> list_all (\<lambda>x. call_name x \<in> names \<and> call_workable x) xs \<Longrightarrow>
   managed holds owner names (run_lb_calls rt c xs s)"
  by (induction xs arbitrary: s) (auto intro: managed_call[OF _ _ _ surjective_pairing])

lemma reached_calls:
  "reached final holds owner n service nodeList s \<Longrightarrow> n \<in> names \<Longrightarrow> list_all (\<lambda>x. call_name x \<in> names \<and> call_name x \<noteq> n) xs \<Longrightarrow>
   reached final holds owner n service nodeList (run_lb_calls rt c xs s)"
proof (induction xs arbitrary: s)
  case (Cons x xs)
  obtain i d where d: "placed holds owner n i d s" "history d" "in_sync service nodeList d"
      "final \<or> \<not> isProxyProtocol (getServiceOptions (Some service)) \<longrightarrow> proxies_ok service d"
    using Cons.prems(1) unfolding reached_def placed_def by blast
  obtain r s1 where run: "run_lb_call rt c x s = (r, s1)" by (cases "run_lb_call rt c x s")
  have "placed holds owner n i d s1" using Cons.prems by (intro staysD(1)[OF call_apart d(1) run]) auto
  with d(2-4) have "reached final holds owner n service nodeList s1" unfolding reached_def placed_def by blast
  with Cons run show ?case by simp
qed simp

text \<open>The first call that succeeds in setting up a load balancer, by ensuring it or by updating one that is there; and a second one.\<close>

lemma first_call:
  assumes "managed holds owner names s" "call_name x \<in> names" "call_workable x" "run_lb_call rt c x s = (Inr (), s')"
    and "x = Ensure n service nodes \<or> x = Update n service nodes \<and> owner s n \<noteq> None"
  shows "reached False holds owner n service (nodes_for service nodes) s'"
  using assms(5)
proof
  assume "x = Ensure n service nodes"
  with assms own_ensure[OF assms(1), of n service nodes] unit_of_run[of "EnsureLoadBalancer rt c n (Some service) (Some nodes)" s "Inr ()" s']
  show ?thesis by fastforce
next
  assume x: "x = Update n service nodes \<and> owner s n \<noteq> None"
  then obtain i where i: "owner s n = Some i" by blast
  have n: "n \<in> names" "workable service nodes" and run: "EnsureLoadBalancerUpdated rt c n (Some service) (Some nodes) s = (Inr (), s')"
    using assms(2-4) x by simp_all
  obtain h where h: "holds i s h" "history h" using assms(1) n(1) i by (auto simp: managed_def)
  have "owner s' n = Some i" by (rule staysD(1)[OF owner_stays(2) i run])
  then show ?thesis using existing_synchronizes[OF h i n(2)] run synchronizes_reached(1) by metis
qed

lemma second_call:
  assumes "reached final holds owner n service (nodes_for service nodes) s" "x = Ensure n service nodes \<or> x = Update n service nodes"
    and "call_workable x" "run_lb_call rt c x s = (Inr (), s')"
  shows "reached True holds owner n service (nodes_for service nodes) s'"
proof -
  have w: "workable service nodes" using assms(2,3) by auto
  obtain i h where h: "owner s n = Some i" "holds i s h" "history h" "in_sync service (nodes_for service nodes) h"
    using assms(1) by (auto simp: reached_def)
  obtain before where before: "ap_Name ` set (ct_Pools before) = ap_Name ` set (ct_Pools h)"
    "synchronizes (holds i) before service (nodes_for service nodes) (EnsureLoadBalancer rt c n (Some service) (Some nodes) s)"
    "synchronizes (holds i) before service (nodes_for service nodes) (EnsureLoadBalancerUpdated rt c n (Some service) (Some nodes) s)"
    by (rule existing_synchronizes[OF h(2,3,1) w])
  from assms(2) show ?thesis
  proof
    assume "x = Ensure n service nodes"
    then obtain q where q: "EnsureLoadBalancer rt c n (Some service) (Some nodes) s = (q, s')" "\<not> isl q"
      using assms(4) unit_of_run[of "EnsureLoadBalancer rt c n (Some service) (Some nodes)" s "Inr ()" s'] by auto
    have "owner s' n = Some i" by (rule staysD(1)[OF owner_stays(1) h(1) q(1)])
    with before(2) q synchronizes_reached(2)[OF _ _ h(4) before(1)] show ?thesis by (cases q) auto
  next
    assume "x = Update n service nodes"
    then have run: "EnsureLoadBalancerUpdated rt c n (Some service) (Some nodes) s = (Inr (), s')" using assms(4) by simp
    have "owner s' n = Some i" by (rule staysD(1)[OF owner_stays(2) h(1) run])
    with before(3) run synchronizes_reached(2)[OF _ _ h(4) before(1)] show ?thesis by simp
  qed
qed

text \<open>After a successful call, until the next one for that service; and after two.\<close>

lemma reached_after:
  assumes "managed holds owner names s0" "list_all (\<lambda>x. call_name x \<in> names \<and> call_workable x) (pre @ x # post)"
    and "x = Ensure n service nodes \<or> x = Update n service nodes \<and> owner (run_lb_calls rt c pre s0) n \<noteq> None"
    and "fst (run_lb_call rt c x (run_lb_calls rt c pre s0)) = Inr ()" "n \<notin> call_name ` set post"
  shows "reached False holds owner n service (nodes_for service nodes) (run_lb_calls rt c (pre @ x # post) s0)"
proof -
  have "managed holds owner names (run_lb_calls rt c pre s0)" by (rule managed_calls) (use assms(1,2) in simp_all)
  moreover obtain s2 where s2: "run_lb_call rt c x (run_lb_calls rt c pre s0) = (Inr (), s2)" using assms(4) by (metis prod.collapse)
  ultimately have "reached False holds owner n service (nodes_for service nodes) s2" using assms(2,3) by (intro first_call) simp_all
  moreover have "n \<in> names" using assms(2,3) by auto
  moreover have "list_all (\<lambda>x. call_name x \<in> names \<and> call_name x \<noteq> n) post" using assms(2,5) by (auto simp: list_all_iff)
  ultimately show ?thesis by (simp add: reached_calls run_lb_calls_append s2)
qed

lemmas settled_after = reached_settled[OF reached_after]

lemma reached_after_two:
  assumes "reached final holds owner n service (nodes_for service nodes) s" "list_all (\<lambda>x. call_name x \<in> names \<and> call_workable x) (y # post)"
    and "y = Ensure n service nodes \<or> y = Update n service nodes" "fst (run_lb_call rt c y s) = Inr ()" "n \<notin> call_name ` set post"
  shows "reached True holds owner n service (nodes_for service nodes) (run_lb_calls rt c (y # post) s)"
proof -
  obtain s2 where s2: "run_lb_call rt c y s = (Inr (), s2)" using assms(4) by (metis prod.collapse)
  have "reached True holds owner n service (nodes_for service nodes) s2" by (rule second_call[OF assms(1,3) _ s2]) (use assms(2) in simp)
  moreover have "n \<in> names" using assms(2,3) by auto
  moreover have "list_all (\<lambda>x. call_name x \<in> names \<and> call_name x \<noteq> n) post" using assms(2,5) by (auto simp: list_all_iff)
  ultimately show ?thesis by (simp add: reached_calls s2)
qed

text \<open>What the SDK lists is what the VPC holds.\<close>

lemma lists_held:
  assumes "holds i s d" "gen2_ListLoadBalancerListeners v i s = (Inr listeners, s1)" "gen2_ListLoadBalancerPools v i s1 = (Inr pools, s2)"
  obtains rho where "relisted rho d listeners pools" "identified (abs_content listeners pools)" "list_all word_listener listeners"
proof -
  obtain rho ls ps where l: "relisted rho d ls ps" "identified (abs_content ls ps)" "holds i s (abs_content ls ps)" using identifies[OF assms(1)] by blast
  have s1: "holds i s1 (abs_content ls ps)" using undisturbedD(1)[OF documented_vpc.list_listeners[OF each] assms(2) l(3)] .
  have shown: "abs_content listeners pools = abs_content ls ps" "list_all word_listener listeners"
    using documented_vpc.listeners_shown[OF each assms(2) l(3,2)] documented_vpc.pools_shown[OF each assms(3) s1 l(2)] by (simp_all add: abs_content_def)
  have "relisted rho d listeners pools"
    using l(2) shown(1) identified_unique[of listeners pools] by (intro relisted_same[OF l(1)]) simp_all
  with that shown l(2) show ?thesis by simp
qed

lemma lists_consistent:
  assumes "managed holds owner names s" "n \<in> names" "owner s n = Some i"
    and "gen2_ListLoadBalancerListeners v i s = (Inr listeners, s1)" "gen2_ListLoadBalancerPools v i s1 = (Inr pools, s2)"
  shows "consistent listeners pools" and "workable service nodes \<Longrightarrow> wf_inputs listeners pools service (nodes_for service nodes)"
proof -
  obtain d where d: "holds i s d" "history d" using assms(1-3) by (auto simp: managed_def)
  obtain rho where l: "relisted rho d listeners pools" "identified (abs_content listeners pools)" "list_all word_listener listeners"
    by (rule lists_held[OF d(1) assms(4,5)])
  from history_set_up[OF d(2)] l(1) show con: "consistent listeners pools" by (rule relisted_consistent)
  assume w: "workable service nodes"
  have "set_up (abs_content listeners pools)" using con by (simp add: consistent_set_up)
  with l(2) show "wf_inputs listeners pools service (nodes_for service nodes)" by (rule identified_wf[OF _ _ l(3)]) (use w in \<open>simp_all add: workable_def\<close>)
qed

lemma reached_plan:
  assumes "reached final holds owner n service (nodes_for service nodes) s" "workable service nodes" "owner s n = Some i"
    and "gen2_ListLoadBalancerListeners v i s = (Inr listeners, s1)" "gen2_ListLoadBalancerPools v i s1 = (Inr pools, s2)"
  obtains rho d where "in_sync service (nodes_for service nodes) d" "relisted rho d listeners pools"
    "final \<or> \<not> isProxyProtocol (getServiceOptions (Some service)) \<longrightarrow> proxies_ok service d"
    "planUpdates listeners pools service (nodes_for service nodes) =
       Inr (map line_of (plan listeners pools service (nodes_for service nodes)), map (marked (svc_Ports service)) pools)"
proof -
  obtain d where d: "holds i s d" "history d" "in_sync service (nodes_for service nodes) d"
      "final \<or> \<not> isProxyProtocol (getServiceOptions (Some service)) \<longrightarrow> proxies_ok service d"
    using assms(1,3) by (auto simp: reached_def)
  have w: "list_all wf_port (svc_Ports service)" "list_all is_word (nodes_for service nodes)"
    using assms(2) by (simp_all add: workable_def)
  obtain rho where l: "relisted rho d listeners pools" "identified (abs_content listeners pools)" "list_all word_listener listeners"
    by (rule lists_held[OF d(1) assms(4,5)])
  have "set_up (abs_content listeners pools)" using relisted_consistent[OF history_set_up[OF d(2)] l(1)] by (simp add: consistent_set_up)
  then have "wf_inputs listeners pools service (nodes_for service nodes)" by (rule identified_wf[OF l(2) _ l(3) w])
  from that[OF d(3) l(1) d(4) planUpdates_refines_plan[OF this]] show ?thesis .
qed

lemma updates_pool_iff: "updated_pool u \<noteq> [] \<longleftrightarrow> (\<exists>n i. u = UpdatePool n i)"
  by (cases u) simp_all

text \<open>Then at most updates of pools are planned, and none when the proxy protocol is as the service asks for.\<close>

lemma reached_updates_planned:
  assumes "reached final holds owner n service (nodes_for service nodes) s" "workable service nodes" "owner s n = Some i"
    and "gen2_ListLoadBalancerListeners v i s = (Inr listeners, s1)" "gen2_ListLoadBalancerPools v i s1 = (Inr pools, s2)"
  shows "\<exists>updates. planUpdates listeners pools service (nodes_for service nodes) =
      Inr (map (\<lambda>(name, ID). actionUpdatePool @ '' '' @ name @ '' '' @ ID) updates, map (marked (svc_Ports service)) pools) \<and>
    (final \<or> \<not> isProxyProtocol (getServiceOptions (Some service)) \<longrightarrow> updates = [])"
proof -
  have w: "list_all wf_port (svc_Ports service)" "distinct_ports service" using assms(2) by (simp_all add: workable_def)
  obtain rho d where l: "in_sync service (nodes_for service nodes) d" "relisted rho d listeners pools"
      "final \<or> \<not> isProxyProtocol (getServiceOptions (Some service)) \<longrightarrow> proxies_ok service d"
      "planUpdates listeners pools service (nodes_for service nodes) =
         Inr (map line_of (plan listeners pools service (nodes_for service nodes)), map (marked (svc_Ports service)) pools)"
    by (rule reached_plan[OF assms])
  have "\<exists>updates. plan listeners pools service (nodes_for service nodes) = map (\<lambda>(name, ID). UpdatePool name ID) updates"
    using only_updates_plan[OF w l(1,2)] unfolding ex_map_conv list_all_iff by (simp add: updates_pool_iff)
  then obtain updates where updates: "plan listeners pools service (nodes_for service nodes) = map (\<lambda>(name, ID). UpdatePool name ID) updates" by blast
  have lines: "map line_of (map (\<lambda>(name, ID). UpdatePool name ID) updates) =
      map (\<lambda>(name, ID). actionUpdatePool @ '' '' @ name @ '' '' @ ID) updates"
    by (auto simp: line_of_def update_line_def)
  from l(3) settled_no_plan[OF w l(1) _ l(2)] updates
  have "final \<or> \<not> isProxyProtocol (getServiceOptions (Some service)) \<longrightarrow> updates = []" by simp
  with l(4)[unfolded updates lines] show ?thesis by blast
qed

end

end
