(* ===== verification/Vpc_Store.thy ===== *)
theory Vpc_Store
  imports Vpc_Reconcile
begin

section \<open>A reference VPC\<close>

text \<open>
  A VPC service that meets the contract \<open>documented_cloud\<close>. It keeps a list of load balancers with their contents and gives an identifier to everything that
  is created; a client that does not know the identifiers yet sees the content up to them (\<open>sees\<close>). The controller on it is an interpretation of
  \<open>controller\<close>.
\<close>

subsection \<open>Contents up to identifiers\<close>

fun kept :: "oid \<Rightarrow> oid \<Rightarrow> bool" where
  "kept (Old i) o' = (o' = Old i)"
| "kept (New n) o' = True"

definition like_member :: "oid \<times> string \<times> int64 \<Rightarrow> oid \<times> string \<times> int64 \<Rightarrow> bool" where
  "like_member x y \<longleftrightarrow> kept (fst x) (fst y) \<and> snd x = snd y"

definition like_pool :: "(oid \<Rightarrow> oid) \<Rightarrow> apool \<Rightarrow> apool \<Rightarrow> bool" where
  "like_pool rho p q \<longleftrightarrow> ap_ID q = rho (ap_ID p) \<and> ap_Name q = ap_Name p \<and> list_all2 like_member (ap_Members p) (ap_Members q) \<and>
     ap_Monitor q = ap_Monitor p \<and> ap_Proxy q = ap_Proxy p"

definition like_listener :: "(oid \<Rightarrow> oid) \<Rightarrow> alistener \<Rightarrow> alistener \<Rightarrow> bool" where
  "like_listener rho l m \<longleftrightarrow> kept (al_ID l) (al_ID m) \<and> al_Protocol m = al_Protocol l \<and> al_Port m = al_Port l \<and> al_Pool m = rho (al_Pool l)"

definition sees_by :: "(oid \<Rightarrow> oid) \<Rightarrow> content \<Rightarrow> content \<Rightarrow> bool" where
  "sees_by rho c d \<longleftrightarrow> list_all2 (like_listener rho) (ct_Listeners c) (ct_Listeners d) \<and> list_all2 (like_pool rho) (ct_Pools c) (ct_Pools d)"

definition renames :: "(oid \<Rightarrow> oid) \<Rightarrow> bool" where
  "renames rho \<longleftrightarrow> (\<forall>i. rho (Old i) = Old i)"

definition sees :: "content \<Rightarrow> content \<Rightarrow> bool" where
  "sees c d \<longleftrightarrow> (\<exists>rho. renames rho \<and> sees_by rho c d)"

text \<open>New pools are known by their name, and listeners have pools that are there.\<close>

definition grounded :: "content \<Rightarrow> bool" where
  "grounded c \<longleftrightarrow> list_all (\<lambda>p. case ap_ID p of Old _ \<Rightarrow> True | New n \<Rightarrow> ap_Name p = n) (ct_Pools c) \<and>
     list_all (\<lambda>l. al_Pool l \<in> ap_ID ` set (ct_Pools c)) (ct_Listeners c)"

lemma list_all2_comp: "list_all2 P xs ys \<Longrightarrow> list_all2 Q ys zs \<Longrightarrow> (\<And>x y z. P x y \<Longrightarrow> Q y z \<Longrightarrow> R x z) \<Longrightarrow> list_all2 R xs zs"
  by (rule list_all2_trans[of P Q R])

lemma kept_refl [simp]: "kept x x"
  by (cases x) simp_all

lemma kept_trans: "kept x y \<Longrightarrow> kept y z \<Longrightarrow> kept x z"
  by (cases x) auto

lemma sees_trans:
  assumes "sees c d" "sees d e"
  shows "sees c e"
proof -
  obtain rho sigma where r: "renames rho" "sees_by rho c d" "renames sigma" "sees_by sigma d e" using assms by (auto simp: sees_def)
  have l: "like_listener rho l m \<Longrightarrow> like_listener sigma m k \<Longrightarrow> like_listener (sigma \<circ> rho) l k" for l m k
    by (auto simp: like_listener_def intro: kept_trans)
  have m: "like_member x y \<Longrightarrow> like_member y z \<Longrightarrow> like_member x z" for x y z by (auto simp: like_member_def intro: kept_trans)
  have p: "like_pool rho p q \<Longrightarrow> like_pool sigma q k \<Longrightarrow> like_pool (sigma \<circ> rho) p k" for p q k
  proof -
    assume pq: "like_pool rho p q" "like_pool sigma q k"
    have "list_all2 like_member (ap_Members p) (ap_Members k)"
      by (rule list_all2_comp[where P = like_member and Q = like_member and ys = "ap_Members q", OF _ _ m]) (use pq in \<open>simp_all add: like_pool_def\<close>)
    with pq show ?thesis by (simp add: like_pool_def)
  qed
  have "sees_by (sigma \<circ> rho) c e"
    unfolding sees_by_def
  proof
    show "list_all2 (like_listener (sigma \<circ> rho)) (ct_Listeners c) (ct_Listeners e)"
      by (rule list_all2_comp[where P = "like_listener rho" and Q = "like_listener sigma" and ys = "ct_Listeners d", OF _ _ l])
        (use r(2,4) in \<open>simp_all add: sees_by_def\<close>)
    show "list_all2 (like_pool (sigma \<circ> rho)) (ct_Pools c) (ct_Pools e)"
      by (rule list_all2_comp[where P = "like_pool rho" and Q = "like_pool sigma" and ys = "ct_Pools d", OF _ _ p])
        (use r(2,4) in \<open>simp_all add: sees_by_def\<close>)
  qed
  with r(1,3) show ?thesis unfolding sees_def by (intro exI[of _ "sigma \<circ> rho"]) (simp add: renames_def)
qed

text \<open>A content with identifiers is seen as it is.\<close>

lemma kept_id: "is_id x \<Longrightarrow> kept x y \<Longrightarrow> y = x"
  by (cases x) auto

lemma renames_id: "renames rho \<Longrightarrow> is_id x \<Longrightarrow> rho x = x"
  by (cases x) (auto simp: renames_def)

lemma list_all2_same: "list_all2 R xs ys \<Longrightarrow> (\<And>x y. x \<in> set xs \<Longrightarrow> R x y \<Longrightarrow> y = x) \<Longrightarrow> ys = xs"
  by (induction rule: list_all2_induct) auto

lemma sees_identified:
  assumes "identified c" "sees c d"
  shows "d = c"
proof -
  obtain rho where rho: "renames rho" "sees_by rho c d" using assms(2) by (auto simp: sees_def)
  have l: "m = l" if "l \<in> set (ct_Listeners c)" "like_listener rho l m" for l m
    using that assms(1) kept_id[of "al_ID l" "al_ID m"] renames_id[OF rho(1), of "al_Pool l"]
    by (auto simp: like_listener_def identified_def list_all_iff)
  have p: "q = p" if q: "p \<in> set (ct_Pools c)" "like_pool rho p q" for p q
  proof -
    have "ap_Members q = ap_Members p"
      using q assms(1) kept_id by (intro list_all2_same[of like_member]) (auto simp: like_pool_def like_member_def identified_def list_all_iff prod_eq_iff)
    with q assms(1) renames_id[OF rho(1), of "ap_ID p"] show ?thesis by (auto simp: like_pool_def identified_def list_all_iff)
  qed
  from rho(2) list_all2_same[OF _ l] list_all2_same[OF _ p] show ?thesis unfolding sees_by_def by (metis content.equality old.unit.exhaust)
qed

lemma sees_refl: "sees c c"
proof -
  have "sees_by (\<lambda>x. x) c c"
    by (auto simp: sees_by_def like_listener_def like_pool_def like_member_def intro!: list_all2_refl)
  then show ?thesis by (auto simp: sees_def renames_def)
qed

subsection \<open>Requests up to identifiers\<close>

lemma list_all2_sync:
  assumes "list_all2 R xs ys" "\<And>x y. R x y \<Longrightarrow> f x = Old i \<Longrightarrow> g y = Old i" "distinct (map g ys)" "Old i \<in> f ` set xs"
  shows "list_all2 (\<lambda>x y. R x y \<and> (f x = Old i \<longleftrightarrow> g y = Old i)) xs ys"
proof -
  obtain a where a: "a < length xs" "f (xs ! a) = Old i" using assms(4) by (auto simp: in_set_conv_nth)
  have n: "length xs = length ys" "\<And>b. b < length xs \<Longrightarrow> R (xs ! b) (ys ! b)" using assms(1) by (auto simp: list_all2_conv_all_nth)
  have "f (xs ! b) = Old i" if b: "b < length xs" "g (ys ! b) = Old i" for b
  proof -
    have "g (ys ! a) = Old i" using assms(2) n(2) a by blast
    with b a n(1) assms(3) have "b = a" by (metis length_map nth_eq_iff_index_eq nth_map)
    with a show ?thesis by simp
  qed
  with assms(2) n show ?thesis by (auto simp: list_all2_conv_all_nth)
qed

lemma list_all2_filter: "list_all2 R xs ys \<Longrightarrow> (\<And>x y. R x y \<Longrightarrow> P x = Q y) \<Longrightarrow> list_all2 R (filter P xs) (filter Q ys)"
  by (induction rule: list_all2_induct) auto

lemma list_all2_find: "list_all2 R xs ys \<Longrightarrow> (\<And>x y. R x y \<Longrightarrow> P x = Q y) \<Longrightarrow> find P xs = Some x \<Longrightarrow> find Q ys = Some y \<Longrightarrow> R x y"
  by (induction rule: list_all2_induct) (auto split: if_splits)

lemma sees_delete_listener:
  assumes "sees c d" "identified d" "api_delete_listener i c = Some c'" "api_delete_listener i d = Some d'"
  shows "sees c' d'"
proof -
  obtain rho where rho: "renames rho" "sees_by rho c d" using assms(1) by (auto simp: sees_def)
  let ?R = "\<lambda>l m. like_listener rho l m \<and> (al_ID l = Old i \<longleftrightarrow> al_ID m = Old i)"
  have "list_all2 ?R (ct_Listeners c) (ct_Listeners d)"
  proof (rule list_all2_sync)
    show "list_all2 (like_listener rho) (ct_Listeners c) (ct_Listeners d)" using rho(2) by (simp add: sees_by_def)
  qed (use assms(2,3) in \<open>auto simp: like_listener_def identified_def api_delete_listener_def split: if_splits\<close>)
  then have "list_all2 ?R (filter (\<lambda>l. al_ID l \<noteq> Old i) (ct_Listeners c)) (filter (\<lambda>l. al_ID l \<noteq> Old i) (ct_Listeners d))"
    by (rule list_all2_filter) simp
  then have "list_all2 (like_listener rho) (ct_Listeners c') (ct_Listeners d')"
    using assms(3,4) by (auto simp: api_delete_listener_def split: if_splits elim: list_all2_mono)
  with rho assms(3,4) show ?thesis unfolding sees_def
    by (intro exI[of _ rho]) (auto simp: sees_by_def api_delete_listener_def split: if_splits)
qed

lemma sync_pools:
  assumes "renames rho" "sees_by rho c d" "identified d" "Old i \<in> ap_ID ` set (ct_Pools c)"
  shows "list_all2 (\<lambda>p q. like_pool rho p q \<and> (ap_ID p = Old i \<longleftrightarrow> ap_ID q = Old i)) (ct_Pools c) (ct_Pools d)"
proof (rule list_all2_sync)
  show "list_all2 (like_pool rho) (ct_Pools c) (ct_Pools d)" using assms(2) by (simp add: sees_by_def)
qed (use assms in \<open>auto simp: like_pool_def identified_def renames_def\<close>)

lemma sees_delete_pool:
  assumes "sees c d" "identified d" "api_delete_pool i c = Some c'" "api_delete_pool i d = Some d'"
  shows "sees c' d'"
proof -
  obtain rho where rho: "renames rho" "sees_by rho c d" using assms(1) by (auto simp: sees_def)
  let ?R = "\<lambda>p q. like_pool rho p q \<and> (ap_ID p = Old i \<longleftrightarrow> ap_ID q = Old i)"
  have "list_all2 ?R (ct_Pools c) (ct_Pools d)"
    using assms(3) by (intro sync_pools[OF rho assms(2)]) (simp add: api_delete_pool_def split: if_splits)
  then have "list_all2 ?R (filter (\<lambda>l. ap_ID l \<noteq> Old i) (ct_Pools c)) (filter (\<lambda>l. ap_ID l \<noteq> Old i) (ct_Pools d))"
    by (rule list_all2_filter) simp
  then have "list_all2 (like_pool rho) (ct_Pools c') (ct_Pools d')"
    using assms(3,4) by (auto simp: api_delete_pool_def split: if_splits elim: list_all2_mono)
  with rho assms(3,4) show ?thesis unfolding sees_def
    by (intro exI[of _ rho]) (auto simp: sees_by_def api_delete_pool_def split: if_splits)
qed

lemma at_poolD: "at_pool i f ps = Some qs \<Longrightarrow> \<exists>p q. p \<in> set ps \<and> ap_ID p = Old i \<and> find (\<lambda>p. ap_ID p = Old i) ps = Some p \<and> f p = Some q \<and>
    qs = map (\<lambda>x. if ap_ID x = Old i then q else x) ps"
  by (auto simp: at_pool_def dest: find_SomeD split: option.splits)

lemma sees_on_pool:
  assumes "sees c d" "identified d" "on_pool i f c = Some c'" "on_pool i f d = Some d'"
    and "\<And>rho p p' q q'. like_pool rho p p' \<Longrightarrow> p' \<in> set (ct_Pools d) \<Longrightarrow> f p = Some q \<Longrightarrow> f p' = Some q' \<Longrightarrow> like_pool rho q q'"
  shows "sees c' d'"
proof -
  obtain rho where rho: "renames rho" "sees_by rho c d" using assms(1) by (auto simp: sees_def)
  let ?R = "\<lambda>p q. like_pool rho p q \<and> (ap_ID p = Old i \<longleftrightarrow> ap_ID q = Old i)"
  from assms(3,4) obtain qs qs' where qs: "at_pool i f (ct_Pools c) = Some qs" "c' = c\<lparr>ct_Pools := qs\<rparr>"
      "at_pool i f (ct_Pools d) = Some qs'" "d' = d\<lparr>ct_Pools := qs'\<rparr>" by (auto simp: on_pool_def)
  from at_poolD[OF qs(1)] obtain p q where p: "p \<in> set (ct_Pools c)" "ap_ID p = Old i" "find (\<lambda>p. ap_ID p = Old i) (ct_Pools c) = Some p" "f p = Some q"
      "qs = map (\<lambda>x. if ap_ID x = Old i then q else x) (ct_Pools c)" by blast
  from at_poolD[OF qs(3)] obtain p' q' where p': "p' \<in> set (ct_Pools d)" "find (\<lambda>p. ap_ID p = Old i) (ct_Pools d) = Some p'" "f p' = Some q'"
      "qs' = map (\<lambda>x. if ap_ID x = Old i then q' else x) (ct_Pools d)" by blast
  have sync: "list_all2 ?R (ct_Pools c) (ct_Pools d)" using p(1,2) by (intro sync_pools[OF rho assms(2)]) force
  have "?R p p'" by (rule list_all2_find[OF sync _ p(3) p'(2)]) simp
  then have "like_pool rho q q'" using assms(5) p(4) p'(1,3) by blast
  with sync have "list_all2 (like_pool rho) qs qs'" unfolding p(5) p'(4) by (auto simp: list_all2_map1 list_all2_map2 elim!: list_all2_mono)
  with rho qs show ?thesis unfolding sees_def by (intro exI[of _ rho]) (simp add: sees_by_def)
qed

text \<open>A request that does the same whether identifiers are known or not.\<close>

definition transparent :: "(content \<Rightarrow> content option) \<Rightarrow> bool" where
  "transparent f \<longleftrightarrow> (\<forall>c d c' d'. sees c d \<longrightarrow> grounded c \<longrightarrow> identified d \<longrightarrow> f c = Some c' \<longrightarrow> f d = Some d' \<longrightarrow> sees c' d' \<and> grounded c')"

lemma transparent_delete_listener: "transparent (api_delete_listener i)"
proof -
  have "grounded c \<Longrightarrow> api_delete_listener i c = Some c' \<Longrightarrow> grounded c'" for c c'
    by (auto simp: grounded_def api_delete_listener_def list_all_iff split: if_splits)
  then show ?thesis unfolding transparent_def by (meson sees_delete_listener)
qed

lemma transparent_delete_pool: "transparent (api_delete_pool i)"
proof -
  have "grounded c'" if g: "grounded c" and c': "api_delete_pool i c = Some c'" for c c'
  proof -
    have "al_Pool l \<in> ap_ID ` {p \<in> set (ct_Pools c). ap_ID p \<noteq> Old i}" if "l \<in> set (ct_Listeners c)" for l
    proof -
      obtain p where "p \<in> set (ct_Pools c)" "al_Pool l = ap_ID p" using g \<open>l \<in> set (ct_Listeners c)\<close> by (auto simp: grounded_def list_all_iff)
      moreover have "Old i \<notin> al_Pool ` set (ct_Listeners c)" using c' by (simp add: api_delete_pool_def split: if_splits)
      then have "al_Pool l \<noteq> Old i" using \<open>l \<in> set (ct_Listeners c)\<close> by force
      ultimately show ?thesis by auto
    qed
    with g c' show ?thesis by (auto simp: grounded_def api_delete_pool_def list_all_iff split: if_splits)
  qed
  then show ?thesis unfolding transparent_def by (meson sees_delete_pool)
qed

lemma transparent_on_pool:
  assumes same: "\<And>p q. f p = Some q \<Longrightarrow> ap_ID q = ap_ID p"
    and like: "\<And>rho p p' q q'. like_pool rho p p' \<Longrightarrow> distinct (map fst (ap_Members p')) \<Longrightarrow> f p = Some q \<Longrightarrow> f p' = Some q' \<Longrightarrow> like_pool rho q q'"
  shows "transparent (on_pool i f)"
  unfolding transparent_def
proof (intro allI impI conjI)
  fix c d c' d' assume *: "sees c d" "grounded c" "identified d" "on_pool i f c = Some c'" "on_pool i f d = Some d'"
  show "sees c' d'"
  proof (rule sees_on_pool[OF *(1,3-5)])
    fix rho p p' q q' assume p: "like_pool rho p p'" "p' \<in> set (ct_Pools d)" "f p = Some q" "f p' = Some q'"
    have "distinct (map fst (ap_Members p'))" using p(2) *(3) by (simp add: identified_def list_all_iff)
    with p show "like_pool rho q q'" by (blast intro: like)
  qed
  obtain qs where qs: "at_pool i f (ct_Pools c) = Some qs" "c' = c\<lparr>ct_Pools := qs\<rparr>" using *(4) by (auto simp: on_pool_def)
  then obtain p q where q: "ap_ID p = Old i" "f p = Some q" "qs = map (\<lambda>x. if ap_ID x = Old i then q else x) (ct_Pools c)" using at_poolD[OF qs(1)] by blast
  then have "ap_ID q = Old i" using same by simp
  then have "map ap_ID qs = map ap_ID (ct_Pools c)" unfolding q(3) by simp
  then have ids: "ap_ID ` set qs = ap_ID ` set (ct_Pools c)" by (metis set_map)
  show "grounded c'"
    unfolding grounded_def qs(2) using ids *(2) \<open>ap_ID q = Old i\<close> by (auto simp: grounded_def list_all_iff q(3) split: oid.splits)
qed

lemma transparent_delete_member: "transparent (api_delete_member i m)"
  unfolding api_delete_member_def
proof (rule transparent_on_pool)
  fix rho p p' q q' assume *: "like_pool rho p p'" "distinct (map fst (ap_Members p'))"
    and q: "(if Old m \<in> fst ` set (ap_Members p) then Some (p\<lparr>ap_Members := filter (\<lambda>x. fst x \<noteq> Old m) (ap_Members p)\<rparr>) else None) = Some q"
    "(if Old m \<in> fst ` set (ap_Members p') then Some (p'\<lparr>ap_Members := filter (\<lambda>x. fst x \<noteq> Old m) (ap_Members p')\<rparr>) else None) = Some q'"
  let ?R = "\<lambda>x y. like_member x y \<and> (fst x = Old m \<longleftrightarrow> fst y = Old m)"
  have "list_all2 ?R (ap_Members p) (ap_Members p')"
  proof (rule list_all2_sync)
    show "list_all2 like_member (ap_Members p) (ap_Members p')" using *(1) by (simp add: like_pool_def)
  qed (use *(2) q(1) in \<open>auto simp: like_member_def split: if_splits\<close>)
  then have "list_all2 ?R (filter (\<lambda>x. fst x \<noteq> Old m) (ap_Members p)) (filter (\<lambda>x. fst x \<noteq> Old m) (ap_Members p'))"
    by (rule list_all2_filter) simp
  then have "list_all2 like_member (ap_Members q) (ap_Members q')"
    using q by (auto split: if_splits elim: list_all2_mono)
  with *(1) q show "like_pool rho q q'" by (auto simp: like_pool_def split: if_splits)
qed (auto split: if_splits)

lemma like_new_members: "list_all2 like_member (map abs_new_member reqs) (map abs_new_member reqs)"
  by (auto simp: like_member_def abs_new_member_def intro!: list_all2_refl)

lemma transparent_create_member: "transparent (api_create_member i req)"
  unfolding api_create_member_def
proof (rule transparent_on_pool)
  fix rho p p' q q' assume *: "like_pool rho p p'"
    and q: "(if snd (abs_new_member req) \<in> snd ` set (ap_Members p) then None else Some (p\<lparr>ap_Members := ap_Members p @ [abs_new_member req]\<rparr>)) = Some q"
    "(if snd (abs_new_member req) \<in> snd ` set (ap_Members p') then None else Some (p'\<lparr>ap_Members := ap_Members p' @ [abs_new_member req]\<rparr>)) = Some q'"
  with like_new_members[of "[req]"] show "like_pool rho q q'" by (auto simp: like_pool_def list_all2_appendI split: if_splits)
qed (auto split: if_splits)

lemma transparent_replace_members: "transparent (api_replace_members i reqs)"
  unfolding api_replace_members_def by (rule transparent_on_pool) (auto simp: like_pool_def like_new_members)

lemma transparent_update_pool: "transparent (api_update_pool i patch)"
  unfolding api_update_pool_def by (rule transparent_on_pool) (auto simp: like_pool_def abs_patch_def split: option.split)

text \<open>Creation of a pool: the name is known before the identifier.\<close>

lemma sees_by_renamed:
  assumes "grounded c" "sees_by rho c d" "\<And>x. x \<in> ap_ID ` set (ct_Pools c) \<Longrightarrow> sigma x = rho x"
  shows "sees_by sigma c d"
proof -
  have "like_listener rho l m \<Longrightarrow> like_listener sigma l m" if "l \<in> set (ct_Listeners c)" for l m
    using that assms(1,3) by (auto simp: grounded_def list_all_iff like_listener_def)
  moreover have "like_pool rho p q \<Longrightarrow> like_pool sigma p q" if "p \<in> set (ct_Pools c)" for p q
    using that assms(3) by (auto simp: like_pool_def)
  ultimately show ?thesis using assms(2) unfolding sees_by_def by (metis list.rel_mono_strong)
qed

lemma transparent_create_pool: "transparent (api_create_pool req)"
  unfolding transparent_def
proof (intro allI impI conjI)
  fix c d c' d' assume *: "sees c d" "grounded c" "identified d" "api_create_pool req c = Some c'" "api_create_pool req d = Some d'"
  obtain rho where rho: "renames rho" "sees_by rho c d" using *(1) by (auto simp: sees_def)
  let ?sigma = "rho(New (pp_Name req) := New (pp_Name req))"
  have "New (pp_Name req) \<notin> ap_ID ` set (ct_Pools c)"
  proof
    assume "New (pp_Name req) \<in> ap_ID ` set (ct_Pools c)"
    then obtain p where p: "p \<in> set (ct_Pools c)" "ap_ID p = New (pp_Name req)" by auto
    with *(2) have "pp_Name req = ap_Name p" by (auto simp: grounded_def list_all_iff split: oid.splits)
    with p(1) have "pp_Name req \<in> ap_Name ` set (ct_Pools c)" by (rule rev_image_eqI)
    with *(4) show False by (simp add: api_create_pool_def)
  qed
  then have "?sigma x = rho x" if "x \<in> ap_ID ` set (ct_Pools c)" for x using that by (cases "x = New (pp_Name req)") simp_all
  with *(2) rho(2) have "sees_by ?sigma c d" by (rule sees_by_renamed)
  moreover have "like_pool ?sigma (abs_new_pool req) (abs_new_pool req)" by (simp add: like_pool_def abs_new_pool_def like_new_members)
  ultimately have "sees_by ?sigma c' d'" using *(4,5) by (auto simp: sees_by_def api_create_pool_def list_all2_appendI split: if_splits)
  then show "sees c' d'" unfolding sees_def using rho(1) by (intro exI[of _ ?sigma]) (simp add: renames_def)
  show "grounded c'" using *(2,4) by (auto simp: grounded_def list_all_iff api_create_pool_def abs_new_pool_def split: if_splits)
qed

lemma transparent_create_listener: "transparent (api_create_listener n req)"
  unfolding transparent_def
proof (intro allI impI conjI)
  fix c d c' d' assume *: "sees c d" "grounded c" "identified d" "api_create_listener n req c = Some c'" "api_create_listener n req d = Some d'"
  obtain rho where rho: "renames rho" "sees_by rho c d" using *(1) by (auto simp: sees_def)
  obtain p where p: "find (\<lambda>p. ap_Name p = n) (ct_Pools c) = Some p" "c' = c\<lparr>ct_Listeners := ct_Listeners c @ [abs_new_listener n (ap_ID p) req]\<rparr>"
    using *(4) by (auto simp: api_create_listener_def split: option.splits if_splits)
  obtain q where q: "find (\<lambda>p. ap_Name p = n) (ct_Pools d) = Some q" "d' = d\<lparr>ct_Listeners := ct_Listeners d @ [abs_new_listener n (ap_ID q) req]\<rparr>"
    using *(5) by (auto simp: api_create_listener_def split: option.splits if_splits)
  have "like_pool rho p q"
  proof (rule list_all2_find[OF _ _ p(1) q(1)])
    show "list_all2 (like_pool rho) (ct_Pools c) (ct_Pools d)" using rho(2) by (simp add: sees_by_def)
  qed (simp add: like_pool_def)
  then have "like_listener rho (abs_new_listener n (ap_ID p) req) (abs_new_listener n (ap_ID q) req)"
    by (simp add: like_listener_def like_pool_def abs_new_listener_def)
  with rho p(2) q(2) show "sees c' d'" unfolding sees_def by (intro exI[of _ rho]) (simp add: sees_by_def list_all2_appendI)
  have "p \<in> set (ct_Pools c)" using find_SomeD[OF p(1)] by simp
  with *(2) show "grounded c'" by (simp add: grounded_def p(2) list_all_iff abs_new_listener_def)
qed

lemmas transparent_requests = transparent_delete_listener transparent_delete_pool transparent_delete_member transparent_create_member
  transparent_replace_members transparent_update_pool transparent_create_pool transparent_create_listener

subsection \<open>The service\<close>

text \<open>Identifiers are given in order; they are longer than all that are in use.\<close>

definition id_length :: "content \<Rightarrow> nat" where
  "id_length d = foldr max (map (length \<circ> oid_text) (map al_ID (ct_Listeners d) @ map ap_ID (ct_Pools d) @
     concat (map (map fst \<circ> ap_Members) (ct_Pools d)))) 0"

fun fresh_oid :: "nat \<Rightarrow> nat \<Rightarrow> oid \<Rightarrow> oid" where
  "fresh_oid base k (Old i) = Old i"
| "fresh_oid base k (New n) = Old (replicate (Suc (base + k)) CHR ''x'')"

definition given_ids :: "apool list \<Rightarrow> apool list \<Rightarrow> oid \<Rightarrow> oid" where
  "given_ids ps qs x = (case x of Old i \<Rightarrow> Old i
     | New n \<Rightarrow> (case map_of (zip (map ap_ID ps) (map ap_ID qs)) x of None \<Rightarrow> x | Some y \<Rightarrow> y))"

definition assign :: "content \<Rightarrow> content" where
  "assign d = (let base = id_length d;
     pools = map (\<lambda>(k, p). p\<lparr>ap_ID := fresh_oid base k (ap_ID p),
         ap_Members := map (\<lambda>(j, m). (fresh_oid base j (fst m), snd m)) (enumerate 0 (ap_Members p))\<rparr>) (enumerate 0 (ct_Pools d))
     in \<lparr>ct_Listeners = map (\<lambda>(k, l). l\<lparr>al_ID := fresh_oid base k (al_ID l), al_Pool := given_ids (ct_Pools d) pools (al_Pool l)\<rparr>)
           (enumerate 0 (ct_Listeners d)), ct_Pools = pools\<rparr>)"

text \<open>A content that is not well-formed is refused.\<close>

definition accept :: "content \<Rightarrow> content option" where
  "accept d = (let e = assign d in if identified e \<and> sees_by (given_ids (ct_Pools d) (ct_Pools e)) d e then Some e else None)"

lemma acceptD: "accept d = Some e \<Longrightarrow> identified e \<and> sees d e"
  by (auto simp: accept_def Let_def sees_def renames_def given_ids_def split: if_splits intro!: exI[of _ "given_ids (ct_Pools d) (ct_Pools e)"])

text \<open>A load balancer is its ID, its name and its content.\<close>

type_synonym store = "(string \<times> string \<times> content) list"

definition host :: "string \<Rightarrow> string" where
  "host i = ''host-'' @ i"

definition keyed :: "string \<Rightarrow> string \<times> string \<times> content \<Rightarrow> bool" where
  "keyed n x \<longleftrightarrow> n = fst x \<or> n = fst (snd x) \<or> n = host (fst x)"

definition store_ok :: "store \<Rightarrow> bool" where
  "store_ok s \<longleftrightarrow> distinct (map fst s) \<and> distinct (map (fst \<circ> snd) s) \<and> list_all (\<lambda>x. \<not> HasPrefix (fst x) ''kube-'') s"

definition store_names :: "string set" where
  "store_names = {n. HasPrefix n ''kube-''}"

definition store_owner :: "store \<Rightarrow> string \<Rightarrow> string option" where
  "store_owner s n = (if store_ok s then map_option fst (find (keyed n) s) else None)"

definition store_holds :: "string \<Rightarrow> store \<Rightarrow> content \<Rightarrow> bool" where
  "store_holds i s c \<longleftrightarrow> (case map_of s i of None \<Rightarrow> False | Some (n, d) \<Rightarrow> identified d \<and> grounded c \<and> sees c d)"

definition store_pool_id :: "string \<Rightarrow> store \<Rightarrow> string \<Rightarrow> string option" where
  "store_pool_id i s n = (case map_of s i of None \<Rightarrow> None | Some (m, d) \<Rightarrow> reference_pool_id d n)"

definition store_put :: "string \<Rightarrow> content \<Rightarrow> store \<Rightarrow> store" where
  "store_put i e s = map (\<lambda>x. (fst x, fst (snd x), if fst x = i then e else snd (snd x))) s"

definition conflict :: "('s, 'a) io" where
  "conflict = raiseM (Err ''conflict'')"

definition request :: "string \<Rightarrow> (content \<Rightarrow> content option) \<Rightarrow> 'a \<Rightarrow> (store, 'a) io" where
  "request i f x s = (case map_of s i of
     None \<Rightarrow> conflict s
   | Some (n, d) \<Rightarrow> (case Option.bind (f d) accept of None \<Rightarrow> conflict s | Some e \<Rightarrow> (Inr x, store_put i e s)))"

definition look :: "string \<Rightarrow> (content \<Rightarrow> 'a option) \<Rightarrow> (store, 'a option) io" where
  "look i f s = (case map_of s i of None \<Rightarrow> conflict s | Some (n, d) \<Rightarrow> (Inr (f d), s))"

definition shown_lb :: "string \<times> string \<times> content \<Rightarrow> ApiLoadBalancer" where
  "shown_lb x = (case x of (i, n, d) \<Rightarrow> ex_api_lb\<lparr>alb_ID := Some i, alb_Name := Some n, alb_Hostname := Some (host i),
     alb_Pools := concat (map (api_ref_of d) (ct_Pools d))\<rparr>)"

definition store_create :: "CreateLoadBalancerOptions \<Rightarrow> (store, ApiLoadBalancer option) io" where
  "store_create r s =
     (let x = (''id-'' @ replicate (foldr max (map (length \<circ> fst) s) 0) CHR ''x'', clb_Name r, assign (abs_create r)) in
      if store_ok (s @ [x]) \<and> store_owner s (clb_Name r) = None \<and> grounded (abs_create r) \<and> accept (abs_create r) \<noteq> None
      then (Inr (Some (shown_lb x)), s @ [x]) else conflict s)"

definition store_client :: "store VpcV1" where
  "store_client = \<lparr>v1_CreateLoadBalancer = store_create,
     v1_CreateLoadBalancerListener = (\<lambda>i r. request i (\<lambda>d.
       case pool_by_id d (lp_DefaultPool r) of None \<Rightarrow> None | Some p \<Rightarrow> api_create_listener (ap_Name p) r d) (Some ex_api_listener)),
     v1_CreateLoadBalancerPool = (\<lambda>i r. request i (api_create_pool r) (Some ex_api_pool)),
     v1_CreateLoadBalancerPoolMember = (\<lambda>i j r. request i (api_create_member j r) (Some ex_api_member)),
     v1_DeleteLoadBalancer = (\<lambda>i s. if store_ok s then (Inr (), filter (\<lambda>x. fst x \<noteq> i) s) else conflict s),
     v1_DeleteLoadBalancerListener = (\<lambda>i j. request i (api_delete_listener j) ()),
     v1_DeleteLoadBalancerPool = (\<lambda>i j. request i (api_delete_pool j) ()),
     v1_DeleteLoadBalancerPoolMember = (\<lambda>i j k. request i (api_delete_member j k) ()),
     v1_GetLoadBalancer = (\<lambda>i s. (case map_of s i of None \<Rightarrow> conflict s | Some x \<Rightarrow> (Inr (Some (shown_lb (i, x))), s))),
     v1_GetSubnet = (\<lambda>i. returnM (Some ex_api_subnet)),
     v1_ListLoadBalancers = (\<lambda>start s. if store_ok s then (Inr (Some \<lparr>page_Items = map shown_lb s, page_NextHref = None\<rparr>), s) else conflict s),
     v1_ListLoadBalancerListeners = (\<lambda>i. look i (\<lambda>d. Some (map (api_listener_of d) (ct_Listeners d)))),
     v1_ListLoadBalancerPools = (\<lambda>i. look i (\<lambda>d. Some (map api_pool_of (ct_Pools d)))),
     v1_ListLoadBalancerPoolMembers = (\<lambda>i j. look i (\<lambda>d. map_option (\<lambda>p. map api_member_of (ap_Members p)) (pool_by_id d j))),
     v1_ListSubnets = (\<lambda>start. returnM (Some \<lparr>page_Items = [ex_api_subnet\<lparr>asub_VPC := Some \<lparr>aref_ID = Some ''vpc-1'', aref_Name = Some ''vpc''\<rparr>\<rparr>], page_NextHref = None\<rparr>)),
     v1_ReplaceLoadBalancerPoolMembers = (\<lambda>i j r. request i (api_replace_members j r) (Some [ex_api_member])),
     v1_UpdateLoadBalancerPool = (\<lambda>i j r. request i (api_update_pool j r) (Some ex_api_pool))\<rparr>"

definition store_gen2 :: "store VpcSdkGen2" where
  "store_gen2 = \<lparr>gen2_Client = store_client, gen2_Config = ex_config, gen2_start = (\<lambda>_. Inr ''2''), gen2_fuel = 10\<rparr>"

definition store_runtime :: "store Runtime" where
  "store_runtime = \<lparr>rt_Now = (\<lambda>_. 0), rt_Sleep = (\<lambda>_ s. s), rt_range = (\<lambda>_ ks. ks)\<rparr>"

definition store_cloud :: "store CloudVpc" where
  "store_cloud = \<lparr>vpc_Config = ex_config, vpc_Sdk = VpcSdkGen2_sdk store_gen2, vpc_Recorder = None\<rparr>"

subsection \<open>The service meets the contract\<close>

lemma map_of_put: "map_of (store_put i e s) j = (if j = i then map_option (\<lambda>x. (fst x, e)) (map_of s i) else map_of s j)"
  by (induction s) (auto simp: store_put_def)

lemma put_ids: "map fst (store_put i e s) = map fst s" "map (fst \<circ> snd) (store_put i e s) = map (fst \<circ> snd) s"
  by (auto simp: store_put_def)

lemma put_ok: "store_ok (store_put i e s) = store_ok s"
proof -
  have "list_all (\<lambda>x. \<not> HasPrefix (fst x) ''kube-'') (store_put i e s) = list_all (\<lambda>i. \<not> HasPrefix i ''kube-'') (map fst (store_put i e s))"
    by (simp add: list_all_iff)
  then show ?thesis unfolding store_ok_def put_ids by (simp add: list_all_iff)
qed

lemma put_owner: "store_owner (store_put i e s) = store_owner s"
proof -
  have "map_option fst (find (keyed n) (store_put i e s)) = map_option fst (find (keyed n) s)" for n
    by (simp add: store_put_def find_map option.map_comp comp_def keyed_def[abs_def])
  then show ?thesis by (simp add: fun_eq_iff store_owner_def put_ok)
qed

text \<open>The outcomes of a request.\<close>

lemma request_cases:
  assumes "request i f x s = (r, s')"
  obtains (refused) "isl r" "s' = s" | (granted) n d d' e where "map_of s i = Some (n, d)" "f d = Some d'" "accept d' = Some e" "s' = store_put i e s"
proof (cases "map_of s i")
  case None
  with assms refused show ?thesis by (auto simp: request_def conflict_def raiseM_def)
next
  case (Some nd)
  obtain n d where nd: "nd = (n, d)" by (cases nd)
  show ?thesis
  proof (cases "Option.bind (f d) accept")
    case None
    with Some nd assms refused show ?thesis by (auto simp: request_def conflict_def raiseM_def)
  next
    case e: (Some e)
    then obtain d' where "f d = Some d'" "accept d' = Some e" by (auto simp: bind_eq_Some_conv)
    with Some nd e assms granted show ?thesis by (simp add: request_def)
  qed
qed

lemma turns_request:
  assumes "transparent f" "store_holds i s c" "f c = Some c'" "\<forall>n d. map_of s i = Some (n, d) \<longrightarrow> g d = f d"
  shows "turns (store_holds i) (request i g x) c c' s"
proof -
  obtain r s' where run: "request i g x s = (r, s')" by (cases "request i g x s")
  from run have "if isl r then store_holds i s' c \<or> store_holds i s' c' else store_holds i s' c'"
  proof (cases rule: request_cases)
    case refused
    with assms(2) show ?thesis by simp
  next
    case (granted n d d' e)
    have d: "identified d" "grounded c" "sees c d" using assms(2) granted(1) by (simp_all add: store_holds_def)
    have "f d = Some d'" using assms(4) granted(1,2) by simp
    with assms(1,3) d have "sees c' d'" "grounded c'" unfolding transparent_def by blast+
    with acceptD[OF granted(3)] granted(1,4) have "store_holds i s' c'" by (auto simp: store_holds_def map_of_put intro: sees_trans)
    then show ?thesis by simp
  qed
  with run show ?thesis by (cases r) (simp_all add: turns_def)
qed

lemma turns_same: "transparent f \<Longrightarrow> store_holds i s c \<Longrightarrow> f c = Some c' \<Longrightarrow> turns (store_holds i) (request i f x) c c' s"
  by (rule turns_request[where f = f]) simp_all

lemma request_stays:
  assumes "\<And>e s. Inv s \<Longrightarrow> Inv (store_put i e s)"
  shows "stays Inv (\<lambda>_. True) (request i f x)"
  unfolding stays_def by (auto elim!: request_cases intro: assms)

lemma look_state: "look i f s = (r, s') \<Longrightarrow> s' = s"
  by (auto simp: look_def conflict_def raiseM_def split: option.splits prod.splits)

lemma store_sdk_simps:
  "v1_CreateLoadBalancer (gen2_Client store_gen2) = store_create"
  "v1_DeleteLoadBalancer (gen2_Client store_gen2) i s = (if store_ok s then (Inr (), filter (\<lambda>x. fst x \<noteq> i) s) else conflict s)"
  by (simp_all add: store_gen2_def store_client_def)

lemma keyed_name: "store_ok s \<Longrightarrow> n \<in> store_names \<Longrightarrow> x \<in> set s \<Longrightarrow> keyed n x \<longleftrightarrow> n = fst (snd x)"
  by (auto simp: keyed_def store_names_def store_ok_def list_all_iff host_def)

lemma owner_name:
  assumes "n \<in> store_names"
  shows "store_owner s n = Some i \<longleftrightarrow> store_ok s \<and> (\<exists>d. (i, n, d) \<in> set s)"
proof (cases "store_ok s")
  case True
  have "find (keyed n) s = find (\<lambda>x. n = fst (snd x)) s" using keyed_name[OF True assms] by (intro find_cong) simp_all
  moreover have "map_option fst (find (\<lambda>x. n = fst (snd x)) s) = Some i \<longleftrightarrow> (\<exists>d. (i, n, d) \<in> set s)"
    using True unfolding store_ok_def
  proof (induction s)
    case (Cons x s)
    obtain j m d where x: "x = (j, m, d)" by (cases x)
    show ?case
    proof (cases "n = m")
      case True
      with x Cons.prems show ?thesis by (force simp: rev_image_eqI)
    next
      case False
      with x Cons show ?thesis by auto
    qed
  qed simp
  ultimately show ?thesis using True by (simp add: store_owner_def)
qed (simp add: store_owner_def)

lemma owner_find: "store_ok s \<Longrightarrow> store_owner s n = map_option fst (find (keyed n) s)"
  by (simp add: store_owner_def)

lemma keyed_shown: "has_key n (shown_lb x) = keyed n x"
  by (cases x) (auto simp: has_key_def shown_lb_def keyed_def SafePointerString_def ex_api_lb_def)

lemma store_shows_refs:
  "list_all (\<lambda>r. reference_pool_id d (SafePointerString (aref_Name r)) = Some (SafePointerString (aref_ID r))) (concat (map (api_ref_of d) ps))"
  by (auto simp: list_all_iff api_ref_of_def SafePointerString_def split: option.splits)

lemma holds_identified: "store_holds i s c \<Longrightarrow> identified c \<Longrightarrow> \<exists>n. map_of s i = Some (n, c)"
  by (auto simp: store_holds_def dest: sees_identified split: option.splits)

lemma store_looks: "v1_ListLoadBalancerListeners store_client i = look i (\<lambda>d. Some (map (api_listener_of d) (ct_Listeners d)))"
  "v1_ListLoadBalancerPools store_client i = look i (\<lambda>d. Some (map api_pool_of (ct_Pools d)))"
  "v1_ListLoadBalancerPoolMembers store_client i j = look i (\<lambda>d. map_option (\<lambda>p. map api_member_of (ap_Members p)) (pool_by_id d j))"
  by (simp_all add: store_client_def)

lemma look_held: "store_holds i s c \<Longrightarrow> identified c \<Longrightarrow> look i f s = (Inr x, s') \<Longrightarrow> x = f c"
  using holds_identified[of i s c] by (auto simp: look_def)

interpretation store_api: documented_api store_gen2 store_runtime i "store_holds i" "store_pool_id i"
proof (unfold_locales, goal_cases)
  case (8 s c n lreq c')
  have "\<forall>m d. map_of s i = Some (m, d) \<longrightarrow> (case pool_by_id d (lp_DefaultPool lreq) of None \<Rightarrow> None | Some p \<Rightarrow> api_create_listener (ap_Name p) lreq d) = api_create_listener n lreq d"
    using 8(2) reference_pool_idD[of _ n "lp_DefaultPool lreq"] by (fastforce simp: store_pool_id_def)
  from turns_request[OF transparent_create_listener 8(1,3) this] show ?case by (simp add: store_gen2_def store_client_def)
next
  case (9 s c r s')
  then show ?case
    by (auto simp: store_gen2_def store_client_def store_holds_def truthful_def mapLoadBalancer_def shown_lb_def conflict_def raiseM_def
        store_pool_id_def list_all_iff api_ref_of_def mapRef_def SafePointerString_def split: option.splits)
qed (simp_all add: store_gen2_def store_client_def store_runtime_def turns_same transparent_requests)

interpretation store_vpc: documented_vpc store_gen2 store_runtime i "store_holds i" "store_pool_id i"
proof (unfold_locales, goal_cases)
  case (6 s c start page s' lb)
  then have *: "store_ok s" "s' = s" "lb \<in> shown_lb ` set s"
    by (auto simp: store_gen2_def store_client_def conflict_def raiseM_def split: if_splits)
  then obtain j n d where x: "(j, n, d) \<in> set s" "lb = shown_lb (j, n, d)" by auto
  then have "map_of s j = Some (n, d)" using *(1) by (simp add: store_ok_def)
  with store_shows_refs[of d "ct_Pools d"] *(2) x(2) show ?case by (auto simp: shown_lb_def store_pool_id_def)
next
  case (7 s c ls s')
  then have "ls = map (api_listener_of c) (ct_Listeners c)"
    using look_held[OF 7(1,2), of _ "Some ls" s'] by (fastforce simp: store_gen2_def store_looks)
  with 7(2) show ?case by (auto simp: list_all_iff comp_def reference_listener_shown intro!: map_idI)
next
  case (8 s c ps s')
  then have "ps = map api_pool_of (ct_Pools c)"
    using look_held[OF 8(1,2), of _ "Some ps" s'] by (fastforce simp: store_gen2_def store_looks)
  with 8(2) show ?case by (auto simp: identified_def list_all_iff reference_pool_shown)
next
  case (9 s c p j ms s')
  then have "Some ms = map_option (\<lambda>p. map api_member_of (ap_Members p)) (pool_by_id c j)"
    using look_held[OF 9(1,2), of _ "Some ms" s'] by (fastforce simp: store_gen2_def store_looks)
  then have ms: "ms = map api_member_of (ap_Members p)" using pool_by_id_identified[OF 9(2-4)] by simp
  have "shown_member (api_member_of m) = m" if "m \<in> set (ap_Members p)" for m
    using that 9(2,3) by (intro reference_member_shown) (auto simp: identified_def list_all_iff)
  with ms show ?case by (simp add: map_idI)
qed (auto simp: undisturbed_def store_gen2_def store_client_def returnM_def conflict_def raiseM_def dest: look_state)

text \<open>Requests for one load balancer leave the others alone.\<close>

lemma stays_unchanged: "(\<And>s r s'. m s = (r, s') \<Longrightarrow> s' = s) \<Longrightarrow> stays Inv (\<lambda>_. True) m"
  unfolding stays_def by blast

lemma store_reads:
  "v1_ListLoadBalancers (gen2_Client store_gen2) start s = (r, s') \<Longrightarrow> s' = s"
  "v1_ListSubnets (gen2_Client store_gen2) start s = (r', s') \<Longrightarrow> s' = s"
  "v1_GetLoadBalancer (gen2_Client store_gen2) i s = (q, s') \<Longrightarrow> s' = s"
  "v1_GetLoadBalancer (gen2_Client store_gen2) i s = (Inr (Some lb), s') \<Longrightarrow> alb_ID lb = Some i"
  by (auto simp: store_gen2_def store_client_def returnM_def conflict_def raiseM_def shown_lb_def split: if_splits option.splits)

lemma store_own:
  assumes "\<And>j e s. own j \<Longrightarrow> Inv s \<Longrightarrow> Inv (store_put j e s)"
  shows "own_api_requests store_gen2 store_runtime Inv own"
proof (unfold_locales, goal_cases)
  case (1 start)
  show ?case by (rule stays_unchanged) (rule store_reads(1))
next
  case (2 start)
  show ?case by (rule stays_unchanged) (rule store_reads(2))
next
  case (6 j)
  then show ?case unfolding stays_def using store_reads(3,4)[of j] by (auto simp: SafePointerString_def split: option.splits)
next
  case (15 s d)
  then show ?case by (simp add: store_runtime_def)
qed (simp_all add: store_gen2_def store_client_def, (rule stays_unchanged look_state request_stays assms | assumption)+)

lemma put_placed: "j \<noteq> i \<Longrightarrow> placed store_holds store_owner n i c s \<Longrightarrow> placed store_holds store_owner n i c (store_put j e s)"
  by (simp add: placed_def put_owner store_holds_def map_of_put)

text \<open>Creation.\<close>

lemma store_create_cases:
  assumes "store_create req s = (r, s')"
  obtains (refused) "isl r" "s' = s" | (granted) i e where "s' = s @ [(i, clb_Name req, e)]" "store_ok s'" "store_owner s (clb_Name req) = None"
    "grounded (abs_create req)" "accept (abs_create req) = Some e"
proof -
  have "accept d = Some e \<Longrightarrow> e = assign d" for d e by (auto simp: accept_def Let_def split: if_splits)
  with assms that show ?thesis by (auto simp: store_create_def Let_def conflict_def raiseM_def split: if_splits)
qed

lemma ok_append: "store_ok (s @ [x]) \<Longrightarrow> store_ok s"
  by (simp add: store_ok_def)

lemma find_append: "find P (xs @ ys) = (case find P xs of None \<Rightarrow> find P ys | Some x \<Rightarrow> Some x)"
  by (induction xs) simp_all

lemma owner_append: "store_ok (s @ [x]) \<Longrightarrow> store_owner (s @ [x]) n =
    (case store_owner s n of None \<Rightarrow> if keyed n x then Some (fst x) else None | Some i \<Rightarrow> Some i)"
  using ok_append[of s x] by (auto simp: store_owner_def find_append split: option.splits)

lemma map_of_snoc:
  assumes "store_ok (s @ [(i, x)])"
  shows "map_of (s @ [(i, x)]) j = (if j = i then Some x else map_of s j)"
proof (cases "j = i")
  case True
  have "i \<notin> fst ` set s" using assms by (simp add: store_ok_def)
  then have "map_of s i = None" by (simp add: map_of_eq_None_iff)
  with True show ?thesis by (simp add: map_of_append map_add_def)
qed (simp add: map_of_append map_add_def split: option.split)

lemma create_keeps:
  assumes "store_create req s = (r, s')"
  shows "store_holds i s c \<Longrightarrow> store_holds i s' c" "store_owner s n = Some i \<Longrightarrow> store_owner s' n = Some i"
proof -
  have "(store_holds i s c \<longrightarrow> store_holds i s' c) \<and> (store_owner s n = Some i \<longrightarrow> store_owner s' n = Some i)"
    using assms
  proof (cases rule: store_create_cases)
    case (granted j e)
    then have ok: "store_ok (s @ [(j, clb_Name req, e)])" by simp
    then have "j \<notin> fst ` set s" by (simp add: store_ok_def)
    then have "map_of s j = None" by (simp add: map_of_eq_None_iff)
    with map_of_snoc[OF ok, folded granted(1)] owner_append[OF ok, folded granted(1)] show ?thesis by (auto simp: store_holds_def)
  qed simp
  then show "store_holds i s c \<Longrightarrow> store_holds i s' c" "store_owner s n = Some i \<Longrightarrow> store_owner s' n = Some i" by simp_all
qed

lemma create_creates:
  assumes "store_create req s = (r, s')" "n \<in> store_names" "store_owner s' n = Some i"
  shows "store_owner s n = Some i \<or> n = clb_Name req \<and> store_holds i s' (abs_create req)"
  using assms(1)
proof (cases rule: store_create_cases)
  case refused
  with assms(3) show ?thesis by simp
next
  case (granted j e)
  then have ok: "store_ok (s @ [(j, clb_Name req, e)])" by simp
  show ?thesis
  proof (cases "store_owner s n")
    case None
    with assms(3) have "keyed n (j, clb_Name req, e)" "i = j" unfolding granted(1) owner_append[OF ok] by (auto split: if_splits)
    with keyed_name[OF ok assms(2)] have "n = clb_Name req" by simp
    moreover have "store_holds j s' (abs_create req)"
      using granted(4) acceptD[OF granted(5)] map_of_snoc[OF ok, folded granted(1)] by (simp add: store_holds_def)
    ultimately show ?thesis using \<open>i = j\<close> by simp
  next
    case (Some k)
    with assms(3) show ?thesis unfolding granted(1) owner_append[OF ok] by simp
  qed
qed

lemma create_created:
  assumes "store_create req s = (Inr lb, s')" "clb_Name req \<in> store_names"
  shows "store_owner s (clb_Name req) = None \<and> store_owner s' (clb_Name req) \<noteq> None"
  using assms(1)
proof (cases rule: store_create_cases)
  case (granted j e)
  then have ok: "store_ok (s @ [(j, clb_Name req, e)])" by simp
  have "keyed (clb_Name req) (j, clb_Name req, e)" by (simp add: keyed_def)
  with granted(3) show ?thesis unfolding granted(1) owner_append[OF ok] by simp
qed simp

text \<open>Deletion.\<close>

lemma ok_filter: "store_ok s \<Longrightarrow> store_ok (filter P s)"
  by (auto simp: store_ok_def distinct_map_filter list_all_iff)

lemma find_filter: "find P xs = Some x \<Longrightarrow> Q x \<Longrightarrow> find P (filter Q xs) = Some x"
  by (induction xs) (auto split: if_splits)

lemma map_of_without: "j \<noteq> i \<Longrightarrow> map_of (filter (\<lambda>x. fst x \<noteq> j) s) i = map_of s i"
  by (induction s) auto

lemma map_of_removed: "map_of (filter (\<lambda>x. fst x \<noteq> i) s) i = None"
  by (induction s) auto

lemma delete_placed:
  assumes "j \<noteq> i" "placed store_holds store_owner n i c s"
  shows "placed store_holds store_owner n i c (filter (\<lambda>x. fst x \<noteq> j) s)"
proof -
  from assms(2) obtain x where x: "store_ok s" "find (keyed n) s = Some x" "fst x = i"
    by (auto simp: placed_def store_owner_def split: if_splits)
  with assms show ?thesis
    using find_filter[of "keyed n" s x "\<lambda>x. fst x \<noteq> j"] by (simp add: placed_def store_owner_def ok_filter store_holds_def map_of_without)
qed

text \<open>Listing.\<close>

lemma store_list:
  assumes "serves_pages (gen2_start store_gen2) (v1_ListLoadBalancers (gen2_Client store_gen2)) None s pages s'"
  shows "store_owner s n = map_option (\<lambda>lb. SafePointerString (alb_ID lb)) (find (has_key n) (concat (map page_Items pages)))"
proof -
  have client: "v1_ListLoadBalancers (gen2_Client store_gen2) start s =
      (if store_ok s then (Inr (Some \<lparr>page_Items = map shown_lb s, page_NextHref = None\<rparr>), s) else conflict s)" for start
    by (simp add: store_gen2_def store_client_def)
  from assms have "store_ok s \<and> concat (map page_Items pages) = map shown_lb s"
    by (cases pages) (auto simp: client conflict_def raiseM_def split: if_splits list.splits)
  moreover have "SafePointerString (alb_ID (shown_lb x)) = fst x" for x by (cases x) (simp add: shown_lb_def SafePointerString_def)
  ultimately show ?thesis by (simp add: owner_find find_map keyed_shown option.map_comp comp_def)
qed

text \<open>A content with identifiers is a listing.\<close>

lemma list_all2_in: "list_all2 R xs ys \<Longrightarrow> y \<in> set ys \<Longrightarrow> \<exists>x \<in> set xs. R x y" "list_all2 R xs ys \<Longrightarrow> x \<in> set xs \<Longrightarrow> \<exists>y \<in> set ys. R x y"
  by (induction rule: list_all2_induct) auto

lemma listed_listener: "is_id (al_ID l) \<Longrightarrow> is_id (al_Pool l) \<Longrightarrow> \<exists>k. l = abs_listener k"
  by (rule exI[of _ "\<lparr>lsn_ConnectionLimit = 0, lsn_DefaultPool = \<lparr>ref_ID = oid_text (al_Pool l), ref_Name = []\<rparr>, lsn_ID = oid_text (al_ID l),
      lsn_Port = al_Port l, lsn_Protocol = al_Protocol l, lsn_ProvisioningStatus = []\<rparr>"])
    (simp add: abs_listener_def is_idD)

lemma listed_member: "is_id (fst m) \<Longrightarrow> \<exists>k. m = abs_member k"
  by (rule exI[of _ "\<lparr>mem_Health = [], mem_ID = oid_text (fst m), mem_Port = snd (snd m), mem_ProvisioningStatus = [],
      mem_TargetIPAddress = fst (snd m), mem_TargetInstanceID = [], mem_Weight = 0\<rparr>"])
    (simp add: abs_member_def is_idD)

lemma listed_pool:
  assumes "is_id (ap_ID p)" "list_all (\<lambda>m. is_id (fst m)) (ap_Members p)"
  shows "\<exists>k. p = abs_pool k"
proof -
  have "\<exists>ms. ap_Members p = map abs_member ms" unfolding ex_map_conv using assms(2) listed_member by (simp add: list_all_iff)
  then obtain ms where "ap_Members p = map abs_member ms" by blast
  with assms(1) show ?thesis
    by (intro exI[of _ "\<lparr>pool_Algorithm = [], pool_HealthMonitor = \<lparr>hm_Delay = 0, hm_MaxRetries = 0, hm_Port = snd (ap_Monitor p), hm_Timeout = 0,
        hm_Type = fst (ap_Monitor p), hm_URLPath = []\<rparr>, pool_ID = oid_text (ap_ID p), pool_Members = ms, pool_Name = ap_Name p,
        pool_Protocol = [], pool_ProvisioningStatus = [], pool_ProxyProtocol = ap_Proxy p, pool_SessionPersistence = []\<rparr>"])
      (simp add: abs_pool_def is_idD)
qed

lemma identified_listed:
  assumes "identified d"
  obtains ls ps where "abs_content ls ps = d"
proof -
  have "\<exists>ls. ct_Listeners d = map abs_listener ls" "\<exists>ps. ct_Pools d = map abs_pool ps"
    unfolding ex_map_conv using assms listed_listener listed_pool by (simp_all add: identified_def list_all_iff)
  then obtain ls ps where "ct_Listeners d = map abs_listener ls" "ct_Pools d = map abs_pool ps" by blast
  with that[of ls ps] show ?thesis by (simp add: abs_content_def)
qed

lemma list_all2_map_eq: "list_all2 R xs ys \<Longrightarrow> (\<And>x y. R x y \<Longrightarrow> f x = g y) \<Longrightarrow> map f xs = map g ys"
  by (induction rule: list_all2_induct) auto

lemma seen_grounded:
  assumes "sees_by rho c d" "grounded c" "identified d"
  shows "grounded d"
proof -
  have "al_Pool m \<in> ap_ID ` set (ct_Pools d)" if m: "m \<in> set (ct_Listeners d)" for m
  proof -
    obtain l where l: "l \<in> set (ct_Listeners c)" "al_Pool m = rho (al_Pool l)"
      using m assms(1) list_all2_in(1)[of "like_listener rho" "ct_Listeners c" "ct_Listeners d" m] by (auto simp: sees_by_def like_listener_def)
    then obtain p where p: "p \<in> set (ct_Pools c)" "al_Pool l = ap_ID p" using assms(2) by (auto simp: grounded_def list_all_iff)
    then obtain q where "q \<in> set (ct_Pools d)" "ap_ID q = rho (ap_ID p)"
      using assms(1) list_all2_in(2)[of "like_pool rho" "ct_Pools c" "ct_Pools d" p] by (auto simp: sees_by_def like_pool_def)
    with l(2) p(2) show ?thesis by (metis imageI)
  qed
  moreover have "case ap_ID p of Old _ \<Rightarrow> True | New n \<Rightarrow> ap_Name p = n" if "p \<in> set (ct_Pools d)" for p
    using that assms(3) by (auto simp: identified_def list_all_iff split: oid.splits)
  ultimately show ?thesis by (simp add: grounded_def list_all_iff)
qed

lemma store_identifies:
  assumes "store_holds i s c"
  shows "\<exists>rho ls ps. relisted rho c ls ps \<and> identified (abs_content ls ps) \<and> store_holds i s (abs_content ls ps)"
proof -
  from assms obtain n d where d: "map_of s i = Some (n, d)" "identified d" "grounded c" "sees c d"
    by (auto simp: store_holds_def split: option.splits)
  from d(4) obtain rho where rho: "sees_by rho c d" by (auto simp: sees_def)
  obtain ls ps where listed: "abs_content ls ps = d" by (rule identified_listed[OF d(2)])
  have "map (view_listener rho) (ct_Listeners c) = map (view_listener (\<lambda>i. i)) (ct_Listeners d)"
    using rho by (auto simp: sees_by_def like_listener_def view_listener_def intro: list_all2_map_eq)
  moreover have "map (view_pool rho) (ct_Pools c) = map (view_pool (\<lambda>i. i)) (ct_Pools d)"
  proof (rule list_all2_map_eq)
    show "list_all2 (like_pool rho) (ct_Pools c) (ct_Pools d)" using rho by (simp add: sees_by_def)
    fix p q assume pq: "like_pool rho p q"
    then have "map snd (ap_Members p) = map snd (ap_Members q)"
      by (intro list_all2_map_eq[of like_member]) (auto simp: like_pool_def like_member_def)
    with pq show "view_pool rho p = view_pool (\<lambda>i. i) q" by (simp add: view_pool_def like_pool_def)
  qed
  ultimately have "relisted rho c ls ps"
    using listed identified_unique[of ls ps] d(2) by (intro relisted_same_order) (auto simp: abs_content_def)
  moreover have "store_holds i s d" using d(1,2) seen_grounded[OF rho d(3,2)] by (simp add: store_holds_def sees_refl)
  ultimately show ?thesis using listed d(2) by blast
qed

text \<open>The frame rules on the service: what it has for one load balancer, while calls are made for others.\<close>

lemma create_placed: "stays (placed store_holds store_owner n i c) (\<lambda>_. True) (v1_CreateLoadBalancer (gen2_Client store_gen2) req)"
  unfolding stays_def placed_def store_sdk_simps using create_keeps by blast

interpretation store_requests: own_api_requests store_gen2 store_runtime "placed store_holds store_owner n i c" "\<lambda>j. j \<noteq> i"
  by (rule store_own) (rule put_placed)

interpretation store_calls: own_calls "VpcSdkGen2_sdk store_gen2" store_runtime "placed store_holds store_owner n i c" "\<lambda>j. j \<noteq> i" store_cloud lbName
  by (rule store_requests.gen2_own_calls) (simp_all add: store_cloud_def create_placed)

interpretation store_vpcs: documented_cloud store_gen2 store_runtime store_holds store_pool_id store_owner store_names
proof (rule documented_cloud.intro, goal_cases)
  case (1 i)
  show ?case by (rule store_vpc.documented_vpc_axioms)
next
  case (2 n i c)
  show ?case by (rule store_own) (rule put_placed)
next
  case (3 n p)
  show ?case by (rule store_own) (simp add: put_owner)
next
  case (4 i c req)
  show ?case unfolding stays_def store_sdk_simps using create_keeps(1) by blast
next
  case (5 n i req)
  show ?case unfolding stays_def store_sdk_simps using create_keeps(2) by blast
next
  case (6 req s r s' n i)
  then show ?case unfolding store_sdk_simps by (intro create_creates)
next
  case (7 req s lb s')
  then show ?case unfolding store_sdk_simps by (intro create_created)
next
  case (8 j i n c)
  then show ?case unfolding stays_def store_sdk_simps using delete_placed by (auto simp: conflict_def raiseM_def split: if_splits)
next
  case (9 i s q s' n c)
  then show ?case unfolding store_sdk_simps by (auto simp: conflict_def raiseM_def store_owner_def dest!: find_SomeD split: if_splits)
next
  case (10 i s q s' n j)
  then show ?case unfolding store_sdk_simps by (auto simp: conflict_def raiseM_def owner_name split: if_splits)
next
  case (11 s pages s' n)
  then show ?case by (rule store_list)
next
  case (12 n m s i)
  then have "\<exists>d e. (i, n, d) \<in> set s \<and> (i, m, e) \<in> set s \<and> distinct (map fst s)" by (auto simp: owner_name store_ok_def)
  then show ?case by (auto dest: eq_key_imp_eq_value)
next
  case 13
  show ?case by (simp add: store_names_def)
next
  case (14 i s c)
  then show ?case by (rule store_identifies)
qed

interpretation store_controller: controller store_gen2 store_runtime store_holds store_pool_id store_owner store_names store_cloud
  by unfold_locales (simp_all add: store_cloud_def)

subsection \<open>Properties\<close>

text \<open>C1: The last successful call for a service decides. Kubernetes calls the controller for any services in any order, and calls may fail at any
  request. Whatever calls came before (from a VPC whose load balancers of services were made by this program, or from one without any) and whatever
  calls for other services come after: once a call that ensures the load balancer of a service, or updates an existing one, has
  returned without an error, the load balancer of that service is there and has exactly one pool and one listener per port of the service,
  with the nodes as members, until the next call for that service. Every other load balancer of a service is in a state that the next call can bring in sync.
  The services have distinct TCP ports and the nodes distinct addresses (\<open>call_workable\<close>). In sync says nothing of the proxy protocol of pools which
  that call added to an existing load balancer: \<open>two_calls_settle\<close> does.\<close>

theorem last_call_decides:
  assumes "controller v rt holds pool_id owner names c" "managed holds owner names s"
    and "list_all (\<lambda>x. call_name x \<in> names \<and> call_workable x) (pre @ x # post)"
    and "x = Ensure n service nodes \<or> x = Update n service nodes \<and> owner (run_lb_calls rt c pre s) n \<noteq> None"
    and "fst (run_lb_call rt c x (run_lb_calls rt c pre s)) = Inr ()" "n \<notin> call_name ` set post"
  shows "settled holds owner n service (nodes_for service nodes) (run_lb_calls rt c (pre @ x # post) s) \<and>
    managed holds owner names (run_lb_calls rt c (pre @ x # post) s)"
  using controller.settled_after[OF assms(1-6)] controller.managed_calls[OF assms(1-3)] by blast

definition ex_smaller :: Service where
  "ex_smaller = ex_service\<lparr>svc_Ports := [ex_port 443 30304]\<rparr>"

definition ex_before :: "lb_call list" where
  "ex_before = [Ensure ''kube-a'' ex_service ex_cluster, Ensure ''kube-b'' ex_service ex_cluster]"

definition ex_after :: "lb_call list" where
  "ex_after = [Update ''kube-b'' ex_service (tl ex_cluster), Delete ''kube-b'' ex_service]"

lemma store_start: "managed store_holds store_owner store_names []"
  by (simp add: managed_def store_owner_def)

theorem last_call_decides_witness:
  "settled store_holds store_owner ''kube-a'' ex_smaller (nodes_for ex_smaller ex_cluster)
     (run_lb_calls store_runtime store_cloud (ex_before @ Ensure ''kube-a'' ex_smaller ex_cluster # ex_after) [])"
proof -
  have "list_all (\<lambda>x. call_name x \<in> store_names \<and> call_workable x) (ex_before @ Ensure ''kube-a'' ex_smaller ex_cluster # ex_after)"
    unfolding store_names_def mem_Collect_eq by code_simp
  moreover have "fst (run_lb_call store_runtime store_cloud (Ensure ''kube-a'' ex_smaller ex_cluster)
      (run_lb_calls store_runtime store_cloud ex_before [])) = Inr ()"
    by code_simp
  moreover have "''kube-a'' \<notin> call_name ` set ex_after" by (simp add: ex_after_def)
  ultimately show ?thesis using last_call_decides[OF store_controller.controller_axioms store_start] by blast
qed

text \<open>C2: A call stays on its own load balancer. Whatever a call for one service does and however it ends, the load balancer of another service
  remains the load balancer of that service with the same content, and no load balancer comes into being under the name of another service.\<close>

theorem calls_stay_apart:
  assumes "controller v rt holds pool_id owner names c" "call_name x \<in> names" "m \<in> names" "m \<noteq> call_name x"
    and "run_lb_call rt c x s = (r, s')"
  shows "(\<forall>i d. owner s m = Some i \<and> holds i s d \<longrightarrow> owner s' m = Some i \<and> holds i s' d) \<and> (owner s m = None \<longrightarrow> owner s' m = None)"
proof -
  have "placed holds owner m i d s'" if "placed holds owner m i d s" for i d
    by (rule staysD(1)[OF controller.call_apart[OF assms(1-4)] that assms(5)])
  moreover have "owner s' m = None" if "owner s m = None"
    by (rule staysD(1)[OF controller.call_unnamed[OF assms(1-4)] that assms(5)])
  ultimately show ?thesis unfolding placed_def by blast
qed

theorem calls_stay_apart_witness:
  "\<exists>i d. store_owner (run_lb_calls store_runtime store_cloud ex_before []) ''kube-b'' = Some i \<and>
     store_holds i (run_lb_calls store_runtime store_cloud ex_before []) d \<and>
     (case run_lb_call store_runtime store_cloud (Ensure ''kube-a'' ex_smaller ex_cluster) (run_lb_calls store_runtime store_cloud ex_before []) of
        (r, s') \<Rightarrow> store_owner s' ''kube-b'' = Some i \<and> store_holds i s' d)"
proof -
  let ?s = "run_lb_calls store_runtime store_cloud ex_before []"
  have names: "call_name (Ensure ''kube-a'' ex_smaller ex_cluster) \<in> store_names" "''kube-b'' \<in> store_names"
    unfolding store_names_def mem_Collect_eq by code_simp+
  have ok: "list_all (\<lambda>x. call_name x \<in> store_names \<and> call_workable x)
      ([Ensure ''kube-a'' ex_service ex_cluster] @ Ensure ''kube-b'' ex_service ex_cluster # [])"
    unfolding store_names_def mem_Collect_eq by code_simp
  have succeeded: "fst (run_lb_call store_runtime store_cloud (Ensure ''kube-b'' ex_service ex_cluster)
      (run_lb_calls store_runtime store_cloud [Ensure ''kube-a'' ex_service ex_cluster] [])) = Inr ()"
    by code_simp
  have "settled store_holds store_owner ''kube-b'' ex_service (nodes_for ex_service ex_cluster) ?s"
    using store_controller.settled_after[OF store_start ok disjI1[OF refl] succeeded] by (simp only: ex_before_def append.simps) simp
  then obtain i d where i: "store_owner ?s ''kube-b'' = Some i" "store_holds i ?s d" unfolding settled_def by blast
  obtain r s' where run: "run_lb_call store_runtime store_cloud (Ensure ''kube-a'' ex_smaller ex_cluster) ?s = (r, s')" by (rule prod.exhaust)
  from calls_stay_apart[OF store_controller.controller_axioms names _ run] i
  have "store_owner s' ''kube-b'' = Some i \<and> store_holds i s' d" by auto
  with i run show ?thesis by auto
qed

text \<open>C5: Load balancers stay consistent. Kubernetes calls the controller for any services in any order, and every call may fail at any request, so that
  an update stops between two operations. Whenever the Gen2 SDK then lists a load balancer of a service, the listing is consistent: every listener
  and pool has an ID of its own; there is at most one pool and one listener per port; every listener is a TCP listener and its default pool is the
  pool of its port; pool names are spelled as the controller spells them (\<open>tcp-\<close>, the port, the node port); no pool has two members of
  the same node and port. And from it \<open>planUpdates\<close> finds a plan for every service and nodes: a call that failed can be tried again.\<close>

theorem listings_stay_consistent:
  assumes "controller v rt holds pool_id owner names c" "managed holds owner names s"
    and "list_all (\<lambda>x. call_name x \<in> names \<and> call_workable x) calls" "n \<in> names" "owner (run_lb_calls rt c calls s) n = Some i"
    and "gen2_ListLoadBalancerListeners v i (run_lb_calls rt c calls s) = (Inr listeners, s1)"
    and "gen2_ListLoadBalancerPools v i s1 = (Inr pools, s2)"
  shows "consistent listeners pools \<and>
    (\<forall>service nodes. workable service nodes \<longrightarrow> \<not> isl (planUpdates listeners pools service (nodes_for service nodes)))"
  using controller.lists_consistent[OF assms(1) controller.managed_calls[OF assms(1-3)] assms(4-7)] planUpdates_refines_plan by fastforce

text \<open>
  A service with the proxy protocol replaces one without that has fewer ports: its first call leaves the new pool without proxy protocol,
  its second sets it.
\<close>

definition ex_id :: "nat \<Rightarrow> oid" where
  "ex_id k = Old (replicate k CHR ''x'')"

definition ex_new_pool :: "nat \<Rightarrow> string \<Rightarrow> int64 \<Rightarrow> string \<Rightarrow> apool" where
  "ex_new_pool k name port proxy = \<lparr>ap_ID = ex_id k, ap_Name = name,
     ap_Members = [(ex_id k, ''10.0.0.1'', port), (ex_id (Suc k), ''10.0.0.2'', port)], ap_Monitor = (''tcp'', port), ap_Proxy = proxy\<rparr>"

definition ex_small_store :: store where
  "ex_small_store = [(''id-'', ''kube-a'',
     \<lparr>ct_Listeners = [\<lparr>al_ID = ex_id 18, al_Protocol = ''tcp'', al_Port = 443, al_Pool = ex_id 18\<rparr>],
      ct_Pools = [ex_new_pool 18 ''tcp-443-30304'' 30304 ''disabled'']\<rparr>)]"

definition ex_held :: "string \<Rightarrow> store" where
  "ex_held proxy = [(''id-'', ''kube-a'',
     \<lparr>ct_Listeners = [\<lparr>al_ID = ex_id 18, al_Protocol = ''tcp'', al_Port = 443, al_Pool = ex_id 18\<rparr>,
        \<lparr>al_ID = ex_id 23, al_Protocol = ''tcp'', al_Port = 80, al_Pool = ex_id 21\<rparr>],
      ct_Pools = [ex_new_pool 18 ''tcp-443-30304'' 30304 ''v1'',
        (ex_new_pool 20 ''tcp-80-30303'' 30303 proxy)\<lparr>ap_ID := ex_id 21\<rparr>]\<rparr>)]"

definition ex_calls :: "lb_call list" where
  "ex_calls = [Ensure ''kube-a'' ex_smaller ex_cluster] @ Ensure ''kube-a'' ex_proxy_service ex_cluster # [Delete ''kube-b'' ex_service] @
     Ensure ''kube-a'' ex_proxy_service ex_cluster # []"

lemma ex_run1: "run_lb_call store_runtime store_cloud (Ensure ''kube-a'' ex_smaller ex_cluster) [] = (Inr (), ex_small_store)"
  by code_simp

lemma ex_run2: "run_lb_call store_runtime store_cloud (Ensure ''kube-a'' ex_proxy_service ex_cluster) ex_small_store = (Inr (), ex_held ''disabled'')"
  by code_simp

lemma ex_run3: "snd (run_lb_call store_runtime store_cloud (Delete ''kube-b'' ex_service) (ex_held ''disabled'')) = ex_held ''disabled''"
  by code_simp

lemma ex_run4: "run_lb_call store_runtime store_cloud (Ensure ''kube-a'' ex_proxy_service ex_cluster) (ex_held ''disabled'') = (Inr (), ex_held ''v1'')"
  by code_simp

lemmas ex_runs = ex_run1 ex_run2 ex_run3 ex_run4

lemma ex_calls_named: "list_all (\<lambda>x. call_name x \<in> store_names \<and> call_workable x) ex_calls"
  unfolding store_names_def mem_Collect_eq by code_simp

lemma ex_calls_held: "run_lb_calls store_runtime store_cloud ex_calls [] = ex_held ''v1''"
  by (simp add: ex_calls_def ex_runs del: run_lb_call.simps)

lemma ex_held_owner: "store_owner (ex_held ''v1'') ''kube-a'' = Some ''id-''"
  by code_simp

lemma ex_held_pools:
  "map_sum id (map pool_Name) (fst (gen2_ListLoadBalancerPools store_gen2 ''id-'' (ex_held ''v1''))) = Inr [''tcp-443-30304'', ''tcp-80-30303'']"
  by code_simp

lemma ex_held_listeners: "snd (gen2_ListLoadBalancerListeners store_gen2 ''id-'' (ex_held ''v1'')) = ex_held ''v1''"
  "\<not> isl (fst (gen2_ListLoadBalancerListeners store_gen2 ''id-'' (ex_held ''v1'')))"
  by code_simp+

lemma ex_held_listed:
  obtains listeners pools s2 where "gen2_ListLoadBalancerListeners store_gen2 ''id-'' (ex_held ''v1'') = (Inr listeners, ex_held ''v1'')"
    "gen2_ListLoadBalancerPools store_gen2 ''id-'' (ex_held ''v1'') = (Inr pools, s2)" "map pool_Name pools = [''tcp-443-30304'', ''tcp-80-30303'']"
proof -
  obtain r where r: "gen2_ListLoadBalancerListeners store_gen2 ''id-'' (ex_held ''v1'') = (r, ex_held ''v1'')" "\<not> isl r"
    using ex_held_listeners by (metis prod.collapse)
  obtain q s2 where q: "gen2_ListLoadBalancerPools store_gen2 ''id-'' (ex_held ''v1'') = (q, s2)" by (rule prod.exhaust)
  with ex_held_pools obtain pools where pools: "q = Inr pools" "map pool_Name pools = [''tcp-443-30304'', ''tcp-80-30303'']" by (cases q) auto
  show ?thesis
  proof (cases r)
    case (Inr listeners)
    show ?thesis by (rule that) (use r(1) q pools Inr in simp_all)
  qed (use r(2) in simp)
qed

theorem listings_stay_consistent_witness:
  "\<exists>listeners pools. fst (gen2_ListLoadBalancerListeners store_gen2 ''id-'' (ex_held ''v1'')) = Inr listeners \<and>
     fst (gen2_ListLoadBalancerPools store_gen2 ''id-'' (ex_held ''v1'')) = Inr pools \<and>
     map pool_Name pools = [''tcp-443-30304'', ''tcp-80-30303''] \<and> consistent listeners pools"
proof -
  have "''kube-a'' \<in> store_names" unfolding store_names_def mem_Collect_eq by code_simp
  note consistent = listings_stay_consistent[OF store_controller.controller_axioms store_start ex_calls_named this, unfolded ex_calls_held, OF ex_held_owner]
  obtain listeners pools s2 where l: "gen2_ListLoadBalancerListeners store_gen2 ''id-'' (ex_held ''v1'') = (Inr listeners, ex_held ''v1'')"
    "gen2_ListLoadBalancerPools store_gen2 ''id-'' (ex_held ''v1'') = (Inr pools, s2)" "map pool_Name pools = [''tcp-443-30304'', ''tcp-80-30303'']"
    by (rule ex_held_listed)
  show ?thesis by (intro exI[of _ listeners] exI[of _ pools] conjI consistent[OF l(1,2), THEN conjunct1] l(3)) (simp_all only: l fst_conv)
qed

text \<open>What the planner makes of a load balancer whenever the SDK lists it.\<close>

definition plans :: "'s VpcSdkGen2 \<Rightarrow> string \<Rightarrow> Service \<Rightarrow> Node list \<Rightarrow> 's \<Rightarrow> (string list \<Rightarrow> bool) \<Rightarrow> bool" where
  "plans v i service nodes s P \<longleftrightarrow> (\<forall>listeners pools s1 s2.
     gen2_ListLoadBalancerListeners v i s = (Inr listeners, s1) \<longrightarrow> gen2_ListLoadBalancerPools v i s1 = (Inr pools, s2) \<longrightarrow>
     (\<exists>updates marked_pools. planUpdates listeners pools service (nodes_for service nodes) = Inr (updates, marked_pools) \<and> P updates))"

lemma reached_plans:
  assumes "controller v rt holds pool_id owner names c" "reached final holds owner n service (nodes_for service nodes) s" "workable service nodes"
  shows "\<exists>i. owner s n = Some i \<and> plans v i service nodes s (\<lambda>updates.
    (\<forall>u \<in> set updates. \<exists>name ID. u = actionUpdatePool @ '' '' @ name @ '' '' @ ID) \<and>
    (final \<or> \<not> isProxyProtocol (getServiceOptions (Some service)) \<longrightarrow> updates = []))"
proof -
  obtain i where i: "owner s n = Some i" using assms(2) by (auto simp: reached_def)
  show ?thesis unfolding plans_def
  proof (intro exI[of _ i] conjI i allI impI)
    fix listeners pools s1 s2
    assume l: "gen2_ListLoadBalancerListeners v i s = (Inr listeners, s1)" "gen2_ListLoadBalancerPools v i s1 = (Inr pools, s2)"
    from controller.reached_updates_planned[OF assms i l]
    show "\<exists>updates marked_pools. planUpdates listeners pools service (nodes_for service nodes) = Inr (updates, marked_pools) \<and>
      (\<forall>u \<in> set updates. \<exists>name ID. u = actionUpdatePool @ '' '' @ name @ '' '' @ ID) \<and>
      (final \<or> \<not> isProxyProtocol (getServiceOptions (Some service)) \<longrightarrow> updates = [])" by fastforce
  qed
qed

text \<open>C6: Calls settle. Among calls for any services, failing or not, let two calls for one service and the same nodes succeed, with no other call for that
  service in between or after: the first ensures its load balancer or updates one that is there, the second ensures or updates it. When the SDK
  lists the load balancer after the second call, whatever calls for other services came in between and after, \<open>planUpdates\<close> finds nothing to
  do. After the first call already, it finds at most updates of pools (to give them the proxy protocol, which the creation of a pool
  does not send), and nothing when the service does not ask for the proxy protocol.\<close>

theorem two_calls_settle:
  assumes "controller v rt holds pool_id owner names c" "managed holds owner names s"
    and "list_all (\<lambda>x. call_name x \<in> names \<and> call_workable x) (pre @ x # mid @ y # post)"
    and "x = Ensure n service nodes \<or> x = Update n service nodes \<and> owner (run_lb_calls rt c pre s) n \<noteq> None"
    and "fst (run_lb_call rt c x (run_lb_calls rt c pre s)) = Inr ()"
    and "y = Ensure n service nodes \<or> y = Update n service nodes" "fst (run_lb_call rt c y (run_lb_calls rt c (pre @ x # mid) s)) = Inr ()"
    and "n \<notin> call_name ` set (mid @ post)"
  shows "(\<exists>i. owner (run_lb_calls rt c (pre @ x # mid @ y # post) s) n = Some i \<and>
      plans v i service nodes (run_lb_calls rt c (pre @ x # mid @ y # post) s) (\<lambda>updates. updates = [])) \<and>
    (\<exists>i. owner (run_lb_calls rt c (pre @ x # mid) s) n = Some i \<and>
      plans v i service nodes (run_lb_calls rt c (pre @ x # mid) s) (\<lambda>updates.
        (\<forall>u \<in> set updates. \<exists>name ID. u = actionUpdatePool @ '' '' @ name @ '' '' @ ID) \<and>
        (\<not> isProxyProtocol (getServiceOptions (Some service)) \<longrightarrow> updates = [])))"
proof -
  have w: "workable service nodes" using assms(3,4) by auto
  have first: "reached False holds owner n service (nodes_for service nodes) (run_lb_calls rt c (pre @ x # mid) s)"
    by (rule controller.reached_after[OF assms(1,2) _ assms(4,5)]) (use assms(3,8) in auto)
  have "reached True holds owner n service (nodes_for service nodes) (run_lb_calls rt c (y # post) (run_lb_calls rt c (pre @ x # mid) s))"
    by (rule controller.reached_after_two[OF assms(1) first _ assms(6,7)]) (use assms(3,8) in auto)
  then have "reached True holds owner n service (nodes_for service nodes) (run_lb_calls rt c (pre @ x # mid @ y # post) s)"
    using run_lb_calls_append[of rt c "pre @ x # mid" "y # post" s] by simp
  from reached_plans[OF assms(1) this w] reached_plans[OF assms(1) first w] show ?thesis by (simp add: plans_def) 
qed

theorem two_calls_settle_witness:
  "run_lb_calls store_runtime store_cloud ex_calls [] = ex_held ''v1'' \<and>
   plans store_gen2 ''id-'' ex_proxy_service ex_cluster (ex_held ''v1'') (\<lambda>updates. updates = [])"
proof -
  have "fst (run_lb_call store_runtime store_cloud (Ensure ''kube-a'' ex_proxy_service ex_cluster)
      (run_lb_calls store_runtime store_cloud [Ensure ''kube-a'' ex_smaller ex_cluster] [])) = Inr ()"
    "fst (run_lb_call store_runtime store_cloud (Ensure ''kube-a'' ex_proxy_service ex_cluster) (run_lb_calls store_runtime store_cloud
      ([Ensure ''kube-a'' ex_smaller ex_cluster] @ Ensure ''kube-a'' ex_proxy_service ex_cluster # [Delete ''kube-b'' ex_service]) [])) = Inr ()"
    "''kube-a'' \<notin> call_name ` set ([Delete ''kube-b'' ex_service] @ [])"
    by (simp_all add: ex_runs del: run_lb_call.simps)
  note settle = two_calls_settle[OF store_controller.controller_axioms store_start ex_calls_named[unfolded ex_calls_def] disjI1[OF refl] this(1)
      disjI1[OF refl] this(2,3), THEN conjunct1, folded ex_calls_def, unfolded ex_calls_held ex_held_owner]
  with ex_calls_held show ?thesis by simp
qed

end
