(* ===== verification/Ibm_Config.thy ===== *)
theory Ibm_Config
  imports Vpc_Lbaas
begin

section \<open>Configuration of the cloud provider (\<open>ibm/ibm.go\<close>)\<close>

text \<open>
  The sections of the cloud config file, reading it, choosing the Kubernetes config file, and the two tests for the VPC
  infrastructure. The reader of the file format (\<open>gopkg.in/gcfg.v1\<close>) and the loader of Kubernetes config
  files (\<open>k8s.io/client-go\<close>) are arguments.
\<close>

definition ProviderName :: string where "ProviderName = ''ibm''"
definition lbVpcNextGenProvider :: string where "lbVpcNextGenProvider = ''g2''"

record LoadBalancerDeployment =
  lbd_Image :: string
  lbd_Application :: string
  lbd_VlanIPConfigMap :: string

record Provider =
  prov_ProviderID :: string
  prov_InternalIP :: string
  prov_ExternalIP :: string
  prov_Region :: string
  prov_Zone :: string
  prov_InstanceType :: string
  prov_ClusterID :: string
  prov_AccountID :: string
  prov_ProviderType :: string
  prov_G2WorkerServiceAccountID :: string
  prov_G2VpcName :: string
  prov_G2Credentials :: string
  prov_G2ResourceGroupName :: string
  prov_G2VpcSubnetNames :: string
  prov_G2EndpointOverride :: string
  prov_IamEndpointOverride :: string
  prov_RmEndpointOverride :: string
  prov_IKSPrivateEndpointHostname :: string
  prov_CloudCredentials :: string

record CloudConfig =
  cc_Version :: string
  cc_ConfigFilePaths :: "string list"
  cc_CalicoDatastore :: string
  cc_SetNetworkUnavailable :: bool
  cc_CniProvider :: string
  cc_LBDeployment :: LoadBalancerDeployment
  cc_Prov :: Provider

text \<open>The zero value of a provider section.\<close>

definition no_provider :: Provider where
  "no_provider = \<lparr>prov_ProviderID = [], prov_InternalIP = [], prov_ExternalIP = [], prov_Region = [], prov_Zone = [], prov_InstanceType = [],
     prov_ClusterID = [], prov_AccountID = [], prov_ProviderType = [], prov_G2WorkerServiceAccountID = [], prov_G2VpcName = [],
     prov_G2Credentials = [], prov_G2ResourceGroupName = [], prov_G2VpcSubnetNames = [], prov_G2EndpointOverride = [],
     prov_IamEndpointOverride = [], prov_RmEndpointOverride = [], prov_IKSPrivateEndpointHostname = [], prov_CloudCredentials = []\<rparr>"

definition isProviderVpc :: "string \<Rightarrow> bool" where
  "isProviderVpc provider \<longleftrightarrow> provider = lbVpcNextGenProvider"

text \<open>The first file that can be loaded; \<open>build\<close> loads a file, the empty path is the in-cluster configuration.\<close>

fun getK8SConfig :: "(string \<Rightarrow> ('s, 'k) io) \<Rightarrow> string list \<Rightarrow> ('s, 'k) io" where
  "getK8SConfig build [] = raiseM (Err ''Failed to build Kubernetes cloud configuration'')"
| "getK8SConfig build (path # paths) = tryM (build path) (\<lambda>err. getK8SConfig build paths) returnM"

definition getCloudConfig :: "(string \<Rightarrow> CloudConfig res) \<Rightarrow> string option \<Rightarrow> CloudConfig res" where
  "getCloudConfig readInto config =
     (case config of
        None \<Rightarrow> Inl (Err ''Cloud config required but none specified'')
      | Some text \<Rightarrow>
          (case readInto text of
             Inl (Err err) \<Rightarrow> Inl (Err (''Failed to read cloud config: '' @ err))
           | Inl (Panic p) \<Rightarrow> Inl (Panic p)
           | Inr cloudConfig \<Rightarrow>
               if ''1.0.0'' \<noteq> cc_Version cloudConfig \<and> ''1.1.0'' \<noteq> cc_Version cloudConfig
               then Inl (Err (''Cloud config version not valid: '' @ cc_Version cloudConfig))
               else Inr cloudConfig))"

lemma getK8SConfig_first:
  assumes "\<forall>p \<in> set before. \<exists>e. build p = raiseM (Err e)" and "build path s = (Inr k, s')"
  shows "getK8SConfig build (before @ path # after) s = (Inr k, s')"
  using assms by (induction before) (auto simp: tryM_def)

end
