(* ===== verification/Ibm_Metadata.thy ===== *)
theory Ibm_Metadata
  imports Ibm_Config
begin

section \<open>Node metadata (\<open>ibm_metadata_service.go\<close>, \<open>ibm_vpc_client.go\<close>, \<open>ibm_instances.go\<close>, \<open>ibm_zones.go\<close>, \<open>ibm_node_watch.go\<close>)\<close>

text \<open>
  The metadata service: labels of nodes, or instances of the VPC when the labels are missing, behind a cache that is dropped as a whole
  when it is five minutes old. The Kubernetes client, the VPC client and reading files are arguments (\<open>NodeApi\<close>); the mutex of the
  cache makes each of its three operations one step.
\<close>

subsection \<open>Objects\<close>

record NodeMetadata =
  md_InternalIP :: string
  md_ExternalIP :: string
  md_WorkerID :: string
  md_InstanceType :: string
  md_FailureDomain :: string
  md_Region :: string
  md_ProviderID :: string

definition no_metadata :: NodeMetadata where
  "no_metadata = \<lparr>md_InternalIP = [], md_ExternalIP = [], md_WorkerID = [], md_InstanceType = [], md_FailureDomain = [], md_Region = [],
     md_ProviderID = []\<rparr>"

text \<open>An instance of the VPC, as far as it is read; a field is \<open>None\<close> when a pointer on the way to it is nil.\<close>

record ApiInstance =
  inst_PrimaryAddress :: "string option"
  inst_ID :: "string option"
  inst_ProfileName :: "string option"
  inst_ZoneName :: "string option"

text \<open>The VPC client of the metadata service: its URL and the two calls made through it.\<close>

record 's InstanceSdk =
  isdk_ServiceURL :: string
  isdk_GetRegion :: "string \<Rightarrow> ('s, string option option) io"
  isdk_ListInstances :: "string \<Rightarrow> string \<Rightarrow> string \<Rightarrow> ('s, ApiInstance list option) io"

record 's vpcClient =
  vc_provider :: Provider
  vc_sdk :: "'s InstanceSdk"

record 's MetadataService =
  ms_provider :: Provider
  ms_vpcClient :: "'s vpcClient option"
  ms_nodeMap :: "string \<rightharpoonup> NodeMetadata"
  ms_nodeCacheStart :: int

text \<open>What is called outside the package, on the state \<open>'s\<close> of the world.\<close>

record 's NodeApi =
  api_Now :: "'s \<Rightarrow> int"
  api_ReadFile :: "string \<Rightarrow> ('s, string) io"
  api_GetNode :: "string \<Rightarrow> ('s, Node) io"
  api_SetNetworkUnavailable :: "string \<Rightarrow> ('s, unit) io"
  api_RetryOnConflict :: "('s, unit) io \<Rightarrow> ('s, unit) io"
  api_NewVpcV1 :: "string \<Rightarrow> string \<Rightarrow> ('s, 's InstanceSdk) io"
  api_SetServiceURL :: "string \<Rightarrow> string res"

definition internalIPLabel :: string where "internalIPLabel = ''ibm-cloud.kubernetes.io/internal-ip''"
definition externalIPLabel :: string where "externalIPLabel = ''ibm-cloud.kubernetes.io/external-ip''"
definition failureDomainLabel :: string where "failureDomainLabel = ''ibm-cloud.kubernetes.io/zone''"
definition regionLabel :: string where "regionLabel = ''ibm-cloud.kubernetes.io/region''"
definition workerIDLabel :: string where "workerIDLabel = ''ibm-cloud.kubernetes.io/worker-id''"
definition machineTypeLabel :: string where "machineTypeLabel = ''ibm-cloud.kubernetes.io/machine-type''"
definition errLabelsMissing :: go_err where "errLabelsMissing = Err ''node is missing labels''"

text \<open>300 seconds, in nanoseconds.\<close>

definition cacheTTL :: int where "cacheTTL = 300 * 1000000000"

abbreviation "TaintExternalCloudProvider \<equiv> ''node.cloudprovider.kubernetes.io/uninitialized''"
abbreviation "NodeNetworkUnavailable \<equiv> ''NetworkUnavailable''"

subsection \<open>The cache\<close>

definition NewMetadataService :: "Provider option \<Rightarrow> int \<Rightarrow> 's MetadataService" where
  "NewMetadataService provider now = \<lparr>ms_provider = (case provider of None \<Rightarrow> no_provider | Some p \<Rightarrow> p), ms_vpcClient = None,
     ms_nodeMap = Map.empty, ms_nodeCacheStart = now\<rparr>"

definition deleteCachedNode :: "string \<Rightarrow> 's MetadataService \<Rightarrow> 's MetadataService" where
  "deleteCachedNode name ms = ms\<lparr>ms_nodeMap := (ms_nodeMap ms)(name := None)\<rparr>"

text \<open>\<open>t\<close> is the reading of the clock in \<open>time.Since\<close>, \<open>t'\<close> the later one of \<open>time.Now\<close>.\<close>

definition getCachedNode :: "int \<Rightarrow> int \<Rightarrow> string \<Rightarrow> 's MetadataService \<Rightarrow> NodeMetadata option \<times> 's MetadataService" where
  "getCachedNode t t' name ms =
     (if t - ms_nodeCacheStart ms < cacheTTL then (ms_nodeMap ms name, ms)
      else (None, ms\<lparr>ms_nodeMap := Map.empty, ms_nodeCacheStart := t'\<rparr>))"

definition putCachedNode :: "string \<Rightarrow> NodeMetadata \<Rightarrow> 's MetadataService \<Rightarrow> 's MetadataService" where
  "putCachedNode name node ms = ms\<lparr>ms_nodeMap := (ms_nodeMap ms)(name \<mapsto> node)\<rparr>"

subsection \<open>The VPC client\<close>

definition readCredential :: "'s NodeApi \<Rightarrow> Provider \<Rightarrow> ('s, string) io" where
  "readCredential api provider =
     (if prov_G2Credentials provider = [] then raiseM (Err ''VPC credentials file not provided'')
      else bindM (api_ReadFile api (prov_G2Credentials provider)) (\<lambda>data. returnM (TrimSpace data)))"

definition setServiceURL :: "'s NodeApi \<Rightarrow> string \<Rightarrow> 's InstanceSdk \<Rightarrow> ('s, 's InstanceSdk) io" where
  "setServiceURL api url sdk = bindM (liftM (api_SetServiceURL api url)) (\<lambda>u. returnM (sdk\<lparr>isdk_ServiceURL := u\<rparr>))"

text \<open>An empty URL leaves the authenticator with its default.\<close>

definition newVpcSdkClient :: "'s NodeApi \<Rightarrow> Provider \<Rightarrow> ('s, 's InstanceSdk) io" where
  "newVpcSdkClient api provider =
     (if prov_AccountID provider \<noteq> prov_G2WorkerServiceAccountID provider
      then raiseM (Err ''Cluster nodes allocated under different account'')
      else
        bindM (readCredential api provider) (\<lambda>credential.
        bindM (api_NewVpcV1 api credential (prov_IamEndpointOverride provider)) (\<lambda>sdk.
        if prov_G2EndpointOverride provider \<noteq> []
        then setServiceURL api (prov_G2EndpointOverride provider @ ''/v1'') sdk
        else
          bindM (isdk_GetRegion sdk (prov_Region provider)) (\<lambda>region.
          case region of
            None \<Rightarrow> raiseM nil_dereference
          | Some None \<Rightarrow> raiseM nil_dereference
          | Some (Some endpoint) \<Rightarrow> setServiceURL api (endpoint @ ''/v1'') sdk))))"

definition newVpcClient :: "'s NodeApi \<Rightarrow> Provider \<Rightarrow> ('s, 's vpcClient) io" where
  "newVpcClient api provider =
     bindM (newVpcSdkClient api provider) (\<lambda>sdk. returnM \<lparr>vc_provider = provider, vc_sdk = sdk\<rparr>)"

definition instanceMetadata :: "Provider \<Rightarrow> ApiInstance \<Rightarrow> NodeMetadata \<Rightarrow> NodeMetadata res" where
  "instanceMetadata provider inst node =
     (case (inst_PrimaryAddress inst, inst_ID inst, inst_ProfileName inst, inst_ZoneName inst) of
        (Some address, Some i, Some profile, Some zone) \<Rightarrow>
          Inr (node\<lparr>md_InternalIP := address, md_WorkerID := i, md_InstanceType := profile, md_FailureDomain := zone,
            md_Region := prov_Region provider\<rparr>)
      | _ \<Rightarrow> Inl nil_dereference)"

definition populateNodeMetadata :: "'s vpcClient \<Rightarrow> string \<Rightarrow> NodeMetadata \<Rightarrow> ('s, NodeMetadata) io" where
  "populateNodeMetadata vpc nodeName node =
     (let where_it_looked = ''name='' @ nodeName @ '' url='' @ isdk_ServiceURL (vc_sdk vpc) in
      bindM (isdk_ListInstances (vc_sdk vpc) (isdk_ServiceURL (vc_sdk vpc)) nodeName (prov_G2VpcName (vc_provider vpc))) (\<lambda>instances.
      case instances of
        None \<Rightarrow> raiseM (Err (''Could not retrieve a list of instances: '' @ where_it_looked))
      | Some items \<Rightarrow>
          if length items = 1 then liftM (instanceMetadata (vc_provider vpc) (items ! 0) node)
          else if length items = 0 then raiseM (Err (''Instance not found: '' @ where_it_looked))
          else raiseM (Err (''More than one instance entry returned: '' @ where_it_looked))))"

subsection \<open>Metadata of a node\<close>

text \<open>The operations of the service act on the service and the world.\<close>

type_synonym ('s, 'a) mio = "('s MetadataService \<times> 's, 'a) io"

definition outside :: "('s, 'a) io \<Rightarrow> ('s, 'a) mio" where
  "outside m p = (case p of (ms, s) \<Rightarrow> (case m s of (r, s') \<Rightarrow> (r, (ms, s'))))"

definition on_cache :: "('s MetadataService \<Rightarrow> 's MetadataService) \<Rightarrow> ('s, unit) mio" where
  "on_cache f p = (case p of (ms, s) \<Rightarrow> (Inr (), (f ms, s)))"

definition lookup_cache :: "'s NodeApi \<Rightarrow> string \<Rightarrow> ('s, NodeMetadata option) mio" where
  "lookup_cache api name p = (case p of (ms, s) \<Rightarrow>
     (case getCachedNode (api_Now api s) (api_Now api s) name ms of (r, ms') \<Rightarrow> (Inr r, (ms', s))))"

text \<open>The labels of a node: the metadata, and whether all required labels are there.\<close>

definition labelMetadata :: "Node \<Rightarrow> NodeMetadata \<times> bool" where
  "labelMetadata node =
     (let labels = node_Labels node in
      (\<lparr>md_InternalIP = map_get labels internalIPLabel, md_ExternalIP = map_get labels externalIPLabel,
        md_WorkerID = map_get labels workerIDLabel, md_InstanceType = map_get labels machineTypeLabel,
        md_FailureDomain = map_get labels failureDomainLabel, md_Region = map_get labels regionLabel,
        md_ProviderID = node_ProviderID node\<rparr>,
       list_all (\<lambda>l. labels l \<noteq> None) [internalIPLabel, workerIDLabel, machineTypeLabel, failureDomainLabel, regionLabel]))"

text \<open>The condition is added to a node that is being initialised and does not have it.\<close>

definition applyCondition :: "'s NodeApi \<Rightarrow> string \<Rightarrow> Node \<Rightarrow> bool \<Rightarrow> string \<Rightarrow> ('s, unit) io" where
  "applyCondition api name k8sNode applyNetworkUnavailable cni =
     (if applyNetworkUnavailable \<and> cni \<noteq> ''OVNKubernetes'' \<and>
         TaintExternalCloudProvider \<in> set (node_TaintKeys k8sNode) \<and> NodeNetworkUnavailable \<notin> set (node_ConditionTypes k8sNode)
      then api_RetryOnConflict api (api_SetNetworkUnavailable api name)
      else returnM ())"

definition ensureVpcClient :: "'s NodeApi \<Rightarrow> ('s, 's vpcClient) mio" where
  "ensureVpcClient api p = (case p of (ms, s) \<Rightarrow>
     (case ms_vpcClient ms of
        Some vpc \<Rightarrow> (Inr vpc, (ms, s))
      | None \<Rightarrow>
          (case newVpcClient api (ms_provider ms) s of
             (Inl e, s') \<Rightarrow> (Inl e, (ms, s'))
           | (Inr vpc, s') \<Rightarrow> (Inr vpc, (ms\<lparr>ms_vpcClient := Some vpc\<rparr>, s')))))"

definition GetNodeMetadata :: "'s NodeApi \<Rightarrow> string \<Rightarrow> bool \<Rightarrow> string \<Rightarrow> ('s, NodeMetadata) mio" where
  "GetNodeMetadata api name applyNetworkUnavailable cni =
     bindM (lookup_cache api name) (\<lambda>cached.
     case cached of
       Some node \<Rightarrow> returnM node
     | None \<Rightarrow>
         bindM (outside (api_GetNode api name)) (\<lambda>k8sNode.
         bindM (outside (applyCondition api name k8sNode applyNetworkUnavailable cni)) (\<lambda>_.
         let (newNode, ok) = labelMetadata k8sNode in
         bindM (if md_ProviderID newNode \<noteq> [] \<and> md_ProviderID newNode \<noteq> md_ProviderID no_metadata
                then on_cache (deleteCachedNode name) else returnM ()) (\<lambda>_.
         if ok then bindM (on_cache (putCachedNode name newNode)) (\<lambda>_. returnM newNode)
         else (\<lambda>p.
           if isProviderVpc (prov_ProviderType (ms_provider (fst p)))
           then
             bindM (ensureVpcClient api) (\<lambda>vpc.
             bindM (outside (populateNodeMetadata vpc name newNode)) (\<lambda>newNode.
             bindM (on_cache (putCachedNode name newNode)) (\<lambda>_. returnM newNode))) p
           else (Inl errLabelsMissing, p))))))"

subsection \<open>Instances and zones\<close>

text \<open>
  The interfaces that Kubernetes calls. The metadata service of the cloud object is nil when the cluster has no account; calling it then
  is a nil dereference, except in \<open>GetZoneByNodeName\<close>, which tests for it.
\<close>

type_synonym ('s, 'a) cio = "('s MetadataService option \<times> 's, 'a) io"

definition withMetadata :: "('s, 'a) mio \<Rightarrow> ('s, 'a) cio" where
  "withMetadata m p = (case p of
     (None, s) \<Rightarrow> (Inl nil_dereference, p)
   | (Some ms, s) \<Rightarrow> (case m (ms, s) of (r, (ms', s')) \<Rightarrow> (r, (Some ms', s'))))"

record InstanceMetadata_object =
  im_ProviderID :: string
  im_InstanceType :: string
  im_NodeAddresses :: "NodeAddress list"
  im_Zone :: string
  im_Region :: string

record Zone =
  zone_FailureDomain :: string
  zone_Region :: string

definition no_zone :: Zone where "no_zone = \<lparr>zone_FailureDomain = [], zone_Region = []\<rparr>"

abbreviation "NotImplemented \<equiv> Err ''unimplemented''"

definition providerIDV2 :: "CloudConfig \<Rightarrow> NodeMetadata \<Rightarrow> string" where
  "providerIDV2 config nodeMD =
     (if md_ProviderID nodeMD \<noteq> [] then md_ProviderID nodeMD
      else ''ibm://'' @ prov_AccountID (cc_Prov config) @ ''///'' @ prov_ClusterID (cc_Prov config) @ ''/'' @ md_WorkerID nodeMD)"

definition instanceTypeV2 :: "NodeMetadata \<Rightarrow> string" where
  "instanceTypeV2 nodeMD = md_InstanceType nodeMD"

definition nodeAddressesV2 :: "NodeMetadata \<Rightarrow> NodeAddress list" where
  "nodeAddressesV2 nodeMD =
     (let externalIP = (if length (md_ExternalIP nodeMD) = 0 then md_InternalIP nodeMD else md_ExternalIP nodeMD);
          nodeAddress = [];
          nodeAddress = (if length (md_InternalIP nodeMD) > 0
            then nodeAddress @ [\<lparr>addr_Type = NodeInternalIP, addr_Address = md_InternalIP nodeMD\<rparr>] else nodeAddress)
      in if length externalIP > 0 then nodeAddress @ [\<lparr>addr_Type = NodeExternalIP, addr_Address = externalIP\<rparr>] else nodeAddress)"

definition InstanceMetadata :: "'s NodeApi \<Rightarrow> CloudConfig \<Rightarrow> Node \<Rightarrow> ('s, InstanceMetadata_object) cio" where
  "InstanceMetadata api config node =
     bindM (withMetadata (GetNodeMetadata api (node_Name node) (cc_SetNetworkUnavailable config) (cc_CniProvider config))) (\<lambda>nodeMD.
     returnM \<lparr>im_ProviderID = providerIDV2 config nodeMD, im_InstanceType = instanceTypeV2 nodeMD,
       im_NodeAddresses = nodeAddressesV2 nodeMD, im_Zone = md_FailureDomain nodeMD, im_Region = md_Region nodeMD\<rparr>)"

definition InstanceExists :: "Node \<Rightarrow> ('s, bool) io" where "InstanceExists node = returnM True"
definition InstanceShutdown :: "Node \<Rightarrow> ('s, bool) io" where "InstanceShutdown node = returnM False"

text \<open>The operations of the first instances interface, which \<open>Instances\<close> does not offer.\<close>

definition Instances :: bool where "Instances = False"
definition InstancesV2 :: bool where "InstancesV2 = True"
definition NodeAddresses :: "string \<Rightarrow> ('s, NodeAddress list) io" where "NodeAddresses name = raiseM NotImplemented"
definition NodeAddressesByProviderID :: "string \<Rightarrow> ('s, NodeAddress list) io" where
  "NodeAddressesByProviderID providerID = raiseM NotImplemented"
definition InstanceID :: "string \<Rightarrow> ('s, string) io" where "InstanceID nodeName = raiseM NotImplemented"
definition InstanceType :: "string \<Rightarrow> ('s, string) io" where "InstanceType name = raiseM NotImplemented"
definition InstanceTypeByProviderID :: "string \<Rightarrow> ('s, string) io" where "InstanceTypeByProviderID providerID = raiseM NotImplemented"
definition AddSSHKeyToAllInstances :: "string \<Rightarrow> string \<Rightarrow> ('s, unit) io" where
  "AddSSHKeyToAllInstances user keyData = raiseM NotImplemented"
definition CurrentNodeName :: "string \<Rightarrow> ('s, string) io" where "CurrentNodeName hostname = raiseM NotImplemented"
definition InstanceExistsByProviderID :: "string \<Rightarrow> ('s, bool) io" where "InstanceExistsByProviderID providerID = raiseM NotImplemented"
definition InstanceShutdownByProviderID :: "string \<Rightarrow> ('s, bool) io" where
  "InstanceShutdownByProviderID providerID = raiseM NotImplemented"

definition Zones :: bool where "Zones = True"

definition GetZone :: "CloudConfig \<Rightarrow> ('s, Zone) io" where
  "GetZone config = returnM \<lparr>zone_FailureDomain = prov_Zone (cc_Prov config), zone_Region = prov_Region (cc_Prov config)\<rparr>"

definition GetZoneByProviderID :: "string \<Rightarrow> ('s, Zone) io" where
  "GetZoneByProviderID providerID = raiseM NotImplemented"

definition GetZoneByNodeName :: "'s NodeApi \<Rightarrow> CloudConfig \<Rightarrow> string \<Rightarrow> ('s, Zone) cio" where
  "GetZoneByNodeName api config nodeName p =
     (case fst p of
        None \<Rightarrow> (Inr no_zone, p)
      | Some _ \<Rightarrow>
          bindM (withMetadata (GetNodeMetadata api nodeName False (cc_CniProvider config))) (\<lambda>nodeMd.
          returnM \<lparr>zone_FailureDomain = md_FailureDomain nodeMd, zone_Region = md_Region nodeMd\<rparr>) p)"

subsection \<open>Watching nodes\<close>

text \<open>
  The object of a delete notification: a node, the last known state of an object whose deletion was missed (with the node if it holds
  one), or anything else. A panic of the handler is caught and followed by a pause.
\<close>

datatype watch_object = NodeObject Node | DeletedFinalStateUnknown "Node option" | OtherObject

definition nodePanicCooldownPeriod :: int where "nodePanicCooldownPeriod = 10"

definition handleNodeWatchCrash :: "(int \<Rightarrow> 's \<Rightarrow> 's) \<Rightarrow> ('s, unit) cio \<Rightarrow> ('s, unit) cio" where
  "handleNodeWatchCrash sleep m p =
     (case m p of
        (Inl (Panic r), (ms, s)) \<Rightarrow> (Inr (), (ms, sleep (1000000000 * nodePanicCooldownPeriod) s))
      | (r, p') \<Rightarrow> (r, p'))"

definition handleNodeDelete :: "(int \<Rightarrow> 's \<Rightarrow> 's) \<Rightarrow> watch_object \<Rightarrow> ('s, unit) cio" where
  "handleNodeDelete sleep obj =
     handleNodeWatchCrash sleep
       (case obj of
          NodeObject node \<Rightarrow> withMetadata (on_cache (deleteCachedNode (node_Name node)))
        | DeletedFinalStateUnknown (Some node) \<Rightarrow> withMetadata (on_cache (deleteCachedNode (node_Name node)))
        | DeletedFinalStateUnknown None \<Rightarrow> returnM ()
        | OtherObject \<Rightarrow> returnM ())"

subsection \<open>A cache that is dropped as a whole\<close>

text \<open>
  The contract of the cache towards its clients, over runs of its three operations: \<open>lookup\<close> is its contents, \<open>stamp\<close> the time from which
  its age is counted. A hit is the value of the last time the name was stored, and it was stored less than \<open>ttl\<close> ago.
\<close>

datatype 'v cache_event = GetEvent int int string | PutEvent int string 'v | DeleteEvent int string

fun apply_event ::
  "(int \<Rightarrow> int \<Rightarrow> string \<Rightarrow> 'c \<Rightarrow> 'v option \<times> 'c) \<Rightarrow> (string \<Rightarrow> 'v \<Rightarrow> 'c \<Rightarrow> 'c) \<Rightarrow> (string \<Rightarrow> 'c \<Rightarrow> 'c) \<Rightarrow> 'v cache_event \<Rightarrow> 'c \<Rightarrow> 'c" where
  "apply_event get put del (GetEvent t t' n) c = snd (get t t' n c)"
| "apply_event get put del (PutEvent t n v) c = put n v c"
| "apply_event get put del (DeleteEvent t n) c = del n c"

fun event_start :: "'v cache_event \<Rightarrow> int" where
  "event_start (GetEvent t t' n) = t"
| "event_start (PutEvent t n v) = t"
| "event_start (DeleteEvent t n) = t"

fun event_end :: "'v cache_event \<Rightarrow> int" where
  "event_end (GetEvent t t' n) = t'"
| "event_end (PutEvent t n v) = t"
| "event_end (DeleteEvent t n) = t"

text \<open>The readings of the clock never go back.\<close>

fun in_time_order :: "int \<Rightarrow> 'v cache_event list \<Rightarrow> bool" where
  "in_time_order t [] = True"
| "in_time_order t (e # es) \<longleftrightarrow> t \<le> event_start e \<and> event_start e \<le> event_end e \<and> in_time_order (event_end e) es"

fun touches :: "string \<Rightarrow> 'v cache_event \<Rightarrow> bool" where
  "touches n (GetEvent t t' m) = False"
| "touches n (PutEvent t m v) \<longleftrightarrow> m = n"
| "touches n (DeleteEvent t m) \<longleftrightarrow> m = n"

locale dropping_cache =
  fixes new :: "int \<Rightarrow> 'c"
    and get :: "int \<Rightarrow> int \<Rightarrow> string \<Rightarrow> 'c \<Rightarrow> 'v option \<times> 'c"
    and put :: "string \<Rightarrow> 'v \<Rightarrow> 'c \<Rightarrow> 'c"
    and del :: "string \<Rightarrow> 'c \<Rightarrow> 'c"
    and lookup :: "'c \<Rightarrow> string \<Rightarrow> 'v option"
    and stamp :: "'c \<Rightarrow> int"
    and ttl :: int
  assumes new: "lookup (new t) = Map.empty" "stamp (new t) = t"
    and get_hit: "fst (get t t' n c) = Some v \<Longrightarrow> lookup c n = Some v \<and> t - stamp c < ttl"
    and get_state: "snd (get t t' n c) = c \<or> lookup (snd (get t t' n c)) = Map.empty \<and> stamp (snd (get t t' n c)) = t'"
    and put: "lookup (put n v c) = (lookup c)(n \<mapsto> v)" "stamp (put n v c) = stamp c"
    and del: "lookup (del n c) = (lookup c)(n := None)" "stamp (del n c) = stamp c"
begin

definition recorded :: "'v cache_event list \<Rightarrow> int \<Rightarrow> 'c \<Rightarrow> bool" where
  "recorded evs now c \<longleftrightarrow> stamp c \<le> now \<and>
     (\<forall>n v. lookup c n = Some v \<longrightarrow>
        (\<exists>before tp after. evs = before @ PutEvent tp n v # after \<and> stamp c \<le> tp \<and> list_all (\<lambda>e. \<not> touches n e) after))"

lemma recorded_older:
  assumes "recorded evs now c" "now \<le> now'" "stamp c' = stamp c" "\<And>n v. lookup c' n = Some v \<Longrightarrow> lookup c n = Some v \<and> \<not> touches n e"
  shows "recorded (evs @ [e]) now' c'"
  unfolding recorded_def
proof (intro conjI allI impI)
  show "stamp c' \<le> now'" using assms(1-3) by (simp add: recorded_def)
  fix n v assume "lookup c' n = Some v"
  then have n: "lookup c n = Some v" "\<not> touches n e" using assms(4) by blast+
  then obtain before tp after where "evs = before @ PutEvent tp n v # after" "stamp c \<le> tp" "list_all (\<lambda>e. \<not> touches n e) after"
    using assms(1) unfolding recorded_def by blast
  then show "\<exists>before tp after. evs @ [e] = before @ PutEvent tp n v # after \<and> stamp c' \<le> tp \<and> list_all (\<lambda>e. \<not> touches n e) after"
    using n(2) assms(3) by (intro exI[of _ before] exI[of _ tp] exI[of _ "after @ [e]"]) simp
qed

lemma recorded_step:
  assumes "recorded evs now c" "now \<le> event_start e" "event_start e \<le> event_end e"
  shows "recorded (evs @ [e]) (event_end e) (apply_event get put del e c)"
proof (cases e)
  case (GetEvent t t' n)
  from get_state[of t t' n c] show ?thesis
  proof
    assume "snd (get t t' n c) = c"
    with assms GetEvent show ?thesis by (intro recorded_older[OF assms(1)]) auto
  next
    assume "lookup (snd (get t t' n c)) = Map.empty \<and> stamp (snd (get t t' n c)) = t'"
    with assms GetEvent show ?thesis by (simp add: recorded_def)
  qed
next
  case (DeleteEvent t n)
  with assms show ?thesis by (intro recorded_older[OF assms(1)]) (auto simp: del split: if_splits)
next
  case (PutEvent t n v)
  have "stamp c \<le> t" using assms PutEvent by (simp add: recorded_def)
  have old: "recorded (evs @ [e]) t (del n c)"
    using assms PutEvent by (intro recorded_older[OF assms(1)]) (auto simp: del split: if_splits)
  then show ?thesis using \<open>stamp c \<le> t\<close> PutEvent
    by (fastforce simp: recorded_def put del)
qed

lemma recorded_run:
  "recorded evs now c \<Longrightarrow> in_time_order now es \<Longrightarrow> \<exists>now'. recorded (evs @ es) now' (fold (apply_event get put del) es c)"
proof (induction es arbitrary: evs now c)
  case (Cons e es)
  from Cons.prems have "recorded (evs @ [e]) (event_end e) (apply_event get put del e c)" by (intro recorded_step) auto
  from Cons.IH[OF this] Cons.prems(2) show ?case by simp
qed auto

lemma hit_fresh:
  assumes "in_time_order t0 evs" "fst (get t t' n (fold (apply_event get put del) evs (new t0))) = Some v"
  shows "\<exists>before tp after. evs = before @ PutEvent tp n v # after \<and> t - tp < ttl \<and> list_all (\<lambda>e. \<not> touches n e) after"
proof -
  let ?c = "fold (apply_event get put del) evs (new t0)"
  have "recorded [] t0 (new t0)" by (simp add: recorded_def new)
  from recorded_run[OF this assms(1)] obtain now where r: "recorded evs now ?c" by auto
  have c: "lookup ?c n = Some v" "t - stamp ?c < ttl" using get_hit[OF assms(2)] by auto
  from r c(1) obtain before tp after where "evs = before @ PutEvent tp n v # after" "stamp ?c \<le> tp"
      "list_all (\<lambda>e. \<not> touches n e) after"
    unfolding recorded_def by blast
  with c(2) show ?thesis by (intro exI[of _ before] exI[of _ tp] exI[of _ after]) simp
qed

end

interpretation node_cache: dropping_cache "NewMetadataService p" getCachedNode putCachedNode deleteCachedNode ms_nodeMap ms_nodeCacheStart cacheTTL
  by unfold_locales (auto simp: NewMetadataService_def getCachedNode_def putCachedNode_def deleteCachedNode_def split: if_splits)

subsection \<open>The metadata of a node and the cache\<close>

lemma md_simps [simp]:
  "outside m (ms, s) = (fst (m s), (ms, snd (m s)))"
  "on_cache f (ms, s) = (Inr (), (f ms, s))"
  "lookup_cache api name (ms, s) = (Inr (fst (getCachedNode (api_Now api s) (api_Now api s) name ms)),
     (snd (getCachedNode (api_Now api s) (api_Now api s) name ms), s))"
  by (simp_all add: outside_def on_cache_def lookup_cache_def split: prod.splits)

lemma cache_simps [simp]:
  "ms_nodeMap (deleteCachedNode n ms) = (ms_nodeMap ms)(n := None)" "ms_nodeCacheStart (deleteCachedNode n ms) = ms_nodeCacheStart ms"
  "ms_provider (deleteCachedNode n ms) = ms_provider ms" "ms_vpcClient (deleteCachedNode n ms) = ms_vpcClient ms"
  "ms_nodeMap (putCachedNode n v ms) = (ms_nodeMap ms)(n \<mapsto> v)" "ms_nodeCacheStart (putCachedNode n v ms) = ms_nodeCacheStart ms"
  "ms_provider (putCachedNode n v ms) = ms_provider ms"
  by (simp_all add: deleteCachedNode_def putCachedNode_def)

lemma getCachedNode_None: "fst (getCachedNode t t' n ms) = None \<Longrightarrow> ms_nodeMap (snd (getCachedNode t t' n ms)) n = None"
  by (simp add: getCachedNode_def split: if_splits)

lemma getCachedNode_provider [simp]: "ms_provider (snd (getCachedNode t t' n ms)) = ms_provider ms"
  by (simp add: getCachedNode_def)

lemma ensureVpcClient_map: "ensureVpcClient api (ms, s) = (r, (ms', s')) \<Longrightarrow> ms_nodeMap ms' = ms_nodeMap ms"
  by (auto simp: ensureVpcClient_def split: option.splits prod.splits sum.splits)

lemma hit_returned:
  "fst (getCachedNode (api_Now api s) (api_Now api s) name ms) = Some md \<Longrightarrow> GetNodeMetadata api name b cni (ms, s) = (Inr md, (ms, s))"
  by (auto simp: GetNodeMetadata_def bindM_def getCachedNode_def split: if_splits)

lemma miss_continues:
  assumes "fst (getCachedNode (api_Now api s) (api_Now api s) name ms) = None"
  shows "GetNodeMetadata api name b cni (ms, s) =
    bindM (outside (api_GetNode api name)) (\<lambda>k8sNode.
    bindM (outside (applyCondition api name k8sNode b cni)) (\<lambda>_.
    bindM (if node_ProviderID k8sNode \<noteq> [] then on_cache (deleteCachedNode name) else returnM ()) (\<lambda>_.
    if snd (labelMetadata k8sNode) then bindM (on_cache (putCachedNode name (fst (labelMetadata k8sNode)))) (\<lambda>_. returnM (fst (labelMetadata k8sNode)))
    else (\<lambda>p.
      if isProviderVpc (prov_ProviderType (ms_provider (fst p)))
      then
        bindM (ensureVpcClient api) (\<lambda>vpc.
        bindM (outside (populateNodeMetadata vpc name (fst (labelMetadata k8sNode)))) (\<lambda>newNode.
        bindM (on_cache (putCachedNode name newNode)) (\<lambda>_. returnM newNode))) p
      else (Inl errLabelsMissing, p)))))
    (snd (getCachedNode (api_Now api s) (api_Now api s) name ms), s)"
proof -
  have md: "md_ProviderID (fst (labelMetadata k)) = node_ProviderID k" "md_ProviderID no_metadata = []" for k
    by (simp_all add: labelMetadata_def no_metadata_def Let_def)
  show ?thesis using assms
    by (simp add: GetNodeMetadata_def bindM_def[of "lookup_cache api name"] case_prod_beta md)
qed

text \<open>After the call the cache holds the value that was returned, or nothing for the name if there was an error.\<close>

lemma result_in_cache:
  assumes "GetNodeMetadata api name b cni (ms, s) = (r, (ms', s'))"
  shows "ms_nodeMap ms' name = (case r of Inl _ \<Rightarrow> None | Inr md \<Rightarrow> Some md)"
proof (cases "fst (getCachedNode (api_Now api s) (api_Now api s) name ms)")
  case (Some md)
  then have "ms_nodeMap ms name = Some md" by (simp add: getCachedNode_def split: if_splits)
  with assms hit_returned[OF Some] show ?thesis by auto
next
  case None
  let ?ms = "snd (getCachedNode (api_Now api s) (api_Now api s) name ms)"
  have "ms_nodeMap ?ms name = None" by (rule getCachedNode_None[OF None])
  with assms[unfolded miss_continues[OF None]] show ?thesis
    by (auto simp: bindM_def Let_def dest!: ensureVpcClient_map split: prod.splits sum.splits if_splits)
qed

subsection \<open>Example data\<close>

definition ex_node_labels :: "string \<rightharpoonup> string" where
  "ex_node_labels = [internalIPLabel \<mapsto> ''192.168.10.5'', workerIDLabel \<mapsto> ''worker-1'', machineTypeLabel \<mapsto> ''b2c.4x16'',
     failureDomainLabel \<mapsto> ''us-south-1'', regionLabel \<mapsto> ''us-south'']"

definition ex_labelled_node :: Node where
  "ex_labelled_node = \<lparr>node_Name = ''node-1'', node_Labels = ex_node_labels, node_Addresses = [], node_ProviderID = [], node_TaintKeys = [],
     node_ConditionTypes = []\<rparr>"

definition ex_metadata :: NodeMetadata where
  "ex_metadata = \<lparr>md_InternalIP = ''192.168.10.5'', md_ExternalIP = [], md_WorkerID = ''worker-1'', md_InstanceType = ''b2c.4x16'',
     md_FailureDomain = ''us-south-1'', md_Region = ''us-south'', md_ProviderID = []\<rparr>"

definition ex_instance_sdk :: "int InstanceSdk" where
  "ex_instance_sdk = \<lparr>isdk_ServiceURL = ''https://vpc'', isdk_GetRegion = (\<lambda>_ s. (Inr (Some (Some ''https://vpc'')), s + 1)),
     isdk_ListInstances = (\<lambda>_ _ _ s. (Inr (Some []), s + 1))\<rparr>"

text \<open>A world that is a clock; every call takes a nanosecond.\<close>

definition ex_node_api :: "int NodeApi" where
  "ex_node_api = \<lparr>api_Now = (\<lambda>s. s), api_ReadFile = (\<lambda>_ s. (Inr ''key'', s + 1)), api_GetNode = (\<lambda>_ s. (Inr ex_labelled_node, s + 1)),
     api_SetNetworkUnavailable = (\<lambda>_ s. (Inr (), s + 1)), api_RetryOnConflict = (\<lambda>m. m),
     api_NewVpcV1 = (\<lambda>_ _ s. (Inr ex_instance_sdk, s + 1)), api_SetServiceURL = Inr\<rparr>"

definition ex_cloud_config :: CloudConfig where
  "ex_cloud_config = \<lparr>cc_Version = ''1.1.0'', cc_ConfigFilePaths = [], cc_CalicoDatastore = [], cc_SetNetworkUnavailable = False,
     cc_CniProvider = ''Calico'', cc_LBDeployment = \<lparr>lbd_Image = [], lbd_Application = [], lbd_VlanIPConfigMap = []\<rparr>,
     cc_Prov = no_provider\<lparr>prov_AccountID := ''acct'', prov_ClusterID := ''clusterID'', prov_ProviderType := ''g2'', prov_Region := ''us-south'',
       prov_G2VpcName := ''vpc'', prov_G2VpcSubnetNames := ''subnet1,subnet2'', prov_G2ResourceGroupName := ''group'',
       prov_G2WorkerServiceAccountID := ''acct'', prov_G2Credentials := ''/etc/key''\<rparr>\<rparr>"

lemma ex_labels: "labelMetadata ex_labelled_node = (ex_metadata, True)"
  by code_simp

subsection \<open>Properties\<close>

text \<open>C33: Whatever sequence of lookups, stores and deletions ran before, a hit of the metadata cache is the value of the last store of that
  name, not deleted since, and that store was less than five minutes ago.\<close>

theorem cache_hits_are_fresh:
  assumes "in_time_order t0 evs"
    and "fst (getCachedNode t t' n (fold (apply_event getCachedNode putCachedNode deleteCachedNode) evs (NewMetadataService p t0))) = Some md"
  shows "\<exists>before tp after. evs = before @ PutEvent tp n md # after \<and> t - tp < cacheTTL \<and> list_all (\<lambda>e. \<not> touches n e) after"
  by (rule node_cache.hit_fresh[OF assms])

theorem cache_hits_are_fresh_witness:
  "\<exists>before tp after. [PutEvent 10 ''node-1'' ex_metadata, GetEvent 11 12 ''node-2''] = before @ PutEvent tp ''node-1'' ex_metadata # after \<and>
     20 - tp < cacheTTL \<and> list_all (\<lambda>e. \<not> touches ''node-1'' e) after"
  by (rule cache_hits_are_fresh[where ?t0.0 = 5 and t' = 20 and p = None])
    (simp_all add: getCachedNode_def putCachedNode_def NewMetadataService_def cacheTTL_def)

text \<open>C34: A value that \<open>GetNodeMetadata\<close> returned is in the cache and is returned again, without any call outside, until the cache expires; an
  error leaves nothing in the cache for the node.\<close>

theorem metadata_cached:
  assumes "GetNodeMetadata api name b cni (ms, s) = (r, (ms', s'))"
  shows "case r of
      Inl e \<Rightarrow> ms_nodeMap ms' name = None
    | Inr md \<Rightarrow> ms_nodeMap ms' name = Some md \<and>
        (api_Now api s' - ms_nodeCacheStart ms' < cacheTTL \<longrightarrow> GetNodeMetadata api name b' cni' (ms', s') = (Inr md, (ms', s')))"
proof (cases r)
  case (Inr md)
  then have "ms_nodeMap ms' name = Some md" using result_in_cache[OF assms] by simp
  then show ?thesis using Inr by (auto intro!: hit_returned simp: getCachedNode_def)
qed (use result_in_cache[OF assms] in simp)

theorem metadata_cached_witness:
  "case GetNodeMetadata ex_node_api ''node-1'' True ''Calico'' (NewMetadataService None 0, 7) of
     (Inl _, _) \<Rightarrow> False
   | (Inr md, p) \<Rightarrow> GetNodeMetadata ex_node_api ''node-1'' False ''Calico'' p = (Inr md, p)"
proof -
  have run: "GetNodeMetadata ex_node_api ''node-1'' True ''Calico'' (NewMetadataService None 0, 7) =
      (Inr ex_metadata, (putCachedNode ''node-1'' ex_metadata (NewMetadataService None 0), 8))"
    by (subst miss_continues)
      (simp_all add: bindM_def ex_node_api_def applyCondition_def ex_labels getCachedNode_def NewMetadataService_def cacheTTL_def
        ex_labelled_node_def[THEN arg_cong[where f = node_ProviderID]] ex_labelled_node_def[THEN arg_cong[where f = node_TaintKeys]])
  from metadata_cached[OF run, of False "''Calico''"] run show ?thesis
    by (simp add: ex_node_api_def NewMetadataService_def cacheTTL_def)
qed

text \<open>Without a hit, the metadata of a node comes from its labels if all required ones are set, otherwise from the VPC if the cluster runs
  there, otherwise the labels are reported missing.\<close>

lemma metadata_sources:
  assumes "getCachedNode (api_Now api s) (api_Now api s) name ms = (None, ms1)"
    and "api_GetNode api name s = (Inr node, s1)" "applyCondition api name node b cni s1 = (Inr (), s2)"
    and "ms2 = (if node_ProviderID node \<noteq> [] then deleteCachedNode name ms1 else ms1)"
  shows "fst (GetNodeMetadata api name b cni (ms, s)) =
    (if list_all (\<lambda>l. node_Labels node l \<noteq> None) [internalIPLabel, workerIDLabel, machineTypeLabel, failureDomainLabel, regionLabel]
     then Inr (fst (labelMetadata node))
     else if isProviderVpc (prov_ProviderType (ms_provider ms))
     then fst (bindM (ensureVpcClient api) (\<lambda>vpc. outside (populateNodeMetadata vpc name (fst (labelMetadata node)))) (ms2, s2))
     else Inl errLabelsMissing)"
proof -
  have ok: "snd (labelMetadata node) \<longleftrightarrow>
      list_all (\<lambda>l. node_Labels node l \<noteq> None) [internalIPLabel, workerIDLabel, machineTypeLabel, failureDomainLabel, regionLabel]"
    by (simp add: labelMetadata_def Let_def)
  have "fst (getCachedNode (api_Now api s) (api_Now api s) name ms) = None" "snd (getCachedNode (api_Now api s) (api_Now api s) name ms) = ms1"
    "ms_provider ms1 = ms_provider ms"
    using assms(1) getCachedNode_provider[of "api_Now api s" "api_Now api s" name ms] by auto
  with miss_continues[of api s name ms b cni] assms(2-4) show ?thesis
    unfolding ok[symmetric] by (auto simp: bindM_def split: prod.splits sum.splits)
qed

text \<open>A notification that a node was deleted removes exactly that node from the cache, so that the next request asks Kubernetes again; no
  notification makes the handler fail, not even one for a cloud without metadata service.\<close>

lemma node_delete_forgets:
  assumes "obj = NodeObject node \<or> obj = DeletedFinalStateUnknown (Some node)"
  shows "\<exists>ms'. handleNodeDelete sleep obj (Some ms, s) = (Inr (), (Some ms', s)) \<and>
      ms_nodeMap ms' = (ms_nodeMap ms)(node_Name node := None) \<and>
      (api_GetNode api (node_Name node) s = (Inl e, s') \<longrightarrow> fst (GetNodeMetadata api (node_Name node) b cni (ms', s)) = Inl e) \<and>
      (\<forall>obj' p. fst (handleNodeDelete sleep obj' p) = Inr ())"
proof -
  have "fst (getCachedNode (api_Now api s) (api_Now api s) (node_Name node) (deleteCachedNode (node_Name node) ms)) = None"
    by (simp add: getCachedNode_def)
  from miss_continues[OF this] have "api_GetNode api (node_Name node) s = (Inl e, s') \<Longrightarrow>
      fst (GetNodeMetadata api (node_Name node) b cni (deleteCachedNode (node_Name node) ms, s)) = Inl e"
    by (simp add: bindM_def)
  moreover have "fst (handleNodeDelete sleep obj' p) = Inr ()" for obj' p
    by (auto simp: handleNodeDelete_def handleNodeWatchCrash_def withMetadata_def on_cache_def
        split: watch_object.splits option.splits prod.splits)
  ultimately show ?thesis using assms
    by (intro exI[of _ "deleteCachedNode (node_Name node) ms"])
      (auto simp: handleNodeDelete_def handleNodeWatchCrash_def withMetadata_def)
qed

lemma node_delete_forgets_witness:
  "\<exists>ms'. handleNodeDelete (\<lambda>d s. s + d) (NodeObject ex_labelled_node)
       (Some (putCachedNode ''node-1'' ex_metadata (NewMetadataService None 0)), 7) = (Inr (), (Some ms', 7)) \<and> ms_nodeMap ms' ''node-1'' = None"
proof -
  have n: "node_Name ex_labelled_node = ''node-1''" by (simp add: ex_labelled_node_def)
  show ?thesis
    using node_delete_forgets[of "NodeObject ex_labelled_node" ex_labelled_node "\<lambda>d s. s + d"
        "putCachedNode ''node-1'' ex_metadata (NewMetadataService None 0)" 7 ex_node_api] n by fastforce
qed

text \<open>The instance metadata given to Kubernetes: a node with an internal address always gets an internal and an external one (the internal one
  again for a private worker), and a provider ID: its own, or the one built from account, cluster and worker.\<close>

lemma instance_metadata_complete:
  assumes "withMetadata (GetNodeMetadata api (node_Name node) (cc_SetNetworkUnavailable config) (cc_CniProvider config)) p = (Inr md, p')"
    and "md_InternalIP md \<noteq> []"
  shows "\<exists>im. InstanceMetadata api config node p = (Inr im, p') \<and>
    im_NodeAddresses im = [\<lparr>addr_Type = NodeInternalIP, addr_Address = md_InternalIP md\<rparr>,
      \<lparr>addr_Type = NodeExternalIP, addr_Address = (if md_ExternalIP md = [] then md_InternalIP md else md_ExternalIP md)\<rparr>] \<and>
    im_ProviderID im \<noteq> [] \<and>
    (md_ProviderID md = [] \<longrightarrow> im_ProviderID im =
      ''ibm://'' @ prov_AccountID (cc_Prov config) @ ''///'' @ prov_ClusterID (cc_Prov config) @ ''/'' @ md_WorkerID md)"
  using assms by (simp add: InstanceMetadata_def bindM_def providerIDV2_def nodeAddressesV2_def Let_def)

end
