(* ===== verification/Ibm_Tasks.thy ===== *)
theory Ibm_Tasks
  imports Prelude
begin

section \<open>Periodic tasks (\<open>ibm/ibm_task.go\<close>)\<close>

text \<open>
  The cloud object keeps its tasks in a map by name; each task is a goroutine that selects between a ticker and a channel that is closed
  to stop it. The tasks that were ever created are a list, the map holds their positions, so that a task that was stopped and
  one that was started later under the same name are two tasks. The name of the task function, which the program gets by
  reflection, stands for the function; what the function does to its data is arbitrary, but it returns and does not panic. A call of
  \<open>StartTask\<close> or \<open>StopTask\<close> takes one step per access to the map, the ticker or the channel; no lock keeps two calls apart. What Go
  does when a map is written and read at the same moment is not modelled.
\<close>

subsection \<open>Tasks\<close>

text \<open>Where the goroutine is: in \<open>select\<close>, running the function, in the pause that is forced after a long run, or gone.\<close>

datatype run_location = Selecting | InTask | Pausing | Returned

record CloudTask =
  ct_Name :: string
  ct_Interval :: int
  ct_TickerOn :: bool
  ct_Tick :: bool
  ct_StopperClosed :: bool
  ct_FuncData :: "string \<rightharpoonup> string"
  ct_At :: run_location
  ct_Runs :: nat

text \<open>\<open>ct_Tick\<close>: a tick is waiting in the channel of the ticker, which holds one. \<open>ct_Runs\<close> counts the runs of the function.\<close>

record Tasks =
  ts_CloudTasks :: "string \<rightharpoonup> nat"
  ts_All :: "CloudTask list"
  ts_Panicked :: bool

definition no_tasks :: Tasks where
  "no_tasks = \<lparr>ts_CloudTasks = Map.empty, ts_All = [], ts_Panicked = False\<rparr>"

definition new_task :: "string \<Rightarrow> int \<Rightarrow> CloudTask" where
  "new_task taskName interval = \<lparr>ct_Name = taskName, ct_Interval = interval, ct_TickerOn = True, ct_Tick = False,
     ct_StopperClosed = False, ct_FuncData = Map.empty, ct_At = Selecting, ct_Runs = 0\<rparr>"

text \<open>\<open>time.NewTicker\<close> panics on an interval that is not positive. The goroutine may take its first step at any time from then on.\<close>

definition put_task :: "string \<Rightarrow> int \<Rightarrow> Tasks \<Rightarrow> Tasks" where
  "put_task taskName interval c =
     (if interval \<le> 0 then c\<lparr>ts_Panicked := True\<rparr>
      else c\<lparr>ts_CloudTasks := (ts_CloudTasks c)(taskName \<mapsto> length (ts_All c)), ts_All := ts_All c @ [new_task taskName interval]\<rparr>)"

definition StartTask :: "string \<Rightarrow> int \<Rightarrow> Tasks \<Rightarrow> Tasks" where
  "StartTask taskName interval c =
     (if taskName \<in> dom (ts_CloudTasks c) then c else put_task taskName interval c)"

definition ticker_stop :: "nat \<Rightarrow> Tasks \<Rightarrow> Tasks" where
  "ticker_stop i c = c\<lparr>ts_All := (ts_All c)[i := (ts_All c ! i)\<lparr>ct_TickerOn := False\<rparr>]\<rparr>"

text \<open>To close a closed channel is a panic; to receive from it returns at once.\<close>

definition close_stopper :: "nat \<Rightarrow> Tasks \<Rightarrow> Tasks" where
  "close_stopper i c =
     (if ct_StopperClosed (ts_All c ! i) then c\<lparr>ts_Panicked := True\<rparr>
      else c\<lparr>ts_All := (ts_All c)[i := (ts_All c ! i)\<lparr>ct_StopperClosed := True\<rparr>]\<rparr>)"

definition task_stop :: "nat \<Rightarrow> Tasks \<Rightarrow> Tasks" where
  "task_stop i c = close_stopper i (ticker_stop i c)"

definition delete_task :: "string \<Rightarrow> Tasks \<Rightarrow> Tasks" where
  "delete_task taskName c = c\<lparr>ts_CloudTasks := (ts_CloudTasks c)(taskName := None)\<rparr>"

definition StopTask :: "string \<Rightarrow> Tasks \<Rightarrow> Tasks" where
  "StopTask taskName c =
     (case ts_CloudTasks c taskName of
        None \<Rightarrow> c
      | Some i \<Rightarrow> if ts_Panicked (task_stop i c) then task_stop i c else delete_task taskName (task_stop i c))"

text \<open>The loop of \<open>run\<close>; when both channels are ready, \<open>select\<close> may take either. The last rule is the ticker.\<close>

inductive run_step :: "CloudTask \<Rightarrow> CloudTask \<Rightarrow> bool" where
  stopper: "ct_At ct = Selecting \<Longrightarrow> ct_StopperClosed ct \<Longrightarrow> run_step ct (ct\<lparr>ct_At := Returned\<rparr>)"
| tick: "ct_At ct = Selecting \<Longrightarrow> ct_Tick ct \<Longrightarrow> run_step ct (ct\<lparr>ct_Tick := False, ct_At := InTask, ct_Runs := ct_Runs ct + 1\<rparr>)"
| task_done: "ct_At ct = InTask \<Longrightarrow> 0 \<le> taskRunDuration \<Longrightarrow>
    run_step ct (ct\<lparr>ct_FuncData := data, ct_At := (if taskRunDuration > ct_Interval ct div 2 then Pausing else Selecting)\<rparr>)"
| pause_over: "ct_At ct = Pausing \<Longrightarrow> run_step ct (ct\<lparr>ct_At := Selecting\<rparr>)"
| ticker: "ct_TickerOn ct \<Longrightarrow> run_step ct (ct\<lparr>ct_Tick := True\<rparr>)"

subsection \<open>Calls step by step\<close>

text \<open>Where a call is: before it looks at the map, after it has found the name absent or the task there, and so on.\<close>

datatype task_call = StartAt string int | StartNew string int | StopAt string | StopFound string nat | StopTicking string nat
  | StopClosed string nat | CallReturned

inductive call_step :: "task_call \<times> Tasks \<Rightarrow> task_call \<times> Tasks \<Rightarrow> bool" where
  start_found: "name \<in> dom (ts_CloudTasks c) \<Longrightarrow> call_step (StartAt name interval, c) (CallReturned, c)"
| start_absent: "name \<notin> dom (ts_CloudTasks c) \<Longrightarrow> call_step (StartAt name interval, c) (StartNew name interval, c)"
| start_put: "call_step (StartNew name interval, c) (CallReturned, put_task name interval c)"
| stop_absent: "ts_CloudTasks c name = None \<Longrightarrow> call_step (StopAt name, c) (CallReturned, c)"
| stop_found: "ts_CloudTasks c name = Some i \<Longrightarrow> call_step (StopAt name, c) (StopFound name i, c)"
| stop_ticker: "call_step (StopFound name i, c) (StopTicking name i, ticker_stop i c)"
| stop_close: "call_step (StopTicking name i, c) (StopClosed name i, close_stopper i c)"
| stop_delete: "call_step (StopClosed name i, c) (CallReturned, delete_task name c)"

inductive_cases call_stepE: "call_step (l, c) x"

text \<open>
  Calls begin, make steps, and tasks run, in any order, until something panics. With \<open>serial\<close>, a call begins only when all others have
  returned. In the program, intervals are positive constants.
\<close>

inductive calls_step :: "bool \<Rightarrow> Tasks \<times> task_call list \<Rightarrow> Tasks \<times> task_call list \<Rightarrow> bool" for serial where
  begin_start: "\<not> ts_Panicked c \<Longrightarrow> 0 < interval \<Longrightarrow> (serial \<Longrightarrow> list_all ((=) CallReturned) calls) \<Longrightarrow>
    calls_step serial (c, calls) (c, calls @ [StartAt name interval])"
| begin_stop: "\<not> ts_Panicked c \<Longrightarrow> (serial \<Longrightarrow> list_all ((=) CallReturned) calls) \<Longrightarrow>
    calls_step serial (c, calls) (c, calls @ [StopAt name])"
| go_on: "\<not> ts_Panicked c \<Longrightarrow> k < length calls \<Longrightarrow> call_step (calls ! k, c) (l, c') \<Longrightarrow>
    calls_step serial (c, calls) (c', calls[k := l])"
| run: "\<not> ts_Panicked c \<Longrightarrow> i < length (ts_All c) \<Longrightarrow> run_step (ts_All c ! i) ct \<Longrightarrow>
    calls_step serial (c, calls) (c\<lparr>ts_All := (ts_All c)[i := ct]\<rparr>, calls)"

text \<open>A call whose steps nothing interrupts does what \<open>StartTask\<close> or \<open>StopTask\<close> does in one step.\<close>

lemma StartTask_steps: "call_step\<^sup>*\<^sup>* (StartAt name interval, c) (CallReturned, StartTask name interval c)"
proof (cases "name \<in> dom (ts_CloudTasks c)")
  case True
  with start_found[OF True] show ?thesis by (auto simp: StartTask_def)
next
  case False
  from start_absent[OF False] start_put have "call_step\<^sup>*\<^sup>* (StartAt name interval, c) (CallReturned, put_task name interval c)" by (meson r_into_rtranclp rtranclp_trans)
  with False show ?thesis by (simp add: StartTask_def)
qed

lemma StopTask_steps:
  assumes "\<not> ts_Panicked (StopTask name c)"
  shows "call_step\<^sup>*\<^sup>* (StopAt name, c) (CallReturned, StopTask name c)"
proof (cases "ts_CloudTasks c name")
  case None
  with stop_absent[OF None] show ?thesis by (auto simp: StopTask_def)
next
  case (Some i)
  have "call_step\<^sup>*\<^sup>* (StopAt name, c) (CallReturned, delete_task name (task_stop i c))" unfolding task_stop_def
    using stop_found[OF Some] stop_ticker stop_close stop_delete by (meson r_into_rtranclp rtranclp_trans)
  moreover have "StopTask name c = delete_task name (task_stop i c)" using assms Some by (auto simp: StopTask_def delete_task_def split: if_splits)
  ultimately show ?thesis by simp
qed

subsection \<open>The invariant\<close>

text \<open>
  Nothing panicked, the map leads to tasks of that name, a task in the map is live (its ticker is on, its channel open and its goroutine has not
  returned), unless a call is stopping it, and a task that is no longer in the map is stopped. \<open>call_inv\<close>: what a call knows where it is.
\<close>

definition live :: "CloudTask \<Rightarrow> bool" where
  "live ct \<longleftrightarrow> ct_TickerOn ct \<and> \<not> ct_StopperClosed ct \<and> ct_At ct \<noteq> Returned"

definition stopped :: "CloudTask \<Rightarrow> bool" where
  "stopped ct \<longleftrightarrow> \<not> ct_TickerOn ct \<and> ct_StopperClosed ct"

definition tasks_inv :: "nat option \<Rightarrow> Tasks \<Rightarrow> bool" where
  "tasks_inv busy c \<longleftrightarrow> \<not> ts_Panicked c \<and>
     (\<forall>name i. ts_CloudTasks c name = Some i \<longrightarrow>
        i < length (ts_All c) \<and> ct_Name (ts_All c ! i) = name \<and> (busy \<noteq> Some i \<longrightarrow> live (ts_All c ! i))) \<and>
     (\<forall>i < length (ts_All c). (\<exists>name. ts_CloudTasks c name = Some i) \<or> stopped (ts_All c ! i))"

fun call_inv :: "task_call \<Rightarrow> Tasks \<Rightarrow> bool" where
  "call_inv (StartAt name interval) c \<longleftrightarrow> tasks_inv None c \<and> 0 < interval"
| "call_inv (StartNew name interval) c \<longleftrightarrow> tasks_inv None c \<and> 0 < interval \<and> ts_CloudTasks c name = None"
| "call_inv (StopAt name) c \<longleftrightarrow> tasks_inv None c"
| "call_inv (StopFound name i) c \<longleftrightarrow> tasks_inv None c \<and> ts_CloudTasks c name = Some i"
| "call_inv (StopTicking name i) c \<longleftrightarrow> tasks_inv (Some i) c \<and> ts_CloudTasks c name = Some i \<and>
     \<not> ct_TickerOn (ts_All c ! i) \<and> \<not> ct_StopperClosed (ts_All c ! i)"
| "call_inv (StopClosed name i) c \<longleftrightarrow> tasks_inv (Some i) c \<and> ts_CloudTasks c name = Some i \<and> stopped (ts_All c ! i)"
| "call_inv CallReturned c \<longleftrightarrow> tasks_inv None c"

definition serial_inv :: "Tasks \<times> task_call list \<Rightarrow> bool" where
  "serial_inv x \<longleftrightarrow> (case x of (c, calls) \<Rightarrow> list_all ((=) CallReturned) calls \<and> tasks_inv None c \<or>
     (\<exists>k < length calls. call_inv (calls ! k) c \<and> (\<forall>j < length calls. j \<noteq> k \<longrightarrow> calls ! j = CallReturned)))"

lemma tasks_invI:
  assumes "\<not> ts_Panicked c"
    and "\<And>name i. ts_CloudTasks c name = Some i \<Longrightarrow>
      i < length (ts_All c) \<and> ct_Name (ts_All c ! i) = name \<and> (busy \<noteq> Some i \<longrightarrow> live (ts_All c ! i))"
    and "\<And>i. i < length (ts_All c) \<Longrightarrow> (\<exists>name. ts_CloudTasks c name = Some i) \<or> stopped (ts_All c ! i)"
  shows "tasks_inv busy c"
  using assms by (simp add: tasks_inv_def)

lemma tasks_invD:
  assumes "tasks_inv busy c"
  shows "\<not> ts_Panicked c"
    and "ts_CloudTasks c name = Some i \<Longrightarrow> i < length (ts_All c)"
    and "ts_CloudTasks c name = Some i \<Longrightarrow> ct_Name (ts_All c ! i) = name"
    and "ts_CloudTasks c name = Some i \<Longrightarrow> busy \<noteq> Some i \<Longrightarrow> live (ts_All c ! i)"
    and "i < length (ts_All c) \<Longrightarrow> (\<exists>name. ts_CloudTasks c name = Some i) \<or> stopped (ts_All c ! i)"
  using assms by (simp_all add: tasks_inv_def)

lemma serial_inv_init: "serial_inv (no_tasks, [])"
  by (simp add: serial_inv_def tasks_inv_def no_tasks_def)

text \<open>A task changes: it runs, or a call stops it.\<close>

lemma update_inv:
  assumes "tasks_inv busy c" "i < length (ts_All c)" "ct_Name ct = ct_Name (ts_All c ! i)" "stopped (ts_All c ! i) \<longrightarrow> stopped ct"
    and "busy' = busy \<and> (live (ts_All c ! i) \<longrightarrow> live ct) \<or> busy' = Some i \<and> busy = None"
  shows "tasks_inv busy' (c\<lparr>ts_All := (ts_All c)[i := ct]\<rparr>)"
proof (rule tasks_invI)
  show "\<not> ts_Panicked (c\<lparr>ts_All := (ts_All c)[i := ct]\<rparr>)" using tasks_invD(1)[OF assms(1)] by simp
next
  fix n j assume "ts_CloudTasks (c\<lparr>ts_All := (ts_All c)[i := ct]\<rparr>) n = Some j"
  then have "ts_CloudTasks c n = Some j" by simp
  from tasks_invD(2-4)[OF assms(1) this] assms(2,3,5)
  show "j < length (ts_All (c\<lparr>ts_All := (ts_All c)[i := ct]\<rparr>)) \<and> ct_Name (ts_All (c\<lparr>ts_All := (ts_All c)[i := ct]\<rparr>) ! j) = n \<and>
      (busy' \<noteq> Some j \<longrightarrow> live (ts_All (c\<lparr>ts_All := (ts_All c)[i := ct]\<rparr>) ! j))"
    by (cases "j = i") auto
next
  fix j assume "j < length (ts_All (c\<lparr>ts_All := (ts_All c)[i := ct]\<rparr>))"
  with tasks_invD(5)[OF assms(1), of j] assms(4)
  show "(\<exists>n. ts_CloudTasks (c\<lparr>ts_All := (ts_All c)[i := ct]\<rparr>) n = Some j) \<or> stopped (ts_All (c\<lparr>ts_All := (ts_All c)[i := ct]\<rparr>) ! j)"
    by (cases "j = i") auto
qed

lemma run_step_keeps:
  "run_step ct ct' \<Longrightarrow> ct_Name ct' = ct_Name ct \<and> ct_TickerOn ct' = ct_TickerOn ct \<and> ct_StopperClosed ct' = ct_StopperClosed ct \<and>
     (live ct \<longrightarrow> live ct') \<and> (stopped ct \<longrightarrow> stopped ct')"
  by (induction rule: run_step.induct) (auto simp: live_def stopped_def)

lemma run_inv:
  assumes "run_step (ts_All c ! i) ct" "i < length (ts_All c)" "call_inv l c"
  shows "call_inv l (c\<lparr>ts_All := (ts_All c)[i := ct]\<rparr>)"
proof -
  note keeps = run_step_keeps[OF assms(1)]
  have inv: "tasks_inv busy (c\<lparr>ts_All := (ts_All c)[i := ct]\<rparr>)" if "tasks_inv busy c" for busy
    using keeps assms(2) by (intro update_inv[OF that]) simp_all
  show ?thesis using assms(2,3) keeps by (cases l) (auto simp: inv nth_list_update)
qed

lemma put_task_inv:
  assumes "tasks_inv None c" "0 < interval" "ts_CloudTasks c name = None"
  shows "tasks_inv None (put_task name interval c)"
proof -
  let ?c = "c\<lparr>ts_CloudTasks := (ts_CloudTasks c)(name \<mapsto> length (ts_All c)), ts_All := ts_All c @ [new_task name interval]\<rparr>"
  have "tasks_inv None ?c"
  proof (rule tasks_invI)
    show "\<not> ts_Panicked ?c" using tasks_invD(1)[OF assms(1)] by simp
  next
    fix n i assume n: "ts_CloudTasks ?c n = Some i"
    show "i < length (ts_All ?c) \<and> ct_Name (ts_All ?c ! i) = n \<and> (None \<noteq> Some i \<longrightarrow> live (ts_All ?c ! i))"
    proof (cases "n = name")
      case True
      with n have "i = length (ts_All c)" by simp
      with True show ?thesis by (simp add: live_def new_task_def)
    next
      case False
      with n have "ts_CloudTasks c n = Some i" by simp
      from tasks_invD(2-4)[OF assms(1) this] show ?thesis by (simp add: nth_append)
    qed
  next
    fix i assume i: "i < length (ts_All ?c)"
    show "(\<exists>n. ts_CloudTasks ?c n = Some i) \<or> stopped (ts_All ?c ! i)"
    proof (cases "i < length (ts_All c)")
      case True
      from tasks_invD(5)[OF assms(1) True] consider n where "ts_CloudTasks c n = Some i" | "stopped (ts_All c ! i)" by auto
      then show ?thesis
      proof cases
        case 1
        with assms(3) have "n \<noteq> name" by auto
        with 1 show ?thesis by (intro disjI1 exI[of _ n]) simp
      qed (use True in \<open>simp add: nth_append\<close>)
    next
      case False
      with i have "i = length (ts_All c)" by simp
      then show ?thesis by (intro disjI1 exI[of _ name]) simp
    qed
  qed
  with assms(2) show ?thesis by (simp add: put_task_def)
qed

lemma delete_task_inv:
  assumes "tasks_inv (Some i) c" "ts_CloudTasks c name = Some i" "stopped (ts_All c ! i)"
  shows "tasks_inv None (delete_task name c)"
proof (rule tasks_invI)
  show "\<not> ts_Panicked (delete_task name c)" using tasks_invD(1)[OF assms(1)] by (simp add: delete_task_def)
next
  fix n j assume "ts_CloudTasks (delete_task name c) n = Some j"
  then have j: "n \<noteq> name" "ts_CloudTasks c n = Some j" by (auto simp: delete_task_def split: if_splits)
  with tasks_invD(3)[OF assms(1,2)] tasks_invD(3)[OF assms(1) j(2)] have "j \<noteq> i" by auto
  with tasks_invD(2-4)[OF assms(1) j(2)]
  show "j < length (ts_All (delete_task name c)) \<and> ct_Name (ts_All (delete_task name c) ! j) = n \<and>
      (None \<noteq> Some j \<longrightarrow> live (ts_All (delete_task name c) ! j))" by (simp add: delete_task_def)
next
  fix j assume j: "j < length (ts_All (delete_task name c))"
  show "(\<exists>n. ts_CloudTasks (delete_task name c) n = Some j) \<or> stopped (ts_All (delete_task name c) ! j)"
  proof (cases "j = i")
    case True
    with assms(3) show ?thesis by (simp add: delete_task_def)
  next
    case False
    from tasks_invD(5)[OF assms(1), of j] j consider n where "ts_CloudTasks c n = Some j" | "stopped (ts_All c ! j)"
      by (auto simp: delete_task_def)
    then show ?thesis
    proof cases
      case 1
      with assms(2) False have "n \<noteq> name" by auto
      with 1 show ?thesis by (intro disjI1 exI[of _ n]) (simp add: delete_task_def)
    qed (simp add: delete_task_def)
  qed
qed

lemma call_step_inv:
  assumes "call_step (l, c) (l', c')" "call_inv l c"
  shows "call_inv l' c'"
  using assms
proof (cases rule: call_step.cases)
  case (start_put name interval)
  with assms(2) show ?thesis by (simp add: put_task_inv)
next
  case (stop_ticker name i)
  with assms(2) have inv: "tasks_inv None c" "ts_CloudTasks c name = Some i" by simp_all
  note i = tasks_invD(2-4)[OF inv]
  have "tasks_inv (Some i) (ticker_stop i c)" unfolding ticker_stop_def
    by (rule update_inv[OF inv(1) i(1)]) (use i(3) in \<open>simp_all add: stopped_def live_def\<close>)
  with stop_ticker inv(2) i show ?thesis by (simp add: ticker_stop_def live_def)
next
  case (stop_close name i)
  with assms(2) have inv: "tasks_inv (Some i) c" "ts_CloudTasks c name = Some i" "\<not> ct_TickerOn (ts_All c ! i)" "\<not> ct_StopperClosed (ts_All c ! i)"
    by simp_all
  note i = tasks_invD(2)[OF inv(1,2)]
  have "tasks_inv (Some i) (close_stopper i c)" using inv(3,4) update_inv[OF inv(1) i, of "(ts_All c ! i)\<lparr>ct_StopperClosed := True\<rparr>" "Some i"]
    by (simp add: close_stopper_def stopped_def live_def)
  with stop_close inv i show ?thesis by (simp add: close_stopper_def stopped_def)
next
  case (stop_delete name i)
  with assms(2) show ?thesis by (auto intro: delete_task_inv)
qed auto

lemma call_inv_tasks: "call_inv l c \<Longrightarrow> \<exists>busy. tasks_inv busy c"
  by (cases l) auto

lemma serial_step_inv:
  assumes "calls_step True x y" "serial_inv x"
  shows "serial_inv y"
  using assms
proof (induction rule: calls_step.induct)
  case (begin_start c interval calls name)
  then have "tasks_inv None c" by (auto simp: serial_inv_def list_all_length dest: nth_mem)
  with begin_start show ?case unfolding serial_inv_def
    by (auto simp: list_all_length nth_append intro!: exI[of _ "length calls"])
next
  case (begin_stop c calls name)
  then have "tasks_inv None c" by (auto simp: serial_inv_def list_all_length dest: nth_mem)
  with begin_stop show ?case unfolding serial_inv_def
    by (auto simp: list_all_length nth_append intro!: exI[of _ "length calls"])
next
  case (go_on c k calls l c')
  have "calls ! k \<noteq> CallReturned" using go_on(3) by (auto elim: call_stepE)
  with go_on(2,4) have "call_inv (calls ! k) c" "\<forall>j < length calls. j \<noteq> k \<longrightarrow> calls ! j = CallReturned"
    by (auto simp: serial_inv_def list_all_length)
  with call_step_inv[OF go_on(3)] go_on(2) show ?case unfolding serial_inv_def by (auto intro!: exI[of _ k])
next
  case (run c i ct calls)
  from run_inv[OF run(3,2)] run_inv[OF run(3,2), of CallReturned] run(4) show ?case unfolding serial_inv_def by auto
qed

lemma serial_reachable: "(calls_step True)\<^sup>*\<^sup>* (no_tasks, []) x \<Longrightarrow> serial_inv x"
  by (induction rule: rtranclp_induct) (auto intro: serial_inv_init serial_step_inv)

lemma serial_tasks:
  assumes "serial_inv (c, calls)"
  shows "\<exists>busy. tasks_inv busy c" and "list_all ((=) CallReturned) calls \<Longrightarrow> tasks_inv None c"
  using assms call_inv_tasks by (auto simp: serial_inv_def list_all_length)

subsection \<open>A stopped task ends\<close>

fun steps_left :: "run_location \<Rightarrow> nat" where
  "steps_left Returned = 0"
| "steps_left Selecting = 1"
| "steps_left Pausing = 2"
| "steps_left InTask = 3"

definition task_left :: "CloudTask \<Rightarrow> nat" where
  "task_left ct = steps_left (ct_At ct) + (if ct_Tick ct then 3 else 0)"

lemma stopped_step:
  assumes "run_step ct ct'" "stopped ct"
  shows "stopped ct' \<and> task_left ct' < task_left ct \<and>
    ct_Runs ct' + (if ct_Tick ct' then 1 else 0) \<le> ct_Runs ct + (if ct_Tick ct then 1 else 0)"
  using assms by (induction rule: run_step.induct) (auto simp: stopped_def task_left_def)

lemma stopped_run:
  "(run_step ^^ n) ct ct' \<Longrightarrow> stopped ct \<Longrightarrow> stopped ct' \<and> n + task_left ct' \<le> task_left ct \<and>
    ct_Runs ct' + (if ct_Tick ct' then 1 else 0) \<le> ct_Runs ct + (if ct_Tick ct then 1 else 0)"
proof (induction n arbitrary: ct')
  case (Suc n)
  from Suc.prems(1) obtain u where u: "(run_step ^^ n) ct u" "run_step u ct'" by auto
  from Suc.IH[OF u(1) Suc.prems(2)] stopped_step[OF u(2)] show ?case by (auto split: if_splits)
qed simp

lemma stopped_progress: "stopped ct \<Longrightarrow> ct_At ct \<noteq> Returned \<Longrightarrow> \<exists>ct'. run_step ct ct'"
  by (cases "ct_At ct") (auto simp: stopped_def intro: run_step.intros)

subsection \<open>Properties\<close>

text \<open>Two calls of the same kind that overlap.\<close>

lemma pair_steps:
  assumes "\<not> ts_Panicked c"
  shows "call_step (a, c) (l, c') \<Longrightarrow> calls_step serial (c, [a, b]) (c', [l, b])"
    and "call_step (b, c) (l, c') \<Longrightarrow> calls_step serial (c, [a, b]) (c', [a, l])"
  using go_on[OF assms, of 0 "[a, b]"] go_on[OF assms, of 1 "[a, b]"] by simp_all

lemma pair_begins:
  assumes "\<not> ts_Panicked c"
  shows "0 < interval \<Longrightarrow> (calls_step False)\<^sup>*\<^sup>* (c, []) (c, [StartAt name interval, StartAt name interval])"
    and "(calls_step False)\<^sup>*\<^sup>* (c, []) (c, [StopAt name, StopAt name])"
proof -
  show "(calls_step False)\<^sup>*\<^sup>* (c, []) (c, [StartAt name interval, StartAt name interval])" if "0 < interval"
    using begin_start[OF assms that, of False "[]" name] begin_start[OF assms that, of False "[StartAt name interval]" name]
    by (simp add: converse_rtranclp_into_rtranclp r_into_rtranclp)
  show "(calls_step False)\<^sup>*\<^sup>* (c, []) (c, [StopAt name, StopAt name])"
    using begin_stop[OF assms, of False "[]" name] begin_stop[OF assms, of False "[StopAt name]" name]
    by (simp add: converse_rtranclp_into_rtranclp r_into_rtranclp)
qed

lemma overlapping_starts:
  assumes "\<not> ts_Panicked c" "0 < interval" "ts_CloudTasks c name = None"
  shows "(calls_step False)\<^sup>*\<^sup>* (c, []) (put_task name interval (put_task name interval c), [CallReturned, CallReturned])"
proof -
  let ?a = "StartAt name interval" and ?n = "StartNew name interval" and ?c = "put_task name interval c"
  have ok: "\<not> ts_Panicked ?c" using assms(1,2) by (simp add: put_task_def)
  have "name \<notin> dom (ts_CloudTasks c)" using assms(3) by auto
  note looks = start_absent[OF this, of interval]
  note pair_begins(1)[OF assms(1,2), of name]
  also have "calls_step False (c, [?a, ?a]) (c, [?n, ?a])" by (rule pair_steps(1)[OF assms(1) looks])
  also have "calls_step False (c, [?n, ?a]) (c, [?n, ?n])" by (rule pair_steps(2)[OF assms(1) looks])
  also have "calls_step False (c, [?n, ?n]) (?c, [CallReturned, ?n])" by (rule pair_steps(1)[OF assms(1) start_put])
  also have "calls_step False (?c, [CallReturned, ?n]) (put_task name interval ?c, [CallReturned, CallReturned])"
    by (rule pair_steps(2)[OF ok start_put])
  finally show ?thesis .
qed

lemma overlapping_stops:
  assumes "\<not> ts_Panicked c" "ts_CloudTasks c name = Some i" "i < length (ts_All c)"
  shows "\<exists>d calls. (calls_step False)\<^sup>*\<^sup>* (c, []) (d, calls) \<and> ts_Panicked d"
proof -
  let ?a = "StopAt name" and ?f = "StopFound name i" and ?t = "StopTicking name i"
  let ?c1 = "ticker_stop i c" and ?c2 = "ticker_stop i (ticker_stop i c)" and ?c3 = "close_stopper i (ticker_stop i (ticker_stop i c))"
  have ok: "\<not> ts_Panicked ?c1" "\<not> ts_Panicked ?c2" using assms(1) by (simp_all add: ticker_stop_def)
  note looks = stop_found[OF assms(2)]
  note pair_begins(2)[OF assms(1), of name]
  also have "calls_step False (c, [?a, ?a]) (c, [?f, ?a])" by (rule pair_steps(1)[OF assms(1) looks])
  also have "calls_step False (c, [?f, ?a]) (c, [?f, ?f])" by (rule pair_steps(2)[OF assms(1) looks])
  also have "calls_step False (c, [?f, ?f]) (?c1, [?t, ?f])" by (rule pair_steps(1)[OF assms(1) stop_ticker])
  also have "calls_step False (?c1, [?t, ?f]) (?c2, [?t, ?t])" by (rule pair_steps(2)[OF ok(1) stop_ticker])
  also have "calls_step False (?c2, [?t, ?t]) (?c3, [StopClosed name i, ?t])" by (rule pair_steps(1)[OF ok(2) stop_close])
  finally have once: "(calls_step False)\<^sup>*\<^sup>* (c, []) (?c3, [StopClosed name i, ?t])" .
  show ?thesis
  proof (cases "ts_Panicked ?c3")
    case True
    with once show ?thesis by blast
  next
    case False
    then have "ts_Panicked (close_stopper i ?c3)" using ok(2) assms(3) by (simp add: close_stopper_def ticker_stop_def split: if_splits)
    with once pair_steps(2)[OF False stop_close] show ?thesis by (meson rtranclp.rtrancl_into_rtrancl)
  qed
qed

text \<open>C31: Tasks are unique when calls do not overlap. Let calls of \<open>StartTask\<close> and \<open>StopTask\<close> begin only when all earlier ones have returned, as they must
  since the code takes no lock (it has one caller, \<open>LoadBalancer\<close>), while tasks run at any time, also between two steps of a call. Then no
  channel is closed twice, there is at most one live task of each name, and when all calls have returned, starting a task that is there changes nothing, a
  stopped name is gone, and it can be started anew. Calls that overlap can break it: two that stop a task close its channel twice, and two that
  start a task leave two live tasks of one name.\<close>

theorem tasks_unique:
  assumes "(calls_step True)\<^sup>*\<^sup>* (no_tasks, []) (c, calls)" "0 < interval"
  shows "\<not> ts_Panicked c \<and>
    (\<forall>i < length (ts_All c). \<forall>j < length (ts_All c).
       live (ts_All c ! i) \<longrightarrow> live (ts_All c ! j) \<longrightarrow> ct_Name (ts_All c ! i) = ct_Name (ts_All c ! j) \<longrightarrow> i = j) \<and>
    (list_all ((=) CallReturned) calls \<longrightarrow>
       StartTask name interval' (StartTask name interval c) = StartTask name interval c \<and>
       ts_CloudTasks (StopTask name c) name = None \<and>
       (\<exists>i. ts_CloudTasks (StartTask name interval (StopTask name c)) name = Some i \<and>
          live (ts_All (StartTask name interval (StopTask name c)) ! i)) \<and>
       (ts_CloudTasks c name \<noteq> None \<longrightarrow> (\<exists>d calls'. (calls_step False)\<^sup>*\<^sup>* (c, []) (d, calls') \<and> ts_Panicked d)) \<and>
       (ts_CloudTasks c name = None \<longrightarrow> (\<exists>d calls' i j. (calls_step False)\<^sup>*\<^sup>* (c, []) (d, calls') \<and>
          i \<noteq> j \<and> i < length (ts_All d) \<and> j < length (ts_All d) \<and> live (ts_All d ! i) \<and> live (ts_All d ! j) \<and>
          ct_Name (ts_All d ! i) = name \<and> ct_Name (ts_All d ! j) = name)))"
proof -
  note inv = serial_tasks[OF serial_reachable[OF assms(1)]]
  obtain busy where busy: "tasks_inv busy c" using inv(1) by blast
  have "i = j" if "i < length (ts_All c)" "j < length (ts_All c)" "live (ts_All c ! i)" "live (ts_All c ! j)"
      "ct_Name (ts_All c ! i) = ct_Name (ts_All c ! j)" for i j
  proof -
    have "ts_CloudTasks c (ct_Name (ts_All c ! k)) = Some k" if k: "k < length (ts_All c)" and l: "live (ts_All c ! k)" for k
    proof -
      have "\<not> stopped (ts_All c ! k)" using l by (simp add: live_def stopped_def)
      with tasks_invD(5)[OF busy k] obtain n where n: "ts_CloudTasks c n = Some k" by blast
      with tasks_invD(3)[OF busy n] show ?thesis by simp
    qed
    from this[OF that(1,3)] this[OF that(2,4)] have "Some i = Some j" unfolding that(5) by (rule trans[OF sym])
    then show ?thesis by blast
  qed
  moreover have "StartTask name interval' (StartTask name interval c) = StartTask name interval c"
    using assms(2) by (auto simp: StartTask_def put_task_def dom_def)
  moreover have "ts_CloudTasks (StopTask name c) name = None \<and> \<not> ts_Panicked (StopTask name c)" if "list_all ((=) CallReturned) calls"
  proof (cases "ts_CloudTasks c name")
    case None
    with busy show ?thesis by (simp add: StopTask_def tasks_inv_def)
  next
    case (Some i)
    from tasks_invD(2,4)[OF inv(2)[OF that] Some] busy have "\<not> ts_Panicked (task_stop i c)"
      by (simp add: task_stop_def close_stopper_def ticker_stop_def live_def tasks_inv_def)
    with Some show ?thesis by (simp add: StopTask_def delete_task_def)
  qed
  moreover have "\<exists>i. ts_CloudTasks (StartTask name interval d) name = Some i \<and> live (ts_All (StartTask name interval d) ! i)"
    if "ts_CloudTasks d name = None" for d
    using that assms(2) by (auto simp: StartTask_def put_task_def live_def new_task_def)
  moreover have "\<exists>d calls'. (calls_step False)\<^sup>*\<^sup>* (c, []) (d, calls') \<and> ts_Panicked d" if "ts_CloudTasks c name \<noteq> None"
    using that overlapping_stops[OF tasks_invD(1)[OF busy] _ tasks_invD(2)[OF busy]] by blast
  moreover have "\<exists>d calls' i j. (calls_step False)\<^sup>*\<^sup>* (c, []) (d, calls') \<and>
      i \<noteq> j \<and> i < length (ts_All d) \<and> j < length (ts_All d) \<and> live (ts_All d ! i) \<and> live (ts_All d ! j) \<and>
      ct_Name (ts_All d ! i) = name \<and> ct_Name (ts_All d ! j) = name" if "ts_CloudTasks c name = None"
    by (rule exI, rule exI, rule exI[of _ "length (ts_All c)"], rule exI[of _ "Suc (length (ts_All c))"],
        rule conjI[OF overlapping_starts[OF tasks_invD(1)[OF busy] assms(2) that]])
      (use assms(2) in \<open>simp add: put_task_def new_task_def live_def nth_append\<close>)
  ultimately show ?thesis using tasks_invD(1)[OF busy] by blast
qed

theorem tasks_unique_witness:
  "let c = StartTask ''monitor'' 300 no_tasks in
   \<not> ts_Panicked c \<and> StartTask ''monitor'' 60 (StartTask ''monitor'' 300 c) = StartTask ''monitor'' 300 c \<and>
   ts_CloudTasks (StopTask ''monitor'' c) ''monitor'' = None \<and>
   (\<exists>d calls'. (calls_step False)\<^sup>*\<^sup>* (c, []) (d, calls') \<and> ts_Panicked d)"
proof -
  have ok: "\<not> ts_Panicked no_tasks" by (simp add: no_tasks_def)
  have "name \<notin> dom (ts_CloudTasks no_tasks)" for name by (simp add: no_tasks_def)
  note absent = start_absent[OF this]
  have "(calls_step True)\<^sup>*\<^sup>* (no_tasks, []) (no_tasks, [StartAt ''monitor'' 300])"
    using begin_start[OF ok, of 300 True "[]" "''monitor''"] by auto
  also have "calls_step True (no_tasks, [StartAt ''monitor'' 300]) (no_tasks, [StartNew ''monitor'' 300])"
    using go_on[OF ok, of 0 "[StartAt ''monitor'' 300]" _ _ True] absent by simp
  also have "calls_step True (no_tasks, [StartNew ''monitor'' 300]) (StartTask ''monitor'' 300 no_tasks, [CallReturned])"
    using go_on[OF ok, of 0 "[StartNew ''monitor'' 300]" CallReturned "StartTask ''monitor'' 300 no_tasks" True] start_put[of "''monitor''" 300 no_tasks]
    by (simp add: StartTask_def no_tasks_def)
  finally have started: "(calls_step True)\<^sup>*\<^sup>* (no_tasks, []) (StartTask ''monitor'' 300 no_tasks, [CallReturned])" .
  have "ts_CloudTasks (StartTask ''monitor'' 300 no_tasks) ''monitor'' \<noteq> None" by (simp add: StartTask_def put_task_def no_tasks_def)
  with tasks_unique[OF started, of 300 "''monitor''" 60] show ?thesis unfolding Let_def by simp
qed

text \<open>C32: A task that was stopped ends: its goroutine makes at most six more steps of its own, runs the function at most once more (for a tick
  that was already waiting), and cannot get stuck before it has returned.\<close>

theorem stopped_task_ends:
  assumes "stopped ct" "(run_step ^^ n) ct ct'"
  shows "n \<le> 6 \<and> ct_Runs ct' \<le> ct_Runs ct + 1 \<and> ((\<nexists>ct''. run_step ct' ct'') \<longrightarrow> ct_At ct' = Returned)"
proof -
  have "task_left ct \<le> 6" by (cases "ct_At ct") (auto simp: task_left_def)
  moreover have "stopped ct'" "n + task_left ct' \<le> task_left ct" "ct_Runs ct' \<le> ct_Runs ct + 1"
    using stopped_run[OF assms(2,1)] by (auto split: if_splits)
  ultimately show ?thesis using stopped_progress by auto
qed

theorem stopped_task_ends_witness:
  "let ct = \<lparr>ct_Name = ''monitor'', ct_Interval = 300, ct_TickerOn = False, ct_Tick = True, ct_StopperClosed = True, ct_FuncData = Map.empty,
       ct_At = Selecting, ct_Runs = 7\<rparr>
   in stopped ct \<and> (run_step ^^ 1) ct (ct\<lparr>ct_Tick := False, ct_At := InTask, ct_Runs := 8\<rparr>) \<and> (8::nat) \<le> 7 + 1"
proof -
  let ?ct = "\<lparr>ct_Name = ''monitor'', ct_Interval = 300, ct_TickerOn = False, ct_Tick = True, ct_StopperClosed = True, ct_FuncData = Map.empty,
       ct_At = Selecting, ct_Runs = 7\<rparr>"
  have s: "stopped ?ct" by (simp add: stopped_def)
  have "run_step ?ct (?ct\<lparr>ct_Tick := False, ct_At := InTask, ct_Runs := 8\<rparr>)" using run_step.tick[of ?ct] by simp
  then have run: "(run_step ^^ 1) ?ct (?ct\<lparr>ct_Tick := False, ct_At := InTask, ct_Runs := 8\<rparr>)" by (simp add: relcompp.simps)
  from stopped_task_ends[OF s run] s run show ?thesis by (simp add: Let_def)
qed

end
