(* ===== verification/Ibm_Sync.thy ===== *)
theory Ibm_Sync
  imports Prelude
begin

section \<open>Waking up threads that wait for nodes (\<open>ibm/ibm_vpc_cloud.go\<close>)\<close>

text \<open>
  \<open>VpcEnsureLoadBalancer\<close> without nodes waits on the channel \<open>CreateUpdateChan\<close>, up to ten times a minute; the first
  \<open>VpcUpdateLoadBalancer\<close> with nodes closes the channel and sets the variable to nil, protected by \<open>CreateUpdateMutex\<close>. Any number of
  threads run the two routines concurrently. Each access to the variable, the channel and the mutex is one step of a
  thread; all interleavings are considered. Closing a channel twice would panic.
\<close>

subsection \<open>Threads and steps\<close>

text \<open>
  Where a thread is. \<open>EnsureWait i\<close>: in the loop with counter \<open>i\<close>, holding the channel. \<open>UpdateLock\<close>: has seen the channel and waits
  for the mutex; \<open>UpdateLocked\<close>: has it; \<open>UpdateClose\<close>: has read a channel that is not nil; \<open>UpdateClear\<close>: has closed it;
  \<open>UpdateUnlock\<close>: about to release the mutex; \<open>UpdateDone\<close>: goes on with the update.
\<close>

datatype location =
    EnsureStart | EnsureWait nat | EnsureReturned
  | UpdateStart | UpdateLock | UpdateLocked | UpdateClose | UpdateClear | UpdateUnlock | UpdateDone

record sync =
  CreateUpdateChan :: bool
  chan_closed :: bool
  CreateUpdateMutex :: "nat option"
  panicked :: bool
  threads :: "location list"

abbreviation maxWait :: nat where "maxWait \<equiv> 10"

definition at :: "sync \<Rightarrow> nat \<Rightarrow> location \<Rightarrow> bool" where
  "at s i l \<longleftrightarrow> i < length (threads s) \<and> threads s ! i = l"

definition goto :: "nat \<Rightarrow> location \<Rightarrow> sync \<Rightarrow> sync" where
  "goto i l s = s\<lparr>threads := (threads s)[i := l]\<rparr>"

definition close_chan :: "sync \<Rightarrow> sync" where
  "close_chan s = (if chan_closed s then s\<lparr>panicked := True\<rparr> else s\<lparr>chan_closed := True\<rparr>)"

inductive ensure_step :: "nat \<Rightarrow> sync \<Rightarrow> sync \<Rightarrow> bool" where
  no_wait: "at s i EnsureStart \<Longrightarrow> \<not> CreateUpdateChan s \<Longrightarrow> ensure_step i s (goto i EnsureReturned s)"
| start_wait: "at s i EnsureStart \<Longrightarrow> CreateUpdateChan s \<Longrightarrow> ensure_step i s (goto i (EnsureWait 0) s)"
| woken: "at s i (EnsureWait k) \<Longrightarrow> chan_closed s \<Longrightarrow> ensure_step i s (goto i EnsureReturned s)"
| minute: "at s i (EnsureWait k) \<Longrightarrow>
    ensure_step i s (goto i (if k + 1 < maxWait then EnsureWait (k + 1) else EnsureReturned) s)"

inductive update_step :: "nat \<Rightarrow> sync \<Rightarrow> sync \<Rightarrow> bool" where
  nothing_to_do: "at s i UpdateStart \<Longrightarrow> \<not> CreateUpdateChan s \<Longrightarrow> update_step i s (goto i UpdateDone s)"
| seen: "at s i UpdateStart \<Longrightarrow> CreateUpdateChan s \<Longrightarrow> update_step i s (goto i UpdateLock s)"
| lock: "at s i UpdateLock \<Longrightarrow> CreateUpdateMutex s = None \<Longrightarrow>
    update_step i s (goto i UpdateLocked (s\<lparr>CreateUpdateMutex := Some i\<rparr>))"
| too_late: "at s i UpdateLocked \<Longrightarrow> \<not> CreateUpdateChan s \<Longrightarrow> update_step i s (goto i UpdateUnlock s)"
| still_there: "at s i UpdateLocked \<Longrightarrow> CreateUpdateChan s \<Longrightarrow> update_step i s (goto i UpdateClose s)"
| close: "at s i UpdateClose \<Longrightarrow> update_step i s (goto i UpdateClear (close_chan s))"
| clear: "at s i UpdateClear \<Longrightarrow> update_step i s (goto i UpdateUnlock (s\<lparr>CreateUpdateChan := False\<rparr>))"
| unlock: "at s i UpdateUnlock \<Longrightarrow> update_step i s (goto i UpdateDone (s\<lparr>CreateUpdateMutex := None\<rparr>))"

inductive sync_step :: "sync \<Rightarrow> sync \<Rightarrow> bool" where
  ensure: "ensure_step i s s' \<Longrightarrow> sync_step s s'"
| update: "update_step i s s' \<Longrightarrow> sync_step s s'"

text \<open>The start: an open channel, a free mutex, threads about to run one of the routines.\<close>

definition sync_init :: "location list \<Rightarrow> sync" where
  "sync_init ls = \<lparr>CreateUpdateChan = True, chan_closed = False, CreateUpdateMutex = None, panicked = False, threads = ls\<rparr>"

definition starting :: "location list \<Rightarrow> bool" where
  "starting ls = list_all (\<lambda>l. l = EnsureStart \<or> l = UpdateStart) ls"

inductive_cases ensure_stepE: "ensure_step i s s'"
inductive_cases update_stepE: "update_step i s s'"
inductive_cases sync_stepE: "sync_step s s'"

subsection \<open>The invariant\<close>

definition critical :: "location \<Rightarrow> bool" where
  "critical l \<longleftrightarrow> l \<in> {UpdateLocked, UpdateClose, UpdateClear, UpdateUnlock}"

text \<open>
  Nobody panicked; the threads in the critical section are exactly the owner of the mutex; the channel is closed exactly when the variable is nil
  or its owner is about to clear it; a thread that has read the channel under the mutex finds it still there; a thread beyond the section has
  seen it cleared; counters stay below the limit.
\<close>

definition sync_inv :: "sync \<Rightarrow> bool" where
  "sync_inv s \<longleftrightarrow> \<not> panicked s \<and>
     (\<forall>i < length (threads s). critical (threads s ! i) \<longleftrightarrow> CreateUpdateMutex s = Some i) \<and>
     (\<forall>i. CreateUpdateMutex s = Some i \<longrightarrow> i < length (threads s)) \<and>
     (chan_closed s \<longleftrightarrow> \<not> CreateUpdateChan s \<or> (\<exists>i. at s i UpdateClear)) \<and>
     (\<forall>i < length (threads s). threads s ! i = UpdateClose \<longrightarrow> CreateUpdateChan s \<and> \<not> chan_closed s) \<and>
     (\<forall>i < length (threads s). threads s ! i = UpdateClear \<longrightarrow> CreateUpdateChan s) \<and>
     (\<forall>i < length (threads s). threads s ! i = UpdateUnlock \<or> threads s ! i = UpdateDone \<longrightarrow> \<not> CreateUpdateChan s) \<and>
     (\<forall>i < length (threads s). \<forall>k. threads s ! i = EnsureWait k \<longrightarrow> k < maxWait)"

lemma sync_inv_init: "starting ls \<Longrightarrow> sync_inv (sync_init ls)"
  by (auto simp: sync_inv_def sync_init_def starting_def list_all_length at_def critical_def)

lemma threads_goto [simp]:
  "threads (goto i l s) = (threads s)[i := l]" "CreateUpdateChan (goto i l s) = CreateUpdateChan s" "chan_closed (goto i l s) = chan_closed s"
  "CreateUpdateMutex (goto i l s) = CreateUpdateMutex s" "panicked (goto i l s) = panicked s"
  by (simp_all add: goto_def)

lemma at_goto [simp]: "at (goto i l s) j l' \<longleftrightarrow> (if j = i then i < length (threads s) \<and> l = l' else at s j l')"
  by (auto simp: at_def)

definition before_section :: "location \<Rightarrow> bool" where
  "before_section l = (case l of EnsureStart \<Rightarrow> True | EnsureWait k \<Rightarrow> k < maxWait | EnsureReturned \<Rightarrow> True
     | UpdateStart \<Rightarrow> True | UpdateLock \<Rightarrow> True | _ \<Rightarrow> False)"

lemma sync_inv_before:
  assumes "sync_inv s" "at s i l" "before_section l" "before_section l'"
  shows "sync_inv (goto i l' s)"
proof -
  have l: "\<not> critical l" "\<not> critical l'" "l \<notin> {UpdateClose, UpdateClear, UpdateUnlock, UpdateDone}"
    "l' \<notin> {UpdateClose, UpdateClear, UpdateUnlock, UpdateDone}" "l' = EnsureWait k \<Longrightarrow> k < maxWait" for k
    using assms(3,4) by (auto simp: before_section_def critical_def split: location.splits)
  have "at (goto i l' s) j UpdateClear \<longleftrightarrow> at s j UpdateClear" for j
    using assms(2) l(3,4) by (auto simp: at_def nth_list_update)
  then have "(\<exists>j. at (goto i l' s) j UpdateClear) \<longleftrightarrow> (\<exists>j. at s j UpdateClear)" by blast
  with assms(1,2) l show ?thesis
    unfolding sync_inv_def by (auto simp: nth_list_update at_def)
qed

lemma ensure_step_inv: "ensure_step i s s' \<Longrightarrow> sync_inv s \<Longrightarrow> sync_inv s'"
proof (induction rule: ensure_step.induct)
  case (minute s i k)
  then have "k < maxWait" by (auto simp: sync_inv_def at_def)
  then show ?case
    by (intro sync_inv_before[OF minute.prems minute.hyps]) (auto simp: before_section_def)
next
  case (woken s i k)
  then have "k < maxWait" by (auto simp: sync_inv_def at_def)
  then show ?case by (intro sync_inv_before[OF woken.prems woken.hyps(1)]) (auto simp: before_section_def)
qed (auto intro!: sync_inv_before simp: before_section_def)

lemma owner_unique: "sync_inv s \<Longrightarrow> at s i l \<Longrightarrow> critical l \<Longrightarrow> at s j l' \<Longrightarrow> critical l' \<Longrightarrow> j = i"
  by (auto simp: sync_inv_def at_def)

lemma others_not_critical:
  assumes "sync_inv s" "at s i l" "critical l" "j < length (threads s)" "j \<noteq> i"
  shows "\<not> critical (threads s ! j)" "threads s ! j \<noteq> UpdateClose" "threads s ! j \<noteq> UpdateClear"
proof -
  show "\<not> critical (threads s ! j)" using owner_unique[OF assms(1-3), of j "threads s ! j"] assms(4,5) by (auto simp: at_def)
  then show "threads s ! j \<noteq> UpdateClose" "threads s ! j \<noteq> UpdateClear" by (auto simp: critical_def)
qed

lemma critical_simps [simp]:
  "critical UpdateLocked" "critical UpdateClose" "critical UpdateClear" "critical UpdateUnlock"
  "\<not> critical UpdateStart" "\<not> critical UpdateLock" "\<not> critical UpdateDone"
  by (simp_all add: critical_def)

lemma update_step_inv: "update_step i s s' \<Longrightarrow> sync_inv s \<Longrightarrow> sync_inv s'"
proof (induction rule: update_step.induct)
  case (nothing_to_do s i)
  then show ?case by (auto simp: sync_inv_def at_def nth_list_update)
next
  case (seen s i)
  then show ?case by (auto intro!: sync_inv_before simp: before_section_def)
next
  case (lock s i)
  then show ?case by (auto simp: sync_inv_def at_def nth_list_update)
next
  case (too_late s i)
  note others_not_critical[OF too_late(3,1)]
  with too_late show ?case by (auto simp: sync_inv_def at_def nth_list_update)
next
  case (still_there s i)
  have "\<not> chan_closed s"
  proof
    assume "chan_closed s"
    then obtain j where "at s j UpdateClear" using still_there by (auto simp: sync_inv_def)
    then show False using still_there others_not_critical(3)[OF still_there(3,1), of j] by (cases "j = i") (auto simp: at_def)
  qed
  with still_there show ?case by (auto simp: sync_inv_def at_def nth_list_update)
next
  case (close s i)
  then have "\<not> chan_closed s" "CreateUpdateChan s" by (auto simp: sync_inv_def at_def)
  with close others_not_critical[OF close(2,1)] show ?case
    by (auto simp: sync_inv_def at_def nth_list_update close_chan_def)
next
  case (clear s i)
  with others_not_critical[OF clear(2,1)] show ?case by (auto simp: sync_inv_def at_def nth_list_update)
next
  case (unlock s i)
  with others_not_critical[OF unlock(2,1)] show ?case by (auto simp: sync_inv_def at_def nth_list_update)
qed

lemma sync_step_inv: "sync_step s s' \<Longrightarrow> sync_inv s \<Longrightarrow> sync_inv s'"
  by (auto elim: sync_stepE intro: ensure_step_inv update_step_inv)

lemma sync_reachable_inv: "sync_step\<^sup>*\<^sup>* (sync_init ls) s \<Longrightarrow> starting ls \<Longrightarrow> sync_inv s"
  by (induction rule: rtranclp_induct) (auto intro: sync_inv_init sync_step_inv)

subsection \<open>Every run ends\<close>

fun remaining :: "location \<Rightarrow> nat" where
  "remaining EnsureStart = 12"
| "remaining (EnsureWait k) = 11 - k"
| "remaining UpdateStart = 7"
| "remaining UpdateLock = 6"
| "remaining UpdateLocked = 5"
| "remaining UpdateClose = 4"
| "remaining UpdateClear = 3"
| "remaining UpdateUnlock = 2"
| "remaining EnsureReturned = 0"
| "remaining UpdateDone = 0"

definition work_left :: "sync \<Rightarrow> nat" where
  "work_left s = sum_list (map remaining (threads s))"

lemma work_left_goto:
  assumes "at s i l" "remaining l' < remaining l"
  shows "work_left (goto i l' s) < work_left s"
proof -
  have i: "i < length (threads s)" "remaining (threads s ! i) = remaining l" using assms(1) by (auto simp: at_def)
  then have "remaining l \<le> sum_list (map remaining (threads s))" using elem_le_sum_list[of i "map remaining (threads s)"] by simp
  with i assms(2) show ?thesis
    by (simp add: work_left_def map_update sum_list_update)
qed

lemma work_left_threads [simp]:
  "work_left (goto i l (s\<lparr>CreateUpdateMutex := m\<rparr>)) = work_left (goto i l s)"
  "work_left (goto i l (s\<lparr>CreateUpdateChan := b\<rparr>)) = work_left (goto i l s)"
  "work_left (goto i l (close_chan s)) = work_left (goto i l s)"
  by (simp_all add: work_left_def goto_def close_chan_def)

lemma sync_step_decreases: "sync_step s s' \<Longrightarrow> sync_inv s \<Longrightarrow> work_left s' < work_left s"
proof (induction rule: sync_step.induct)
  case (ensure i s s')
  have "k < maxWait" if "at s i (EnsureWait k)" for k using that ensure(2) by (auto simp: sync_inv_def at_def)
  with ensure(1) show ?case by (cases rule: ensure_step.cases) (fastforce intro: work_left_goto)+
next
  case (update i s s')
  from update(1) show ?case by (cases rule: update_step.cases) (fastforce intro: work_left_goto)+
qed

lemma sync_run_bounded:
  "(sync_step ^^ n) s s' \<Longrightarrow> sync_inv s \<Longrightarrow> n + work_left s' \<le> work_left s \<and> sync_inv s'"
proof (induction n arbitrary: s')
  case (Suc n)
  from Suc.prems(1) obtain t where t: "(sync_step ^^ n) s t" "sync_step t s'" by auto
  with Suc.IH[OF t(1) Suc.prems(2)] have "n + work_left t \<le> work_left s" "sync_inv t" by auto
  with sync_step_decreases[OF t(2)] sync_step_inv[OF t(2)] show ?case by simp
qed simp

definition finished :: "location \<Rightarrow> bool" where
  "finished l \<longleftrightarrow> l = EnsureReturned \<or> l = UpdateDone"

lemma work_left_init: "starting ls \<Longrightarrow> work_left (sync_init ls) \<le> 12 * length ls"
  by (induction ls) (auto simp: work_left_def sync_init_def starting_def)

text \<open>Some thread can go on as long as one is not finished: the owner of the mutex if there is one, else anyone.\<close>

lemma sync_progress:
  assumes "sync_inv s" "at s i l" "\<not> finished l"
  shows "\<exists>s'. sync_step s s'"
proof (cases "CreateUpdateMutex s")
  case None
  then have "\<not> critical l" using assms(1,2) by (auto simp: sync_inv_def at_def)
  with assms(2,3) None show ?thesis
    by (cases l; cases "CreateUpdateChan s")
      (auto simp: finished_def critical_def intro: sync_step.intros ensure_step.intros update_step.intros)
next
  case (Some j)
  then have j: "at s j (threads s ! j)" "critical (threads s ! j)" using assms(1) by (auto simp: sync_inv_def at_def)
  then show ?thesis
    by (cases "threads s ! j"; cases "CreateUpdateChan s")
      (auto simp: critical_def intro: sync_step.intros update_step.intros)
qed

subsection \<open>Properties\<close>

text \<open>C29: However the threads interleave, the channel is closed at most once (no panic), at most one thread is in the section that the
  mutex protects, and a thread that goes on with an update has the channel closed and cleared behind it, so that every waiting
  thread can return at once.\<close>

theorem channel_closed_once:
  assumes "starting ls" "sync_step\<^sup>*\<^sup>* (sync_init ls) s"
  shows "\<not> panicked s \<and>
    (\<forall>i j l l'. at s i l \<longrightarrow> critical l \<longrightarrow> at s j l' \<longrightarrow> critical l' \<longrightarrow> i = j) \<and>
    (\<forall>i. at s i UpdateDone \<longrightarrow> chan_closed s \<and> \<not> CreateUpdateChan s \<and>
       (\<forall>j k. at s j (EnsureWait k) \<longrightarrow> sync_step s (goto j EnsureReturned s)))"
proof -
  have inv: "sync_inv s" by (rule sync_reachable_inv[OF assms(2,1)])
  have "chan_closed s \<and> \<not> CreateUpdateChan s" if "at s i UpdateDone" for i
    using inv that unfolding sync_inv_def at_def by blast
  moreover have "sync_step s (goto j EnsureReturned s)" if "chan_closed s" "at s j (EnsureWait k)" for j k
    using that by (blast intro: sync_step.ensure ensure_step.woken)
  moreover have "\<not> panicked s" using inv by (simp add: sync_inv_def)
  ultimately show ?thesis using owner_unique[OF inv] by metis
qed

theorem channel_closed_once_witness:
  "\<exists>s. sync_step\<^sup>*\<^sup>* (sync_init [EnsureStart, UpdateStart]) s \<and> at s 1 UpdateStart \<and> at s 0 (EnsureWait 0) \<and> \<not> panicked s"
proof -
  let ?s = "goto 0 (EnsureWait 0) (sync_init [EnsureStart, UpdateStart])"
  have start: "starting [EnsureStart, UpdateStart]" by (simp add: starting_def)
  have "at (sync_init [EnsureStart, UpdateStart]) 0 EnsureStart" "CreateUpdateChan (sync_init [EnsureStart, UpdateStart])"
    by (simp_all add: at_def sync_init_def)
  from sync_step.ensure[OF ensure_step.start_wait[OF this]] have "sync_step\<^sup>*\<^sup>* (sync_init [EnsureStart, UpdateStart]) ?s" by blast
  with channel_closed_once[OF start this] show ?thesis
    by (intro exI[of _ ?s]) (simp add: at_def sync_init_def)
qed

text \<open>C30: Every run of the threads ends after at most twelve steps per thread, and it ends with every thread returned: no thread waits for
  ever, neither for nodes nor for the mutex.\<close>

theorem waiting_ends:
  assumes "starting ls" "(sync_step ^^ n) (sync_init ls) s"
  shows "n \<le> 12 * length ls \<and> ((\<nexists>s'. sync_step s s') \<longrightarrow> list_all finished (threads s))"
proof -
  have "n + work_left s \<le> work_left (sync_init ls)" and inv: "sync_inv s"
    using sync_run_bounded[OF assms(2) sync_inv_init[OF assms(1)]] by auto
  moreover have "list_all finished (threads s)" if "\<nexists>s'. sync_step s s'"
    using sync_progress[OF inv] that unfolding list_all_length by (metis at_def)
  ultimately show ?thesis using work_left_init[OF assms(1)] by auto
qed

theorem waiting_ends_witness:
  "\<exists>s. (sync_step ^^ 1) (sync_init [EnsureStart]) s \<and> (1::nat) \<le> 12 * length [EnsureStart] \<and> at s 0 (EnsureWait 0)"
proof -
  let ?s = "goto 0 (EnsureWait 0) (sync_init [EnsureStart])"
  have "at (sync_init [EnsureStart]) 0 EnsureStart" "CreateUpdateChan (sync_init [EnsureStart])" by (simp_all add: at_def sync_init_def)
  from sync_step.ensure[OF ensure_step.start_wait[OF this]] have run: "(sync_step ^^ 1) (sync_init [EnsureStart]) ?s" by (simp add: relcompp.simps)
  have "starting [EnsureStart]" by (simp add: starting_def)
  from waiting_ends[OF this run] run show ?thesis by (intro exI[of _ ?s]) (simp add: at_def sync_init_def)
qed

end
