(* ===== verification/Ibm_Cloud.thy ===== *)
theory Ibm_Cloud
  imports Vpc_Gen2 Ibm_Metadata Ibm_Tasks Ibm_Sync
begin

section \<open>The cloud provider object (\<open>ibm/*.go\<close>, \<open>pkg/classic\<close>)\<close>

text \<open>
  The interfaces that the Kubernetes controllers call, on top of the VPC provider. The state of the process is the world \<open>'s\<close> behind
  the clients together with what the program keeps in memory: the VPC object (a global variable of \<open>vpcctl\<close>), the channel
  variable of \<open>Ibm_Sync\<close> (\<open>True\<close> while it is not nil), the metadata service and the tasks. The clients, the environment and the file
  system are fields of \<open>Platform\<close>. Logging has no effect here.
\<close>

subsection \<open>State and platform\<close>

record 's Process =
  pr_World :: 's
  pr_CloudVpc :: "'s CloudVpc option"
  pr_CreateUpdateChan :: bool
  pr_Metadata :: "'s MetadataService option"
  pr_Tasks :: Tasks

text \<open>
  \<open>pf_Select\<close> is one round of waiting for the channel or for a minute to pass: whether the channel was ready, and the world afterwards.
  The other fields are the constructors of the clients, their defaults, and the calls made to Kubernetes and the system.
\<close>

record 's Platform =
  pf_Runtime :: "'s Runtime"
  pf_Getenv :: "'s \<Rightarrow> string \<Rightarrow> string"
  pf_ReadFile :: "string \<Rightarrow> ('s, string) io"
  pf_Select :: "'s \<Rightarrow> bool \<times> 's"
  pf_ListServices :: "('s, Service list) io"
  pf_NewVpcV1 :: "string \<Rightarrow> string \<Rightarrow> string \<Rightarrow> ('s, 's VpcV1) io"
  pf_RmServiceURL :: string
  pf_NewResourceManager :: "string \<Rightarrow> string \<Rightarrow> string \<Rightarrow> ('s, 's GroupLookup) io"
  pf_start_of :: "string \<Rightarrow> string res"
  pf_pages :: nat
  pf_NewVpcSdkFake :: "('s, 's CloudVpcSdk) io"

record 's CloudEventRecorder =
  cer_Name :: string
  cer_Recorder :: "(Event \<Rightarrow> 's \<Rightarrow> 's) option"

text \<open>The classic provider, whose operations are all unsupported.\<close>

record classic_CloudConfig =
  clc_APIKeySecretPath :: string
  clc_Application :: string
  clc_CalicoDatastore :: string
  clc_ConfigFilePath :: string
  clc_ClusterID :: string
  clc_Region :: string
  clc_IKSPrivateEndpointHostname :: string
  clc_Image :: string
  clc_VlanIPConfigMap :: string

record classic_Cloud =
  clc_Config :: "classic_CloudConfig option"

record 's Cloud =
  cloud_Name :: string
  cloud_Config :: "CloudConfig option"
  cloud_Recorder :: "'s CloudEventRecorder option"
  cloud_ClassicCloud :: "classic_Cloud option"

definition inWorld :: "('s, 'a) io \<Rightarrow> ('s Process, 'a) io" where
  "inWorld m p = (case m (pr_World p) of (r, s) \<Rightarrow> (r, p\<lparr>pr_World := s\<rparr>))"

definition config_of :: "'s Cloud \<Rightarrow> ('p, CloudConfig) io" where
  "config_of c = (case cloud_Config c of None \<Rightarrow> raiseM nil_dereference | Some config \<Rightarrow> returnM config)"

subsection \<open>The classic provider (\<open>pkg/classic\<close>)\<close>

definition classic_NewCloud :: "classic_CloudConfig \<Rightarrow> classic_Cloud" where
  "classic_NewCloud config = \<lparr>clc_Config = Some config\<rparr>"

definition classic_GetCloudProviderLoadBalancerName :: "Service \<Rightarrow> string" where
  "classic_GetCloudProviderLoadBalancerName service =
     (let ret = RemoveAll (CHR ''-'') (''a'' @ svc_UID service) in if length ret > 32 then take 32 ret else ret)"

definition classic_GetLoadBalancer :: "classic_Cloud option \<Rightarrow> Service \<Rightarrow> ('s, LoadBalancerStatus option \<times> bool) io" where
  "classic_GetLoadBalancer c service = raiseM (Err ''cloud provider does not support GetLoadBalancer interface'')"

definition classic_EnsureLoadBalancer :: "classic_Cloud option \<Rightarrow> Service \<Rightarrow> Node list \<Rightarrow> ('s, LoadBalancerStatus) io" where
  "classic_EnsureLoadBalancer c service nodes = raiseM (Err ''cloud provider does not support EnsureLoadBalancer interface'')"

definition classic_UpdateLoadBalancer :: "classic_Cloud option \<Rightarrow> Service \<Rightarrow> Node list \<Rightarrow> ('s, unit) io" where
  "classic_UpdateLoadBalancer c service nodes = raiseM (Err ''cloud provider does not support UpdateLoadBalancer interface'')"

definition classic_EnsureLoadBalancerDeleted :: "classic_Cloud option \<Rightarrow> Service \<Rightarrow> ('s, unit) io" where
  "classic_EnsureLoadBalancerDeleted c service = raiseM (Err ''cloud provider does not support EnsureLoadBalancerDeleted interface'')"

definition classic_SetInformers :: "classic_Cloud option \<Rightarrow> ('s, unit) io" where
  "classic_SetInformers c = returnM ()"

definition classic_MonitorLoadBalancers :: "classic_Cloud option \<Rightarrow> Service list \<Rightarrow> LbStatus \<Rightarrow> ('s, LbStatus) io" where
  "classic_MonitorLoadBalancers c services data = returnM data"

subsection \<open>Events (\<open>ibm_eventrecorder.go\<close>)\<close>

definition CreatingCloudLoadBalancerFailed :: string where "CreatingCloudLoadBalancerFailed = ''CreatingCloudLoadBalancerFailed''"
definition UpdatingCloudLoadBalancerFailed :: string where "UpdatingCloudLoadBalancerFailed = ''UpdatingCloudLoadBalancerFailed''"
definition DeletingCloudLoadBalancerFailed :: string where "DeletingCloudLoadBalancerFailed = ''DeletingCloudLoadBalancerFailed''"
definition GettingCloudLoadBalancerFailed :: string where "GettingCloudLoadBalancerFailed = ''GettingCloudLoadBalancerFailed''"
definition VerifyingCloudLoadBalancerFailed :: string where "VerifyingCloudLoadBalancerFailed = ''VerifyingCloudLoadBalancerFailed''"

definition GetCloudProviderLoadBalancerName :: "Service \<Rightarrow> string" where
  "GetCloudProviderLoadBalancerName service =
     (let ret = RemoveAll (CHR ''-'') (''a'' @ svc_UID service) in if length ret > 32 then take 32 ret else ret)"

text \<open>\<open>recorder\<close> is what the event broadcaster of \<open>client-go\<close> makes for the component name.\<close>

definition NewCloudEventRecorderV1 :: "string \<Rightarrow> (string \<Rightarrow> Event \<Rightarrow> 's \<Rightarrow> 's) \<Rightarrow> 's CloudEventRecorder" where
  "NewCloudEventRecorderV1 providerName newRecorder =
     (let name = providerName @ ''-cloud-provider'' in \<lparr>cer_Name = name, cer_Recorder = Some (newRecorder name)\<rparr>)"

definition NewCloudEventRecorder :: "string \<Rightarrow> (string \<Rightarrow> Event \<Rightarrow> 's \<Rightarrow> 's) \<Rightarrow> 's CloudEventRecorder" where
  "NewCloudEventRecorder providerName newRecorder = NewCloudEventRecorderV1 providerName newRecorder"

text \<open>Both routines record the event and return its text as an error; a nil recorder is a nil dereference.\<close>

definition warningEvent :: "'s CloudEventRecorder option \<Rightarrow> Service \<Rightarrow> string \<Rightarrow> string \<Rightarrow> string \<Rightarrow> ('s, 'a) io" where
  "warningEvent c lbService reason lbName errorMessage s =
     (let message = ''Error on cloud load balancer '' @ lbName @ '' for service '' @ NamespacedName lbService @
            '' with UID '' @ svc_UID lbService @ '': '' @ errorMessage
      in case c of
           None \<Rightarrow> (Inl nil_dereference, s)
         | Some r \<Rightarrow>
             (case cer_Recorder r of
                None \<Rightarrow> (Inl nil_dereference, s)
              | Some record \<Rightarrow> (Inl (Err message), record (service_event lbService EventTypeWarning reason message) s)))"

definition LoadBalancerServiceWarningEvent :: "'s CloudEventRecorder option \<Rightarrow> Service \<Rightarrow> string \<Rightarrow> string \<Rightarrow> ('s, 'a) io" where
  "LoadBalancerServiceWarningEvent c lbService reason errorMessage =
     warningEvent c lbService reason (GetCloudProviderLoadBalancerName lbService) errorMessage"

definition VpcLoadBalancerServiceWarningEvent ::
  "'s CloudEventRecorder option \<Rightarrow> Service \<Rightarrow> string \<Rightarrow> string \<Rightarrow> string \<Rightarrow> ('s, 'a) io" where
  "VpcLoadBalancerServiceWarningEvent c lbService reason lbName errorMessage = warningEvent c lbService reason lbName errorMessage"

subsection \<open>The VPC object (\<open>ibm_vpc_cloud.go\<close>)\<close>

definition envVarPublicEndPoint :: string where "envVarPublicEndPoint = ''ENABLE_VPC_PUBLIC_ENDPOINT''"

definition shouldPrivateEndpointBeEnabled :: "'s Platform \<Rightarrow> 's \<Rightarrow> bool" where
  "shouldPrivateEndpointBeEnabled pf s \<longleftrightarrow> ToLower (pf_Getenv pf s envVarPublicEndPoint) \<noteq> ''true''"

definition Cloud_isProviderVpc :: "'s Cloud \<Rightarrow> ('p, bool) io" where
  "Cloud_isProviderVpc c = bindM (config_of c) (\<lambda>config. returnM (prov_ProviderType (cc_Prov config) = VpcProviderTypeGen2))"

text \<open>The fields that \<open>config_initialize\<close> fills in later start out empty.\<close>

definition NewConfigVpc :: "'s Platform \<Rightarrow> 's Cloud \<Rightarrow> bool \<Rightarrow> ('s, ConfigVpc) io" where
  "NewConfigVpc pf c enablePrivateEndpoint =
     (case cloud_Config c of
        None \<Rightarrow> raiseM (Err ''Cloud config not initialized'')
      | Some cloudConfig \<Rightarrow>
          let prov = cc_Prov cloudConfig;
              config = \<lparr>cfg_AccountID = prov_AccountID prov, cfg_APIKeySecret = [], cfg_ClusterID = prov_ClusterID prov,
                cfg_EnablePrivate = enablePrivateEndpoint, cfg_IamEndpointOverride = prov_IamEndpointOverride prov,
                cfg_IKSPrivateEndpointHostname = prov_IKSPrivateEndpointHostname prov, cfg_ProviderType = prov_ProviderType prov,
                cfg_Region = prov_Region prov, cfg_ResourceGroupName = prov_G2ResourceGroupName prov,
                cfg_RmEndpointOverride = prov_RmEndpointOverride prov, cfg_SubnetNames = prov_G2VpcSubnetNames prov,
                cfg_WorkerAccountID = prov_G2WorkerServiceAccountID prov, cfg_VpcName = prov_G2VpcName prov,
                cfg_VpcEndpointOverride = prov_G2EndpointOverride prov, cfg_endpointURL = [], cfg_resourceGroupID = [],
                cfg_tokenExchangeURL = []\<rparr>
          in if prov_G2Credentials prov \<noteq> []
             then
               tryM (pf_ReadFile pf (prov_G2Credentials prov))
                 (\<lambda>err. raiseM (Err (''Failed to read credentials from '' @ prov_G2Credentials prov @ '': '' @ err)))
                 (\<lambda>fileData.
                    let key = TrimSpace fileData in
                    returnM (config\<lparr>cfg_APIKeySecret := (if Contains key '' '' then [] else key)\<rparr>))
             else returnM config)"

definition newVpcSdk :: "'s Platform \<Rightarrow> ConfigVpc \<Rightarrow> ('s, 's CloudVpcSdk) io" where
  "newVpcSdk pf config =
     bindM (NewVpcSdkGen2 (pf_NewVpcV1 pf) (pf_RmServiceURL pf) (pf_NewResourceManager pf) (pf_start_of pf) (pf_pages pf) config)
       (\<lambda>v. returnM (VpcSdkGen2_sdk v))"

definition Cloud_GetCloudVpc :: "'s Process \<Rightarrow> 's CloudVpc option" where
  [simp]: "Cloud_GetCloudVpc p = GetCloudVpc (pr_CloudVpc p)"

definition InitCloudVpc :: "'s Platform \<Rightarrow> 's Cloud \<Rightarrow> bool \<Rightarrow> ('s Process, 's CloudVpc) io" where
  "InitCloudVpc pf c enablePrivateEndpoint p =
     (case Cloud_GetCloudVpc p of
        Some cloudVpc \<Rightarrow> (Inr cloudVpc, p)
      | None \<Rightarrow>
          bindM (inWorld (NewConfigVpc pf c enablePrivateEndpoint)) (\<lambda>config p.
            let recorder = (case cloud_Recorder c of None \<Rightarrow> None | Some r \<Rightarrow> cer_Recorder r) in
            case NewCloudVpc (newVpcSdk pf) (pf_NewVpcSdkFake pf) (Some config) recorder (pr_CloudVpc p) (pr_World p) of
              ((r, vpc), s) \<Rightarrow> (r, p\<lparr>pr_World := s, pr_CloudVpc := vpc\<rparr>)) p)"

text \<open>The common start of the operations below: get the VPC object, or report that it cannot be made.\<close>

definition withVpc ::
  "'s Platform \<Rightarrow> 's Cloud \<Rightarrow> (string \<Rightarrow> ('s Process, 'a) io) \<Rightarrow> ('s CloudVpc \<Rightarrow> ('s Process, 'a) io) \<Rightarrow> ('s Process, 'a) io" where
  "withVpc pf c failed m p =
     tryM (InitCloudVpc pf c (shouldPrivateEndpointBeEnabled pf (pr_World p)))
       (\<lambda>err. failed (''Failed initializing VPC: '' @ err)) m p"

definition vpcGetLoadBalancerName :: "'s Cloud \<Rightarrow> Service \<Rightarrow> ('p, string) io" where
  "vpcGetLoadBalancerName c service =
     bindM (config_of c) (\<lambda>config. returnM (GenerateLoadBalancerName service (prov_ClusterID (cc_Prov config))))"

text \<open>
  The text about a service in the log. \<open>keys\<close> are the keys of its annotations, in any order; \<open>fmt\<close> prints a map sorted by keys, a slice in brackets and a
  structure in braces with its field names.
\<close>

definition vpcGetServiceDetails :: "string list \<Rightarrow> Service option \<Rightarrow> string" where
  "vpcGetServiceDetails keys service =
     (case service of
        None \<Rightarrow> ''<nil>''
      | Some service \<Rightarrow>
          let annotations = map (\<lambda>k. k @ '':'' @ the (svc_Annotations service k))
                (sort_Strings (filter (\<lambda>k. svc_Annotations service k \<noteq> None \<and> Contains k ''ibm-load-balancer-cloud-provider'') keys));
              ports = map (\<lambda>port. ToLower (sp_Protocol port @ ''-'' @ show_int (sint (sp_Port port)) @ ''-'' @ show_int (sint (sp_NodePort port))))
                (svc_Ports service);
              status = map (\<lambda>ingress. ''{Hostname:'' @ ing_Hostname ingress @ '' IP:'' @ ing_IP ingress @ ''}'')
                (case svc_Ingress service of None \<Rightarrow> [] | Some is \<Rightarrow> is)
          in ''Name:'' @ svc_Name service @ '' NameSpace:'' @ svc_Namespace service @ '' UID:'' @ svc_UID service @
             '' Annotations:map['' @ Join '' '' annotations @ ''] Ports:['' @ Join '' '' ports @ ''] ExternalTrafficPolicy:'' @
             svc_ExternalTrafficPolicy service @ '' HealthCheckNodePort:'' @ show_int (sint (svc_HealthCheckNodePort service)) @
             '' Status:['' @ Join '' '' status @ '']'')"

subsection \<open>Load balancers\<close>

abbreviation no_nodes_error :: go_err where
  "no_nodes_error \<equiv> Err ''There are no available nodes for LoadBalancer''"

text \<open>Without nodes the call waits for the channel, at most ten times a minute, unless the channel is gone already.\<close>

fun waitForNodes :: "'s Platform \<Rightarrow> nat \<Rightarrow> 's \<Rightarrow> 's" where
  "waitForNodes pf 0 s = s"
| "waitForNodes pf (Suc n) s = (case pf_Select pf s of (ready, s') \<Rightarrow> if ready then s' else waitForNodes pf n s')"

definition VpcEnsureLoadBalancer :: "'s Platform \<Rightarrow> 's Cloud \<Rightarrow> Service \<Rightarrow> Node list \<Rightarrow> ('s Process, LoadBalancerStatus) io" where
  "VpcEnsureLoadBalancer pf c service nodes =
     bindM (vpcGetLoadBalancerName c service) (\<lambda>lbName.
     if length nodes = 0
     then (\<lambda>p. (Inl no_nodes_error,
       if pr_CreateUpdateChan p then p\<lparr>pr_World := waitForNodes pf maxWait (pr_World p)\<rparr> else p))
     else withVpc pf c
       (\<lambda>errString. inWorld (VpcLoadBalancerServiceWarningEvent (cloud_Recorder c) service CreatingCloudLoadBalancerFailed lbName errString))
       (\<lambda>vpc. inWorld (EnsureLoadBalancer (pf_Runtime pf) vpc lbName (Some service) (Some nodes))))"

definition VpcEnsureLoadBalancerDeleted :: "'s Platform \<Rightarrow> 's Cloud \<Rightarrow> Service \<Rightarrow> ('s Process, unit) io" where
  "VpcEnsureLoadBalancerDeleted pf c service =
     bindM (vpcGetLoadBalancerName c service) (\<lambda>lbName.
     withVpc pf c
       (\<lambda>errString. inWorld (VpcLoadBalancerServiceWarningEvent (cloud_Recorder c) service DeletingCloudLoadBalancerFailed lbName errString))
       (\<lambda>vpc. inWorld (EnsureLoadBalancerDeleted vpc lbName (Some service))))"

definition VpcGetLoadBalancer :: "'s Platform \<Rightarrow> 's Cloud \<Rightarrow> Service \<Rightarrow> ('s Process, LoadBalancerStatus option \<times> bool) io" where
  "VpcGetLoadBalancer pf c service =
     bindM (vpcGetLoadBalancerName c service) (\<lambda>lbName.
     withVpc pf c
       (\<lambda>errString. inWorld (VpcLoadBalancerServiceWarningEvent (cloud_Recorder c) service GettingCloudLoadBalancerFailed lbName errString))
       (\<lambda>vpc. inWorld (GetLoadBalancer vpc lbName (Some service))))"

definition VpcMonitorLoadBalancers :: "'s Platform \<Rightarrow> 's Cloud \<Rightarrow> Service list \<Rightarrow> LbStatus \<Rightarrow> ('s Process, LbStatus) io" where
  "VpcMonitorLoadBalancers pf c services status =
     (if length services = 0 then returnM status
      else withVpc pf c (\<lambda>_. returnM status)
        (\<lambda>vpc. inWorld (MonitorLoadBalancers (pf_Runtime pf) vpc (Some services) status)))"

text \<open>Closing the channel under the mutex, as one step: the steps of \<open>update_step\<close> in \<open>Ibm_Sync\<close> run without interruption.\<close>

definition wakeWaiting :: "('s Process, unit) io" where
  "wakeWaiting p = (Inr (), p\<lparr>pr_CreateUpdateChan := False\<rparr>)"

definition VpcUpdateLoadBalancer :: "'s Platform \<Rightarrow> 's Cloud \<Rightarrow> Service \<Rightarrow> Node list \<Rightarrow> ('s Process, unit) io" where
  "VpcUpdateLoadBalancer pf c service nodes =
     bindM (vpcGetLoadBalancerName c service) (\<lambda>lbName.
     if length nodes = 0 then raiseM no_nodes_error
     else bindM wakeWaiting (\<lambda>_.
       withVpc pf c
         (\<lambda>errString. inWorld (VpcLoadBalancerServiceWarningEvent (cloud_Recorder c) service UpdatingCloudLoadBalancerFailed lbName errString))
         (\<lambda>vpc. inWorld (EnsureLoadBalancerUpdated (pf_Runtime pf) vpc lbName (Some service) (Some nodes)))))"

subsection \<open>Credentials\<close>

text \<open>An event of the file watcher: whether it has the write flag. Reading fails, or gives something that is no key, or gives a key.\<close>

definition credentialEvent :: "'s Platform \<Rightarrow> 's Cloud \<Rightarrow> bool \<Rightarrow> ('s Process, unit) io" where
  "credentialEvent pf c is_write =
     (if \<not> is_write then returnM ()
      else
        bindM (config_of c) (\<lambda>config.
        tryM (inWorld (pf_ReadFile pf (prov_G2Credentials (cc_Prov config))))
          (\<lambda>err. returnM ())
          (\<lambda>fileData p.
             if Contains (TrimSpace fileData) '' '' then (Inr (), p)
             else (Inr (), p\<lparr>pr_CloudVpc := ResetCloudVpc (pr_CloudVpc p),
                             pr_Metadata := map_option (\<lambda>ms. ms\<lparr>ms_vpcClient := None\<rparr>) (pr_Metadata p)\<rparr>))))"

text \<open>Setting up the watch; \<open>newWatcher\<close> and \<open>add\<close> are those of the watcher library.\<close>

definition WatchCloudCredential :: "('s, unit) io \<Rightarrow> (string \<Rightarrow> ('s, unit) io) \<Rightarrow> 's Cloud \<Rightarrow> ('s, unit) io" where
  "WatchCloudCredential newWatcher add c =
     bindM (config_of c) (\<lambda>config.
     if prov_G2Credentials (cc_Prov config) = [] then raiseM (Err ''No cloud credential file to watch'')
     else
       tryM newWatcher (\<lambda>err. raiseM (Err (''Failed to create watcher for cloud credential file: '' @ err))) (\<lambda>_.
       tryM (add (prov_G2Credentials (cc_Prov config)))
         (\<lambda>err. raiseM (Err (''Failed to add credential file to watch: '' @ err))) returnM))"

subsection \<open>The interface (\<open>ibm_loadbalancer.go\<close>)\<close>

definition isServiceConfigurationSupported :: "'s Cloud \<Rightarrow> Service \<Rightarrow> ('p, unit) io" where
  "isServiceConfigurationSupported c service =
     bindM (Cloud_isProviderVpc c) (\<lambda>isVpc.
     if isVpc \<and> svc_AllocateLoadBalancerNodePorts service = Some False then raiseM (Err ''NodePort allocation is required'')
     else (case find (\<lambda>port. sp_Protocol port \<noteq> ProtocolTCP \<and> sp_Protocol port \<noteq> ProtocolUDP) (svc_Ports service) of
             None \<Rightarrow> returnM ()
           | Some port \<Rightarrow> raiseM (Err (sp_Protocol port @ '' protocol''))))"

fun filterLoadBalancersFromServiceList :: "'s Cloud \<Rightarrow> Service list \<Rightarrow> ('p, Service list) io" where
  "filterLoadBalancersFromServiceList c [] = returnM []"
| "filterLoadBalancersFromServiceList c (service # items) =
     bindM (tryM (isServiceConfigurationSupported c service) (\<lambda>_. returnM False) (\<lambda>_. returnM True)) (\<lambda>supported.
     bindM (filterLoadBalancersFromServiceList c items) (\<lambda>lbItems.
     returnM (if svc_Type service = ServiceTypeLoadBalancer \<and> svc_LoadBalancerClass service = None \<and> supported
              then service # lbItems else lbItems)))"

definition Cloud_LoadBalancer :: "('s Process, bool) io" where
  "Cloud_LoadBalancer p = (Inr True, p\<lparr>pr_Tasks := StartTask ''cloud.ibm.com/cloud-provider-ibm/ibm.MonitorLoadBalancers'' (5 * 60 * 1000000000) (pr_Tasks p)\<rparr>)"

definition Cloud_GetLoadBalancerName :: "'s Cloud \<Rightarrow> Service \<Rightarrow> ('p, string) io" where
  "Cloud_GetLoadBalancerName c service =
     bindM (Cloud_isProviderVpc c) (\<lambda>isVpc.
     if isVpc then vpcGetLoadBalancerName c service else returnM (classic_GetCloudProviderLoadBalancerName service))"

definition Cloud_GetLoadBalancer :: "'s Platform \<Rightarrow> 's Cloud \<Rightarrow> Service \<Rightarrow> ('s Process, LoadBalancerStatus option \<times> bool) io" where
  "Cloud_GetLoadBalancer pf c service =
     bindM (Cloud_isProviderVpc c) (\<lambda>isVpc.
     if isVpc then VpcGetLoadBalancer pf c service else classic_GetLoadBalancer (cloud_ClassicCloud c) service)"

definition Cloud_EnsureLoadBalancer :: "'s Platform \<Rightarrow> 's Cloud \<Rightarrow> Service \<Rightarrow> Node list \<Rightarrow> ('s Process, LoadBalancerStatus) io" where
  "Cloud_EnsureLoadBalancer pf c service nodes =
     tryM (isServiceConfigurationSupported c service)
       (\<lambda>err. inWorld (LoadBalancerServiceWarningEvent (cloud_Recorder c) service CreatingCloudLoadBalancerFailed
          (''Service configuration is not supported: '' @ err)))
       (\<lambda>_. bindM (Cloud_isProviderVpc c) (\<lambda>isVpc.
          if isVpc then VpcEnsureLoadBalancer pf c service nodes else classic_EnsureLoadBalancer (cloud_ClassicCloud c) service nodes))"

definition Cloud_UpdateLoadBalancer :: "'s Platform \<Rightarrow> 's Cloud \<Rightarrow> Service \<Rightarrow> Node list \<Rightarrow> ('s Process, unit) io" where
  "Cloud_UpdateLoadBalancer pf c service nodes =
     bindM (Cloud_isProviderVpc c) (\<lambda>isVpc.
     if isVpc then VpcUpdateLoadBalancer pf c service nodes else classic_UpdateLoadBalancer (cloud_ClassicCloud c) service nodes)"

definition Cloud_EnsureLoadBalancerDeleted :: "'s Platform \<Rightarrow> 's Cloud \<Rightarrow> Service \<Rightarrow> ('s Process, unit) io" where
  "Cloud_EnsureLoadBalancerDeleted pf c service =
     bindM (Cloud_isProviderVpc c) (\<lambda>isVpc.
     if isVpc then VpcEnsureLoadBalancerDeleted pf c service else classic_EnsureLoadBalancerDeleted (cloud_ClassicCloud c) service)"

text \<open>The task function; the data of the task is its status map.\<close>

definition Cloud_MonitorLoadBalancers :: "'s Platform \<Rightarrow> 's Cloud \<Rightarrow> LbStatus \<Rightarrow> ('s Process, LbStatus) io" where
  "Cloud_MonitorLoadBalancers pf c data =
     tryM (inWorld (pf_ListServices pf)) (\<lambda>err. returnM data) (\<lambda>services.
     bindM (filterLoadBalancersFromServiceList c services) (\<lambda>services.
     bindM (Cloud_isProviderVpc c) (\<lambda>isVpc.
     if isVpc then VpcMonitorLoadBalancers pf c services data
     else classic_MonitorLoadBalancers (cloud_ClassicCloud c) services data)))"

subsection \<open>Creating the cloud object (\<open>ibm.go\<close>)\<close>

definition Cloud_ProviderName :: "'s Cloud \<Rightarrow> string" where "Cloud_ProviderName c = ProviderName"
definition HasClusterID :: "'s Cloud \<Rightarrow> bool" where "HasClusterID c = True"
definition Clusters :: bool where "Clusters = False"
definition Routes :: bool where "Routes = False"

text \<open>\<open>addDeleteHandler\<close> registers \<open>handleNodeDelete\<close> with the node informer; its error is ignored. The informers of the two providers do nothing.\<close>

definition vpcctl_SetInformers :: "('s, unit) io" where
  "vpcctl_SetInformers = returnM ()"

definition SetInformers :: "('s, unit) io \<Rightarrow> ('s, unit) io \<Rightarrow> (string \<Rightarrow> ('s, unit) io) \<Rightarrow> 's Cloud \<Rightarrow> ('s, unit) io" where
  "SetInformers addDeleteHandler newWatcher add c =
     bindM (config_of c) (\<lambda>config.
     bindM (Cloud_isProviderVpc c) (\<lambda>isVpc.
     bindM (if isVpc then returnM () else classic_SetInformers (cloud_ClassicCloud c)) (\<lambda>_.
     bindM (tryM addDeleteHandler (\<lambda>_. returnM ()) returnM) (\<lambda>_.
     if isVpc
     then bindM vpcctl_SetInformers (\<lambda>_.
       if prov_G2Credentials (cc_Prov config) \<noteq> []
       then tryM (WatchCloudCredential newWatcher add c) (\<lambda>_. returnM ()) returnM
       else returnM ())
     else returnM ()))))"

definition Cloud_Initialize :: "'s Cloud \<Rightarrow> ('s, unit) io" where
  "Cloud_Initialize c = returnM ()"

definition classicConfig_of :: "CloudConfig \<Rightarrow> string \<Rightarrow> classic_CloudConfig" where
  "classicConfig_of config path = \<lparr>clc_APIKeySecretPath = prov_CloudCredentials (cc_Prov config),
     clc_Application = lbd_Application (cc_LBDeployment config), clc_CalicoDatastore = cc_CalicoDatastore config,
     clc_ConfigFilePath = path, clc_ClusterID = prov_ClusterID (cc_Prov config), clc_Region = prov_Region (cc_Prov config),
     clc_IKSPrivateEndpointHostname = prov_IKSPrivateEndpointHostname (cc_Prov config), clc_Image = lbd_Image (cc_LBDeployment config),
     clc_VlanIPConfigMap = lbd_VlanIPConfigMap (cc_LBDeployment config)\<rparr>"

text \<open>The metadata service and the tasks of the new object are part of the process state.\<close>

definition NewCloud ::
  "'s Platform \<Rightarrow> (string \<Rightarrow> CloudConfig res) \<Rightarrow> (string \<Rightarrow> ('s, 'k) io) \<Rightarrow> ('k \<Rightarrow> ('s, 'client) io) \<Rightarrow> (string \<Rightarrow> Event \<Rightarrow> 's \<Rightarrow> 's) \<Rightarrow>
   string option \<Rightarrow> ('s Process, 's Cloud) io" where
  "NewCloud pf readInto build newForConfig newRecorder config =
     bindM (liftM (getCloudConfig readInto config)) (\<lambda>cloudConfig.
     let cloudConfig = (if length (cc_ConfigFilePaths cloudConfig) = 0 then cloudConfig\<lparr>cc_ConfigFilePaths := [[]]\<rparr> else cloudConfig) in
     bindM (inWorld (getK8SConfig build (cc_ConfigFilePaths cloudConfig))) (\<lambda>k8sConfig.
     tryM (inWorld (newForConfig k8sConfig)) (\<lambda>err. raiseM (Err (''Failed to create Kubernetes client: '' @ err))) (\<lambda>k8sClient p.
     let cloudMetadata = (if prov_AccountID (cc_Prov cloudConfig) \<noteq> []
           then Some (NewMetadataService (Some (cc_Prov cloudConfig)) (rt_Now (pf_Runtime pf) (pr_World p))) else None);
         p = p\<lparr>pr_Metadata := cloudMetadata, pr_Tasks := no_tasks\<rparr>;
         c = \<lparr>cloud_Name = ProviderName, cloud_Config = Some cloudConfig, cloud_Recorder = Some (NewCloudEventRecorder ProviderName newRecorder),
           cloud_ClassicCloud = None\<rparr>
     in bindM (Cloud_isProviderVpc c) (\<lambda>isVpc.
        if isVpc then withVpc pf c (\<lambda>errString. returnM c) (\<lambda>_. returnM c)
        else returnM (c\<lparr>cloud_ClassicCloud := Some (classic_NewCloud (classicConfig_of cloudConfig (cc_ConfigFilePaths cloudConfig ! 0)))\<rparr>)) p)))"

text \<open>What \<open>init\<close> registers: the provider name and the constructor.\<close>

definition registeredProvider ::
  "'s Platform \<Rightarrow> (string \<Rightarrow> CloudConfig res) \<Rightarrow> (string \<Rightarrow> ('s, 'k) io) \<Rightarrow> ('k \<Rightarrow> ('s, 'client) io) \<Rightarrow> (string \<Rightarrow> Event \<Rightarrow> 's \<Rightarrow> 's) \<Rightarrow>
   string \<times> (string option \<Rightarrow> ('s Process, 's Cloud) io)" where
  "registeredProvider pf readInto build newForConfig newRecorder =
     (ProviderName, \<lambda>config. NewCloud pf readInto build newForConfig newRecorder config)"

subsection \<open>Equations\<close>

lemma inWorld_eq: "inWorld m p = (fst (m (pr_World p)), p\<lparr>pr_World := snd (m (pr_World p))\<rparr>)"
  by (simp add: inWorld_def split: prod.split)

lemma config_of_Some [simp]: "cloud_Config c = Some config \<Longrightarrow> config_of c = returnM config"
  by (simp add: config_of_def)

lemma isProviderVpc_Some [simp]:
  "cloud_Config c = Some config \<Longrightarrow> Cloud_isProviderVpc c = returnM (prov_ProviderType (cc_Prov config) = VpcProviderTypeGen2)"
  by (simp add: Cloud_isProviderVpc_def del: io_simps)

lemma vpcGetLoadBalancerName_Some [simp]:
  "cloud_Config c = Some config \<Longrightarrow>
   vpcGetLoadBalancerName c service = returnM (GenerateLoadBalancerName service (prov_ClusterID (cc_Prov config)))"
  by (simp add: vpcGetLoadBalancerName_def del: io_simps)

text \<open>Which services can have a load balancer.\<close>

definition supported :: "CloudConfig \<Rightarrow> Service \<Rightarrow> bool" where
  "supported config service \<longleftrightarrow>
     \<not> (prov_ProviderType (cc_Prov config) = VpcProviderTypeGen2 \<and> svc_AllocateLoadBalancerNodePorts service = Some False) \<and>
     list_all (\<lambda>port. sp_Protocol port = ProtocolTCP \<or> sp_Protocol port = ProtocolUDP) (svc_Ports service)"

lemma supported_iff:
  assumes "cloud_Config c = Some config"
  shows "supported config service \<Longrightarrow> isServiceConfigurationSupported c service = returnM ()"
    and "\<not> supported config service \<Longrightarrow> \<exists>err. isServiceConfigurationSupported c service = raiseM (Err err)"
proof -
  let ?bad = "\<lambda>port. sp_Protocol port \<noteq> ProtocolTCP \<and> sp_Protocol port \<noteq> ProtocolUDP"
  have find: "find ?bad ports = None \<longleftrightarrow> list_all (\<lambda>port. sp_Protocol port = ProtocolTCP \<or> sp_Protocol port = ProtocolUDP) ports" for ports
    by (auto simp: find_None_iff list_all_iff)
  show "supported config service \<Longrightarrow> isServiceConfigurationSupported c service = returnM ()"
    using assms find[of "svc_Ports service"] by (auto simp: isServiceConfigurationSupported_def supported_def simp del: io_simps)
  show "\<not> supported config service \<Longrightarrow> \<exists>err. isServiceConfigurationSupported c service = raiseM (Err err)"
    using assms find[of "svc_Ports service"]
    by (cases "find ?bad (svc_Ports service)") (auto simp: isServiceConfigurationSupported_def supported_def simp del: io_simps)
qed

lemma tryM_simps [simp]:
  "tryM (returnM x) h f = f x" "tryM (raiseM (Err e)) h f = h e" "tryM (raiseM (Panic e)) h f = raiseM (Panic e)"
  by (simp_all add: fun_eq_iff tryM_def)

lemma filterLoadBalancers_eq:
  assumes "cloud_Config c = Some config"
  shows "(filterLoadBalancersFromServiceList c services :: ('p, Service list) io) =
    returnM (filter (\<lambda>service. svc_Type service = ServiceTypeLoadBalancer \<and> svc_LoadBalancerClass service = None \<and>
      supported config service) services)"
proof (induction services)
  case (Cons service services)
  show ?case
  proof (cases "supported config service")
    case True
    with Cons show ?thesis by (simp add: supported_iff(1)[OF assms] del: io_simps)
  next
    case False
    obtain err where "isServiceConfigurationSupported c service = (raiseM (Err err) :: ('p, unit) io)"
      using supported_iff(2)[OF assms False] by blast
    with Cons False show ?thesis by (simp del: io_simps)
  qed
qed (simp del: io_simps)

lemma InitCloudVpc_present [simp]: "pr_CloudVpc p = Some vpc \<Longrightarrow> InitCloudVpc pf c b p = (Inr vpc, p)"
  by (simp add: InitCloudVpc_def GetCloudVpc_def)

lemma InitCloudVpc_keeps:
  "pr_CreateUpdateChan (snd (InitCloudVpc pf c b p)) = pr_CreateUpdateChan p" "pr_Metadata (snd (InitCloudVpc pf c b p)) = pr_Metadata p"
  by (auto simp: InitCloudVpc_def bindM_def inWorld_eq split: option.splits prod.splits sum.splits)

lemma NewCloudVpc_result:
  assumes "NewCloudVpc newProvider newFake (Some config) recorder old s = ((r, new), s')"
  shows "case r of Inl e \<Rightarrow> new = old | Inr vpc \<Rightarrow> new = Some vpc \<and> vpc_Recorder vpc = recorder \<and>
    cfg_APIKeySecret (vpc_Config vpc) = cfg_APIKeySecret config"
  using assms by (auto simp: NewCloudVpc_def SetCloudVpc_def config_initialize_def Let_def split: sum.splits prod.splits if_splits)

lemma InitCloudVpc_result:
  assumes "InitCloudVpc pf c b p = (r, p')" "pr_CloudVpc p = None"
  shows "case r of Inl e \<Rightarrow> pr_CloudVpc p' = None | Inr vpc \<Rightarrow> pr_CloudVpc p' = Some vpc \<and>
    (\<exists>config s1. NewConfigVpc pf c b (pr_World p) = (Inr config, s1) \<and> cfg_APIKeySecret (vpc_Config vpc) = cfg_APIKeySecret config)"
proof -
  obtain rc s1 where rc: "NewConfigVpc pf c b (pr_World p) = (rc, s1)" by (cases "NewConfigVpc pf c b (pr_World p)")
  show ?thesis
  proof (cases rc)
    case (Inl e)
    with assms rc show ?thesis by (auto simp: InitCloudVpc_def GetCloudVpc_def bindM_def inWorld_eq)
  next
    case (Inr config)
    let ?recorder = "case cloud_Recorder c of None \<Rightarrow> None | Some r \<Rightarrow> cer_Recorder r"
    obtain r' new s' where n: "NewCloudVpc (newVpcSdk pf) (pf_NewVpcSdkFake pf) (Some config) ?recorder None s1 = ((r', new), s')"
      by (metis prod.exhaust)
    from assms rc Inr n have "r = r'" "pr_CloudVpc p' = new"
      by (auto simp: InitCloudVpc_def GetCloudVpc_def bindM_def inWorld_eq)
    with NewCloudVpc_result[OF n] rc Inr show ?thesis by (auto split: sum.splits)
  qed
qed

subsection \<open>Safety\<close>

text \<open>
  What is relied on outside the program: the constructors give clients that keep the promises of their APIs, files and lists can be read without
  a panic, and waiting keeps the invariant of the world.
\<close>

definition platform_ok :: "'s Platform \<Rightarrow> ('s \<Rightarrow> bool) \<Rightarrow> bool" where
  "platform_ok pf Inv \<longleftrightarrow>
     (\<forall>k u e. safe Inv (\<lambda>client. client_ok client Inv) (pf_NewVpcV1 pf k u e)) \<and>
     (\<forall>u k e. safe Inv (\<lambda>lookup. \<forall>a n. safe Inv (\<lambda>_. True) (lookup a n)) (pf_NewResourceManager pf u k e)) \<and>
     (\<forall>h. okR (\<lambda>_. True) (pf_start_of pf h)) \<and>
     (\<forall>d s. Inv s \<longrightarrow> Inv (rt_Sleep (pf_Runtime pf) d s)) \<and>
     (\<forall>s. Inv s \<longrightarrow> Inv (snd (pf_Select pf s))) \<and>
     (\<forall>f. safe Inv (\<lambda>_. True) (pf_ReadFile pf f)) \<and>
     safe Inv (\<lambda>_. True) (pf_ListServices pf) \<and>
     safe Inv (\<lambda>sdk. vpc_service sdk (pf_Runtime pf) Inv) (pf_NewVpcSdkFake pf)"

text \<open>A cloud object with a configuration and a recorder, as \<open>NewCloud\<close> makes it.\<close>

definition cloud_ok :: "'s Cloud \<Rightarrow> ('s \<Rightarrow> bool) \<Rightarrow> bool" where
  "cloud_ok c Inv \<longleftrightarrow> cloud_Config c \<noteq> None \<and>
     (case cloud_Recorder c of
        None \<Rightarrow> False
      | Some r \<Rightarrow> (case cer_Recorder r of None \<Rightarrow> False | Some record \<Rightarrow> \<forall>e s. Inv s \<longrightarrow> Inv (record e s)))"

definition process_inv :: "'s Platform \<Rightarrow> ('s \<Rightarrow> bool) \<Rightarrow> 's Process \<Rightarrow> bool" where
  "process_inv pf Inv p \<longleftrightarrow> Inv (pr_World p) \<and>
     (case pr_CloudVpc p of None \<Rightarrow> True | Some vpc \<Rightarrow> vpc_cloud (vpc_Sdk vpc) (pf_Runtime pf) Inv vpc)"

lemma safe_inWorld: "safe Inv Q m \<Longrightarrow> safe (process_inv pf Inv) Q (inWorld m)"
  by (auto simp: safe_def process_inv_def inWorld_eq split: option.splits)

lemma safe_NewConfigVpc: "platform_ok pf Inv \<Longrightarrow> safe Inv (\<lambda>_. True) (NewConfigVpc pf c b)"
  unfolding NewConfigVpc_def Let_def
  by (auto simp: platform_ok_def simp del: io_simps split: option.split intro!: safe_rules safe_try[where Q = "\<lambda>_. True"])

lemma platform_okD:
  assumes "platform_ok pf Inv"
  shows "safe Inv (\<lambda>client. client_ok client Inv) (pf_NewVpcV1 pf k u e)"
    and "safe Inv (\<lambda>lookup. \<forall>a n. safe Inv (\<lambda>_. True) (lookup a n)) (pf_NewResourceManager pf u k e)"
    and "okR (\<lambda>_. True) (pf_start_of pf h)" and "Inv s \<Longrightarrow> Inv (rt_Sleep (pf_Runtime pf) d s)"
    and "Inv s \<Longrightarrow> Inv (snd (pf_Select pf s))" and "safe Inv (\<lambda>_. True) (pf_ReadFile pf f)" and "safe Inv (\<lambda>_. True) (pf_ListServices pf)"
    and "safe Inv (\<lambda>sdk. vpc_service sdk (pf_Runtime pf) Inv) (pf_NewVpcSdkFake pf)"
  using assms unfolding platform_ok_def by blast+

lemma safe_convertResourceGroup:
  fixes Inv :: "'s \<Rightarrow> bool"
  assumes "platform_ok pf Inv"
  shows "safe Inv (\<lambda>_. True) (convertResourceGroupNameToID (pf_RmServiceURL pf) (pf_NewResourceManager pf) config)"
  unfolding convertResourceGroupNameToID_def
proof (rule safe_try[OF platform_okD(2)[OF assms] safe_raise])
  fix lookup :: "'s GroupLookup" assume "\<forall>a n. safe Inv (\<lambda>_. True) (lookup a n)"
  then have "safe Inv (\<lambda>_. True) (lookup (cfg_AccountID config) (cfg_ResourceGroupName config))" by blast
  then show "safe Inv (\<lambda>_. True) (tryM (lookup (cfg_AccountID config) (cfg_ResourceGroupName config))
      (\<lambda>err. raiseM (Err (''Failed to ListResourceGroups: '' @ err)))
      (\<lambda>resources. if length resources \<noteq> 1
        then raiseM (Err (show_int (int (length resources)) @ '' resource groups match name: '' @ cfg_ResourceGroupName config))
        else (case resources ! 0 of None \<Rightarrow> returnM config | Some i \<Rightarrow> returnM (config\<lparr>cfg_resourceGroupID := i\<rparr>))))"
    by (rule safe_try[OF _ safe_raise]) (intro safe_if safe_raise, simp add: safe_return split: option.split del: io_simps)
qed

lemma safe_NewVpcSdkGen2:
  assumes "platform_ok pf Inv"
  shows "safe Inv (\<lambda>v. client_ok (gen2_Client v) Inv \<and> gen2_start v = pf_start_of pf)
    (NewVpcSdkGen2 (pf_NewVpcV1 pf) (pf_RmServiceURL pf) (pf_NewResourceManager pf) (pf_start_of pf) (pf_pages pf) config)"
  unfolding NewVpcSdkGen2_def
proof (rule safe_try[OF platform_okD(1)[OF assms] safe_raise])
  fix client assume "client_ok client Inv"
  then show "safe Inv (\<lambda>v. client_ok (gen2_Client v) Inv \<and> gen2_start v = pf_start_of pf)
      (bindM (if cfg_resourceGroupID config = [] \<and> cfg_ResourceGroupName config \<noteq> []
          then convertResourceGroupNameToID (pf_RmServiceURL pf) (pf_NewResourceManager pf) config else returnM config)
        (\<lambda>c. returnM \<lparr>gen2_Client = client, gen2_Config = c, gen2_start = pf_start_of pf, gen2_fuel = pf_pages pf\<rparr>))"
    by (intro safe_seq safe_if safe_convertResourceGroup[OF assms] safe_return) simp_all
qed

lemma safe_newVpcSdk:
  assumes "platform_ok pf Inv"
  shows "safe Inv (\<lambda>sdk. vpc_service sdk (pf_Runtime pf) Inv) (newVpcSdk pf config)"
  unfolding newVpcSdk_def
  by (rule safe_bind[OF safe_NewVpcSdkGen2[OF assms]], rule safe_return, rule gen2_vpc_service)
    (auto intro: platform_okD[OF assms])

lemma okR_config_initialize: "okR (\<lambda>_. True) (config_initialize config)"
  by (auto simp: config_initialize_def validate_def okR_def bindR_def)

lemma safe_NewCloudVpcSdk:
  assumes "platform_ok pf Inv"
  shows "safe Inv (\<lambda>sdk. vpc_service sdk (pf_Runtime pf) Inv) (NewCloudVpcSdk (newVpcSdk pf) (pf_NewVpcSdkFake pf) config)"
  unfolding NewCloudVpcSdk_def using assms safe_newVpcSdk[OF assms]
  by (auto simp: platform_ok_def simp del: io_simps intro!: safe_rules)

definition cloud_recorder :: "'s Cloud \<Rightarrow> (Event \<Rightarrow> 's \<Rightarrow> 's) option" where
  "cloud_recorder c = (case cloud_Recorder c of None \<Rightarrow> None | Some r \<Rightarrow> cer_Recorder r)"

lemma vpc_cloud_made:
  assumes "vpc_service sdk rt Inv" "cloud_ok c Inv"
  shows "vpc_cloud sdk rt Inv \<lparr>vpc_Config = config, vpc_Sdk = sdk, vpc_Recorder = cloud_recorder c\<rparr>"
  using assms by (auto simp: vpc_cloud_def vpc_cloud_axioms_def cloud_ok_def cloud_recorder_def split: option.splits)

lemma NewCloudVpc_safe:
  assumes pf: "platform_ok pf Inv" and c: "cloud_ok c Inv" and s: "Inv s"
    and run: "NewCloudVpc (newVpcSdk pf) (pf_NewVpcSdkFake pf) (Some config) (cloud_recorder c) old s = ((r, new), s')"
  shows "Inv s' \<and> (case r of Inl e \<Rightarrow> new = old \<and> (\<exists>msg. e = Err msg)
    | Inr vpc \<Rightarrow> new = Some vpc \<and> vpc_cloud (vpc_Sdk vpc) (pf_Runtime pf) Inv vpc)"
proof (cases "config_initialize config")
  case (Inl e)
  with okR_config_initialize[of config] have "\<exists>msg. e = Err msg" by (cases e) simp_all
  with Inl run s show ?thesis by (auto simp: NewCloudVpc_def)
next
  case (Inr config')
  obtain rs s2 where rs: "NewCloudVpcSdk (newVpcSdk pf) (pf_NewVpcSdkFake pf) config' s = (rs, s2)"
    by (cases "NewCloudVpcSdk (newVpcSdk pf) (pf_NewVpcSdkFake pf) config' s")
  have s2: "Inv s2" "okR (\<lambda>sdk. vpc_service sdk (pf_Runtime pf) Inv) rs"
    using safe_NewCloudVpcSdk[OF pf, of config'] s rs by (auto simp: safe_def dest!: spec[of _ s])
  show ?thesis
  proof (cases rs)
    case (Inl e)
    with s2 have "\<exists>msg. e = Err msg" by (cases e) simp_all
    with Inl \<open>config_initialize config = Inr config'\<close> rs run s2 show ?thesis by (auto simp: NewCloudVpc_def)
  next
    case (Inr sdk)
    with s2 have "vpc_service sdk (pf_Runtime pf) Inv" by simp
    from vpc_cloud_made[OF this c, of config'] Inr \<open>config_initialize config = Inr config'\<close> rs run s2(1) show ?thesis
      by (auto simp: NewCloudVpc_def SetCloudVpc_def Let_def)
  qed
qed

lemma safe_InitCloudVpc:
  assumes pf: "platform_ok pf Inv" and c: "cloud_ok c Inv"
  shows "safe (process_inv pf Inv) (\<lambda>vpc. vpc_cloud (vpc_Sdk vpc) (pf_Runtime pf) Inv vpc) (InitCloudVpc pf c b)"
  unfolding safe_def
proof (intro allI impI)
  fix p assume p: "process_inv pf Inv p"
  show "process_inv pf Inv (snd (InitCloudVpc pf c b p)) \<and>
      okR (\<lambda>vpc. vpc_cloud (vpc_Sdk vpc) (pf_Runtime pf) Inv vpc) (fst (InitCloudVpc pf c b p))"
  proof (cases "pr_CloudVpc p")
    case (Some vpc)
    with p show ?thesis by (simp add: process_inv_def)
  next
    case None
    obtain rc s1 where rc: "NewConfigVpc pf c b (pr_World p) = (rc, s1)" by (cases "NewConfigVpc pf c b (pr_World p)")
    have s1: "Inv s1" "okR (\<lambda>_. True) rc"
      using safe_NewConfigVpc[OF pf, of c b] p rc by (auto simp: safe_def process_inv_def dest!: spec[of _ "pr_World p"])
    show ?thesis
    proof (cases rc)
      case (Inl e)
      with None rc s1 show ?thesis
        by (cases e) (simp_all add: InitCloudVpc_def GetCloudVpc_def bindM_def inWorld_eq process_inv_def)
    next
      case (Inr config)
      obtain r new s2 where n: "NewCloudVpc (newVpcSdk pf) (pf_NewVpcSdkFake pf) (Some config) (cloud_recorder c) None s1 = ((r, new), s2)"
        by (metis prod.exhaust)
      have run: "InitCloudVpc pf c b p = (r, p\<lparr>pr_World := s2, pr_CloudVpc := new\<rparr>)"
        using None rc Inr n by (simp add: InitCloudVpc_def GetCloudVpc_def bindM_def inWorld_eq cloud_recorder_def)
      from NewCloudVpc_safe[OF pf c s1(1) n] show ?thesis
        by (cases r) (auto simp: run process_inv_def)
    qed
  qed
qed

lemma safe_withVpc:
  assumes "platform_ok pf Inv" "cloud_ok c Inv" "\<And>err. safe (process_inv pf Inv) Q (failed err)"
    and "\<And>vpc. vpc_cloud (vpc_Sdk vpc) (pf_Runtime pf) Inv vpc \<Longrightarrow> safe (process_inv pf Inv) Q (m vpc)"
  shows "safe (process_inv pf Inv) Q (withVpc pf c failed m)"
proof -
  have "safe (process_inv pf Inv) Q (tryM (InitCloudVpc pf c b) (\<lambda>err. failed (''Failed initializing VPC: '' @ err)) m)" for b
    by (rule safe_try[OF safe_InitCloudVpc[OF assms(1,2)] assms(3)]) (rule assms(4))
  then show ?thesis unfolding withVpc_def safe_def by blast
qed

lemma safe_cloudWarning: "cloud_ok c Inv \<Longrightarrow> safe Inv Q (warningEvent (cloud_Recorder c) service reason lbName msg)"
  by (auto simp: cloud_ok_def safe_def warningEvent_def Let_def split: option.splits)

text \<open>Making the VPC object and ignoring a failure.\<close>

lemma withVpc_best_effort:
  assumes "platform_ok pf Inv" "cloud_ok c Inv" "process_inv pf Inv p"
  shows "\<exists>q. withVpc pf c (\<lambda>_. returnM x) (\<lambda>_. returnM x) p = (Inr x, q) \<and> process_inv pf Inv q \<and> pr_Metadata q = pr_Metadata p"
proof -
  let ?b = "shouldPrivateEndpointBeEnabled pf (pr_World p)"
  obtain r q where q: "InitCloudVpc pf c ?b p = (r, q)" by (cases "InitCloudVpc pf c ?b p")
  have "process_inv pf Inv (snd (InitCloudVpc pf c ?b p)) \<and> (\<forall>e. r \<noteq> Inl (Panic e))"
    using safeD[OF safe_InitCloudVpc[OF assms(1,2), of ?b] assms(3)] q by auto
  moreover have "pr_Metadata q = pr_Metadata p" using InitCloudVpc_keeps(2)[of pf c ?b p] q by simp
  ultimately have q': "process_inv pf Inv q" "\<forall>e. r \<noteq> Inl (Panic e)" "pr_Metadata q = pr_Metadata p" using q by simp_all
  have "withVpc pf c (\<lambda>_. returnM x) (\<lambda>_. returnM x) p = (Inr x, q)"
  proof (cases r)
    case (Inl e)
    with q' q show ?thesis by (cases e) (simp_all add: withVpc_def tryM_def)
  next
    case (Inr vpc)
    with q show ?thesis by (simp add: withVpc_def tryM_def)
  qed
  with q' show ?thesis by blast
qed

lemma waitForNodes_inv: "platform_ok pf Inv \<Longrightarrow> Inv s \<Longrightarrow> Inv (waitForNodes pf n s)"
proof (induction n arbitrary: s)
  case (Suc n)
  from platform_okD(5)[OF Suc.prems] Suc.IH[OF Suc.prems(1)] show ?case by (auto split: prod.splits)
qed simp

lemma safe_VpcEnsureLoadBalancer:
  assumes "platform_ok pf Inv" "cloud_ok c Inv" "word_nodes nodes" "natural_ports service"
  shows "safe (process_inv pf Inv) (\<lambda>_. True) (VpcEnsureLoadBalancer pf c service nodes)"
proof -
  obtain config where config: "cloud_Config c = Some config" using assms(2) by (auto simp: cloud_ok_def)
  have "safe (process_inv pf Inv) (\<lambda>_. True) (\<lambda>p. (Inl no_nodes_error :: LoadBalancerStatus res,
      if pr_CreateUpdateChan p then p\<lparr>pr_World := waitForNodes pf maxWait (pr_World p)\<rparr> else p))"
    using waitForNodes_inv[OF assms(1)] by (auto simp: safe_def process_inv_def)
  then show ?thesis
    unfolding VpcEnsureLoadBalancer_def vpcGetLoadBalancerName_Some[OF config] bindM_return
    by (intro safe_if safe_withVpc[OF assms(1,2)] safe_inWorld)
      (auto simp: VpcLoadBalancerServiceWarningEvent_def intro!: safe_cloudWarning[OF assms(2)] vpc_cloud.safe_EnsureLoadBalancer assms(3,4))
qed

lemma safe_VpcUpdateLoadBalancer:
  assumes "platform_ok pf Inv" "cloud_ok c Inv" "word_nodes nodes" "natural_ports service"
  shows "safe (process_inv pf Inv) (\<lambda>_. True) (VpcUpdateLoadBalancer pf c service nodes)"
proof -
  obtain config where config: "cloud_Config c = Some config" using assms(2) by (auto simp: cloud_ok_def)
  have wake: "safe (process_inv pf Inv) (\<lambda>_. True) wakeWaiting" by (auto simp: safe_def wakeWaiting_def process_inv_def)
  show ?thesis
    unfolding VpcUpdateLoadBalancer_def vpcGetLoadBalancerName_Some[OF config] bindM_return
    by (intro safe_if safe_raise safe_seq[OF wake] safe_withVpc[OF assms(1,2)] safe_inWorld)
      (auto simp: VpcLoadBalancerServiceWarningEvent_def
        intro!: safe_cloudWarning[OF assms(2)] vpc_cloud.safe_EnsureLoadBalancerUpdated assms(3,4))
qed

lemma safe_VpcOthers:
  assumes "platform_ok pf Inv" "cloud_ok c Inv"
  shows "safe (process_inv pf Inv) (\<lambda>_. True) (VpcEnsureLoadBalancerDeleted pf c service)"
    and "safe (process_inv pf Inv) (\<lambda>_. True) (VpcGetLoadBalancer pf c service)"
    and "safe (process_inv pf Inv) (\<lambda>_. True) (VpcMonitorLoadBalancers pf c services status)"
proof -
  obtain config where config: "cloud_Config c = Some config" using assms(2) by (auto simp: cloud_ok_def)
  show "safe (process_inv pf Inv) (\<lambda>_. True) (VpcEnsureLoadBalancerDeleted pf c service)"
    unfolding VpcEnsureLoadBalancerDeleted_def vpcGetLoadBalancerName_Some[OF config] bindM_return
    by (intro safe_withVpc[OF assms] safe_inWorld)
      (auto simp: VpcLoadBalancerServiceWarningEvent_def intro!: safe_cloudWarning[OF assms(2)] vpc_cloud.safe_EnsureLoadBalancerDeleted)
  show "safe (process_inv pf Inv) (\<lambda>_. True) (VpcGetLoadBalancer pf c service)"
    unfolding VpcGetLoadBalancer_def vpcGetLoadBalancerName_Some[OF config] bindM_return
    by (intro safe_withVpc[OF assms] safe_inWorld)
      (auto simp: VpcLoadBalancerServiceWarningEvent_def intro!: safe_cloudWarning[OF assms(2)] vpc_cloud.safe_GetLoadBalancer)
  show "safe (process_inv pf Inv) (\<lambda>_. True) (VpcMonitorLoadBalancers pf c services status)"
    unfolding VpcMonitorLoadBalancers_def
    by (intro safe_if safe_return safe_withVpc[OF assms] safe_inWorld) (auto intro!: vpc_cloud.safe_MonitorLoadBalancers)
qed

lemma safe_interface:
  assumes "platform_ok pf Inv" "cloud_ok c Inv" "word_nodes nodes" "natural_ports service"
  shows "safe (process_inv pf Inv) (\<lambda>_. True) (Cloud_EnsureLoadBalancer pf c service nodes)"
    and "safe (process_inv pf Inv) (\<lambda>_. True) (Cloud_UpdateLoadBalancer pf c service nodes)"
    and "safe (process_inv pf Inv) (\<lambda>_. True) (Cloud_EnsureLoadBalancerDeleted pf c service)"
    and "safe (process_inv pf Inv) (\<lambda>_. True) (Cloud_GetLoadBalancer pf c service)"
    and "safe (process_inv pf Inv) (\<lambda>_. True) (Cloud_MonitorLoadBalancers pf c data)"
proof -
  obtain config where config: "cloud_Config c = Some config" using assms(2) by (auto simp: cloud_ok_def)
  have sup: "safe (process_inv pf Inv) (\<lambda>_. True) (isServiceConfigurationSupported c service)"
    unfolding isServiceConfigurationSupported_def isProviderVpc_Some[OF config] bindM_return
    by (auto simp del: io_simps split: option.split intro!: safe_if safe_raise safe_return)
  show "safe (process_inv pf Inv) (\<lambda>_. True) (Cloud_EnsureLoadBalancer pf c service nodes)"
    unfolding Cloud_EnsureLoadBalancer_def LoadBalancerServiceWarningEvent_def isProviderVpc_Some[OF config] bindM_return
      classic_EnsureLoadBalancer_def
    by (intro safe_try[OF sup] safe_if safe_VpcEnsureLoadBalancer[OF assms] safe_raise safe_inWorld safe_cloudWarning[OF assms(2)])
  show "safe (process_inv pf Inv) (\<lambda>_. True) (Cloud_UpdateLoadBalancer pf c service nodes)"
    unfolding Cloud_UpdateLoadBalancer_def isProviderVpc_Some[OF config] bindM_return classic_UpdateLoadBalancer_def
    by (intro safe_if safe_VpcUpdateLoadBalancer[OF assms] safe_raise)
  show "safe (process_inv pf Inv) (\<lambda>_. True) (Cloud_EnsureLoadBalancerDeleted pf c service)"
    unfolding Cloud_EnsureLoadBalancerDeleted_def isProviderVpc_Some[OF config] bindM_return classic_EnsureLoadBalancerDeleted_def
    by (intro safe_if safe_VpcOthers[OF assms(1,2)] safe_raise)
  show "safe (process_inv pf Inv) (\<lambda>_. True) (Cloud_GetLoadBalancer pf c service)"
    unfolding Cloud_GetLoadBalancer_def isProviderVpc_Some[OF config] bindM_return classic_GetLoadBalancer_def
    by (intro safe_if safe_VpcOthers[OF assms(1,2)] safe_raise)
  show "safe (process_inv pf Inv) (\<lambda>_. True) (Cloud_MonitorLoadBalancers pf c data)"
    unfolding Cloud_MonitorLoadBalancers_def isProviderVpc_Some[OF config] filterLoadBalancers_eq[OF config] bindM_return
      classic_MonitorLoadBalancers_def
    by (intro safe_try[OF safe_inWorld[OF platform_okD(7)[OF assms(1)]]] safe_if safe_VpcOthers[OF assms(1,2)] safe_return) simp_all
qed

subsection \<open>Example data\<close>

definition ex_platform :: "nat Platform" where
  "ex_platform = \<lparr>pf_Runtime = ex_gen2_runtime, pf_Getenv = (\<lambda>_ _. []), pf_ReadFile = (\<lambda>_. counted ''secret''), pf_Select = (\<lambda>s. (True, Suc s)),
     pf_ListServices = counted [ex_web], pf_NewVpcV1 = (\<lambda>_ _ _. counted ex_client), pf_RmServiceURL = ''https://rm'',
     pf_NewResourceManager = (\<lambda>_ _ _. counted (\<lambda>_ _. counted [Some ''g1''])), pf_start_of = (\<lambda>_. Inr ''2''), pf_pages = 10,
     pf_NewVpcSdkFake = raiseM (Err ''no mock'')\<rparr>"

definition ex_cloud_object :: "nat Cloud" where
  "ex_cloud_object = \<lparr>cloud_Name = ''ibm'', cloud_Config = Some ex_cloud_config,
     cloud_Recorder = Some \<lparr>cer_Name = ''ibm-cloud-provider'', cer_Recorder = Some (\<lambda>e s. Suc s)\<rparr>, cloud_ClassicCloud = None\<rparr>"

definition ex_process :: "nat Process" where
  "ex_process = \<lparr>pr_World = 0, pr_CloudVpc = None, pr_CreateUpdateChan = True, pr_Metadata = None, pr_Tasks = no_tasks\<rparr>"

definition ex_sctp_service :: Service where
  "ex_sctp_service = ex_web\<lparr>svc_Ports := [\<lparr>sp_Protocol = ''SCTP'', sp_Port = 80, sp_NodePort = 30080\<rparr>]\<rparr>"

lemma ex_platform_ok: "platform_ok ex_platform (\<lambda>_. True)"
  using ex_client_ok by (simp add: platform_ok_def ex_platform_def safe_raise)

lemma ex_cloud_ok: "cloud_ok ex_cloud_object (\<lambda>_. True)"
  by (simp add: cloud_ok_def ex_cloud_object_def)

subsection \<open>Properties\<close>

text \<open>C28: The whole provider on its own SDK: with clients that keep the promises of their APIs, no call of the load-balancer interface and no
  run of the monitor panics, from any state of the process, and the VPC object that is kept between calls stays usable.\<close>

theorem interface_never_panics:
  assumes "platform_ok pf Inv" "cloud_ok c Inv" "word_nodes nodes" "natural_ports service"
  shows "safe (process_inv pf Inv) (\<lambda>_. True) (Cloud_EnsureLoadBalancer pf c service nodes) \<and>
    safe (process_inv pf Inv) (\<lambda>_. True) (Cloud_UpdateLoadBalancer pf c service nodes) \<and>
    safe (process_inv pf Inv) (\<lambda>_. True) (Cloud_EnsureLoadBalancerDeleted pf c service) \<and>
    safe (process_inv pf Inv) (\<lambda>_. True) (Cloud_GetLoadBalancer pf c service) \<and>
    safe (process_inv pf Inv) (\<lambda>_. True) (Cloud_MonitorLoadBalancers pf c data)"
  by (intro conjI safe_interface[OF assms])

theorem interface_never_panics_witness:
  "safe (process_inv ex_platform (\<lambda>_. True)) (\<lambda>_. True) (Cloud_UpdateLoadBalancer ex_platform ex_cloud_object ex_web ex_node_list)"
proof -
  have "word_nodes ex_node_list" "natural_ports ex_web" by code_simp+
  from interface_never_panics[OF ex_platform_ok ex_cloud_ok this, of Map.empty] show ?thesis by simp
qed

text \<open>A service that cannot be supported (no node ports on VPC, or a port that is neither TCP nor UDP) is refused before anything is done: its
  load balancer is not looked for, and exactly one warning event is recorded, with the text that is returned.\<close>

lemma unsupported_service_refused:
  assumes "cloud_Config c = Some config" "cloud_Recorder c = Some r" "cer_Recorder r = Some record" "\<not> supported config service"
  shows "\<exists>err. let message = ''Error on cloud load balancer '' @ GetCloudProviderLoadBalancerName service @ '' for service '' @
        NamespacedName service @ '' with UID '' @ svc_UID service @ '': Service configuration is not supported: '' @ err
      in Cloud_EnsureLoadBalancer pf c service nodes p =
        (Inl (Err message), p\<lparr>pr_World := record (service_event service EventTypeWarning ''CreatingCloudLoadBalancerFailed'' message) (pr_World p)\<rparr>)"
proof -
  obtain err where "isServiceConfigurationSupported c service p = (Inl (Err err), p)"
    using supported_iff(2)[OF assms(1,4)] by (metis io_simps(2))
  then show ?thesis using assms(2,3)
    by (intro exI[of _ err])
      (simp add: Cloud_EnsureLoadBalancer_def tryM_def LoadBalancerServiceWarningEvent_def warningEvent_def inWorld_eq Let_def
        CreatingCloudLoadBalancerFailed_def)
qed

text \<open>Without nodes nothing is changed: creating waits and fails, updating fails at once, and neither touches the VPC object nor the
  channel; with nodes an update first releases the waiting threads.\<close>

lemma no_nodes_no_changes:
  fixes c :: "'s Cloud"
  assumes "cloud_Config c = Some config"
  shows "VpcEnsureLoadBalancer pf c service [] p =
      (Inl no_nodes_error, if pr_CreateUpdateChan p then p\<lparr>pr_World := waitForNodes pf 10 (pr_World p)\<rparr> else p) \<and>
    VpcUpdateLoadBalancer pf c service [] p = (Inl no_nodes_error, p) \<and>
    (nodes \<noteq> [] \<longrightarrow> pr_CreateUpdateChan (snd (VpcUpdateLoadBalancer pf c service nodes p)) = False)"
proof -
  have "pr_CreateUpdateChan (snd (withVpc pf c (\<lambda>e. inWorld (f e)) (\<lambda>v. inWorld (g v)) p)) = pr_CreateUpdateChan p"
    for f :: "string \<Rightarrow> ('s, unit) io" and g :: "'s CloudVpc \<Rightarrow> ('s, unit) io" and p
    using InitCloudVpc_keeps(1)[of pf c "shouldPrivateEndpointBeEnabled pf (pr_World p)" p]
    by (auto simp: withVpc_def tryM_def inWorld_eq split: prod.splits sum.splits go_err.splits)
  then show ?thesis using assms
    by (simp add: VpcEnsureLoadBalancer_def VpcUpdateLoadBalancer_def bindM_def wakeWaiting_def)
qed

text \<open>C39: When the credential file is rewritten with a usable key, the VPC object and the VPC client of the metadata service are dropped, and the
  next VPC object is made with the key that is then in the file; a file that holds no usable key leaves everything as it was.\<close>

theorem credentials_rotate:
  assumes "cloud_Config c = Some config" "prov_G2Credentials (cc_Prov config) = path" "path \<noteq> []"
    and "pf_ReadFile pf path (pr_World p) = (Inr key, s1)" "credentialEvent pf c True p = (r, p1)"
    and "pf_ReadFile pf path s1 = (Inr key', s2)" "InitCloudVpc pf c b p1 = (Inr vpc, p2)"
  shows "if Contains (TrimSpace key) '' '' then p1 = p\<lparr>pr_World := s1\<rparr>
    else pr_CloudVpc p1 = None \<and> (\<forall>ms. pr_Metadata p1 = Some ms \<longrightarrow> ms_vpcClient ms = None) \<and>
      cfg_APIKeySecret (vpc_Config vpc) = (if Contains (TrimSpace key') '' '' then [] else TrimSpace key') \<and> pr_CloudVpc p2 = Some vpc"
proof (cases "Contains (TrimSpace key) '' ''")
  case True
  with assms(1,2,4,5) show ?thesis by (simp add: credentialEvent_def tryM_def inWorld_eq bindM_def)
next
  case False
  with assms(1,2,4,5) have p1: "p1 = p\<lparr>pr_World := s1, pr_CloudVpc := None, pr_Metadata := map_option (\<lambda>ms. ms\<lparr>ms_vpcClient := None\<rparr>) (pr_Metadata p)\<rparr>"
    by (simp add: credentialEvent_def tryM_def inWorld_eq bindM_def ResetCloudVpc_def)
  then have "pr_CloudVpc p1 = None" "pr_World p1 = s1" by simp_all
  with InitCloudVpc_result[OF assms(7)] obtain config' s' where "pr_CloudVpc p2 = Some vpc"
    "NewConfigVpc pf c b s1 = (Inr config', s')" "cfg_APIKeySecret (vpc_Config vpc) = cfg_APIKeySecret config'" by auto
  with assms(1-3,6) p1 False show ?thesis
    by (auto simp: NewConfigVpc_def tryM_def Let_def)
qed

theorem credentials_rotate_witness:
  "\<exists>vpc p2. InitCloudVpc ex_platform ex_cloud_object True (snd (credentialEvent ex_platform ex_cloud_object True ex_process)) = (Inr vpc, p2) \<and>
     cfg_APIKeySecret (vpc_Config vpc) = ''secret''"
proof -
  obtain r p1 where e: "credentialEvent ex_platform ex_cloud_object True ex_process = (r, p1)"
    by (cases "credentialEvent ex_platform ex_cloud_object True ex_process")
  obtain ri p2 where i: "InitCloudVpc ex_platform ex_cloud_object True p1 = (ri, p2)" by (cases "InitCloudVpc ex_platform ex_cloud_object True p1")
  have "isl (fst (InitCloudVpc ex_platform ex_cloud_object True (snd (credentialEvent ex_platform ex_cloud_object True ex_process)))) = False"
    by code_simp
  then obtain vpc where vpc: "ri = Inr vpc" using e i by (cases ri) auto
  have "cloud_Config ex_cloud_object = Some ex_cloud_config" "prov_G2Credentials (cc_Prov ex_cloud_config) = ''/etc/key''" "''/etc/key'' \<noteq> []"
    "pf_ReadFile ex_platform ''/etc/key'' (pr_World ex_process) = (Inr ''secret'', 1)" "pf_ReadFile ex_platform ''/etc/key'' 1 = (Inr ''secret'', 2)"
    by (simp_all add: ex_cloud_object_def ex_cloud_config_def ex_platform_def ex_process_def counted_def)
  moreover have "\<not> Contains (TrimSpace ''secret'') '' ''" "TrimSpace ''secret'' = ''secret''" by code_simp+
  ultimately show ?thesis
    using credentials_rotate[OF _ _ _ _ e _ i[unfolded vpc], of ex_cloud_config "''/etc/key''" "''secret''" 1 "''secret''" 2] e i vpc by auto
qed

text \<open>A run of the monitor considers exactly the load-balancer services without a class whose configuration is supported, hands them to the VPC
  provider if there are any, and leaves status and VPC alone otherwise, as it does when the services cannot be listed.\<close>

lemma monitor_considers_supported_services:
  assumes "cloud_Config c = Some config" "prov_ProviderType (cc_Prov config) = VpcProviderTypeGen2" "pr_CloudVpc p = Some vpc"
    and "pf_ListServices pf (pr_World p) = (l, s1)"
    and "items = (case l of Inl e \<Rightarrow> [] | Inr services \<Rightarrow> filter (\<lambda>service. svc_Type service = ServiceTypeLoadBalancer \<and>
      svc_LoadBalancerClass service = None \<and> supported config service) services)"
    and "\<nexists>e. l = Inl (Panic e)"
  shows "Cloud_MonitorLoadBalancers pf c data p =
    (if items = [] then (Inr data, p\<lparr>pr_World := s1\<rparr>)
     else (fst (MonitorLoadBalancers (pf_Runtime pf) vpc (Some items) data s1),
           p\<lparr>pr_World := snd (MonitorLoadBalancers (pf_Runtime pf) vpc (Some items) data s1)\<rparr>))"
proof (cases l)
  case (Inl e)
  with assms(6) obtain msg where "e = Err msg" by (cases e) auto
  with Inl assms(4,5) show ?thesis by (simp add: Cloud_MonitorLoadBalancers_def tryM_def inWorld_eq)
next
  case (Inr services)
  with assms(1-5) show ?thesis
    by (auto simp: Cloud_MonitorLoadBalancers_def tryM_def inWorld_eq filterLoadBalancers_eq[OF assms(1)] VpcMonitorLoadBalancers_def withVpc_def
        split: prod.splits)
qed

lemma monitor_considers_supported_services_witness:
  "Cloud_MonitorLoadBalancers (ex_platform\<lparr>pf_ListServices := counted [ex_sctp_service]\<rparr>) ex_cloud_object Map.empty
     (ex_process\<lparr>pr_CloudVpc := Some ex_gen2_cloud\<rparr>) = (Inr Map.empty, ex_process\<lparr>pr_CloudVpc := Some ex_gen2_cloud, pr_World := 1\<rparr>)"
proof -
  have "\<not> supported ex_cloud_config ex_sctp_service" by code_simp
  moreover have "cloud_Config ex_cloud_object = Some ex_cloud_config" "prov_ProviderType (cc_Prov ex_cloud_config) = VpcProviderTypeGen2"
    by (simp_all add: ex_cloud_object_def ex_cloud_config_def VpcProviderTypeGen2_def)
  ultimately show ?thesis
    using monitor_considers_supported_services[of ex_cloud_object ex_cloud_config "ex_process\<lparr>pr_CloudVpc := Some ex_gen2_cloud\<rparr>" ex_gen2_cloud
        "ex_platform\<lparr>pf_ListServices := counted [ex_sctp_service]\<rparr>" "Inr [ex_sctp_service]" 1 "[]" Map.empty]
    by (simp add: counted_def ex_process_def)
qed

text \<open>The filter drops node-port services before the clean-up of stale load balancers sees them, so the load balancer of a node-port service, which
  the clean-up would keep, is stale for the monitor.\<close>

definition ex_node_port_service :: Service where
  "ex_node_port_service = ex_web\<lparr>svc_Type := ServiceTypeNodePort, svc_UID := ''Ready''\<rparr>"

lemma monitor_deletes_node_port_lb:
  "\<not> stale ''clusterID'' [ex_node_port_service] fake_lbReady"
  "filterLoadBalancersFromServiceList ex_cloud_object [ex_node_port_service] s = (Inr [], s)"
  "stale ''clusterID'' [] fake_lbReady"
proof -
  show "\<not> stale ''clusterID'' [ex_node_port_service] fake_lbReady" "stale ''clusterID'' [] fake_lbReady" by code_simp+
  have "cloud_Config ex_cloud_object = Some ex_cloud_config" by (simp add: ex_cloud_object_def)
  then show "filterLoadBalancersFromServiceList ex_cloud_object [ex_node_port_service] s = (Inr [], s)"
    by (simp only: filterLoadBalancers_eq) (simp add: ex_node_port_service_def)
qed

text \<open>C40: Creating the cloud object from a readable configuration and with a usable Kubernetes client: a version other than 1.0.0 and 1.1.0 is refused;
  otherwise the object is made, even when the VPC cannot be reached, with a configuration and a recorder, with a metadata service exactly
  when the configuration names an account, and with the classic provider exactly when the cluster is not on VPC.\<close>

theorem new_cloud_outcome:
  assumes "platform_ok pf Inv" "process_inv pf Inv p" "\<And>n e s. Inv s \<Longrightarrow> Inv (newRecorder n e s)"
    and "readInto text = Inr cc" "newForConfig k s1 = (Inr client, s2)" "Inv s2"
    and "getK8SConfig build (if cc_ConfigFilePaths cc = [] then [[]] else cc_ConfigFilePaths cc) (pr_World p) = (Inr k, s1)"
    and "NewCloud pf readInto build newForConfig newRecorder (Some text) p = (r, p')"
  shows "if cc_Version cc \<noteq> ''1.0.0'' \<and> cc_Version cc \<noteq> ''1.1.0'' then r = Inl (Err (''Cloud config version not valid: '' @ cc_Version cc))
    else \<exists>c. r = Inr c \<and> cloud_ok c Inv \<and> process_inv pf Inv p' \<and> (pr_Metadata p' = None \<longleftrightarrow> prov_AccountID (cc_Prov cc) = []) \<and>
      (cloud_ClassicCloud c = None \<longleftrightarrow> prov_ProviderType (cc_Prov cc) = VpcProviderTypeGen2)"
proof (cases "cc_Version cc \<noteq> ''1.0.0'' \<and> cc_Version cc \<noteq> ''1.1.0''")
  case True
  with assms(4,8) show ?thesis by (auto simp: NewCloud_def getCloudConfig_def bindM_def)
next
  case False
  let ?cc = "if length (cc_ConfigFilePaths cc) = 0 then cc\<lparr>cc_ConfigFilePaths := [[]]\<rparr> else cc"
  let ?c = "\<lparr>cloud_Name = ProviderName, cloud_Config = Some ?cc, cloud_Recorder = Some (NewCloudEventRecorder ProviderName newRecorder),
    cloud_ClassicCloud = None\<rparr>"
  let ?p = "p\<lparr>pr_World := s2, pr_Metadata := (if prov_AccountID (cc_Prov ?cc) \<noteq> []
    then Some (NewMetadataService (Some (cc_Prov ?cc)) (rt_Now (pf_Runtime pf) s2)) else None), pr_Tasks := no_tasks\<rparr>"
  have prov: "cc_Prov ?cc = cc_Prov cc" "cc_ConfigFilePaths ?cc = (if cc_ConfigFilePaths cc = [] then [[]] else cc_ConfigFilePaths cc)" by auto
  have config: "getCloudConfig readInto (Some text) = Inr cc" using False assms(4) by (auto simp: getCloudConfig_def)
  have c: "cloud_ok ?c Inv" using assms(3) by (simp add: cloud_ok_def NewCloudEventRecorder_def NewCloudEventRecorderV1_def Let_def)
  have p: "process_inv pf Inv ?p" using assms(2,6) by (simp add: process_inv_def)
  have run: "NewCloud pf readInto build newForConfig newRecorder (Some text) p =
      (if prov_ProviderType (cc_Prov cc) = VpcProviderTypeGen2 then withVpc pf ?c (\<lambda>errString. returnM ?c) (\<lambda>_. returnM ?c) ?p
       else (Inr (?c\<lparr>cloud_ClassicCloud := Some (classic_NewCloud (classicConfig_of ?cc (cc_ConfigFilePaths ?cc ! 0)))\<rparr>), ?p))"
    unfolding NewCloud_def config using assms(5,7) prov
    by (simp add: bindM_def tryM_def inWorld_eq Let_def Cloud_isProviderVpc_def config_of_def)
  show ?thesis
  proof (cases "prov_ProviderType (cc_Prov cc) = VpcProviderTypeGen2")
    case True
    from withVpc_best_effort[OF assms(1) c p, of ?c] run True assms(8)
    have "r = Inr ?c \<and> process_inv pf Inv p' \<and> pr_Metadata p' = pr_Metadata ?p" by auto
    with c False True prov(1) show ?thesis by auto
  next
    case ncl: False
    with run assms(8) have "r = Inr (?c\<lparr>cloud_ClassicCloud := Some (classic_NewCloud (classicConfig_of ?cc (cc_ConfigFilePaths ?cc ! 0)))\<rparr>)"
      "p' = ?p" by simp_all
    with c p False ncl prov(1) show ?thesis by (auto simp: cloud_ok_def)
  qed
qed

theorem new_cloud_outcome_witness:
  "isl (fst (NewCloud ex_platform (\<lambda>_. Inr ex_cloud_config) (\<lambda>_. counted ()) (\<lambda>_. counted ()) (\<lambda>_ _ s. s) (Some ''text'') ex_process)) = False"
proof -
  obtain r p' where run: "NewCloud ex_platform (\<lambda>_. Inr ex_cloud_config) (\<lambda>_. counted ()) (\<lambda>_. counted ()) (\<lambda>_ _ s. s) (Some ''text'') ex_process = (r, p')"
    by (cases "NewCloud ex_platform (\<lambda>_. Inr ex_cloud_config) (\<lambda>_. counted ()) (\<lambda>_. counted ()) (\<lambda>_ _ s. s) (Some ''text'') ex_process")
  have ok: "process_inv ex_platform (\<lambda>_. True) ex_process" by (simp add: process_inv_def ex_process_def)
  have ex: "cc_ConfigFilePaths ex_cloud_config = []" "cc_Version ex_cloud_config = ''1.1.0''" by (simp_all add: ex_cloud_config_def)
  have "\<exists>c. r = Inr c"
    using new_cloud_outcome[OF ex_platform_ok ok _ refl _ _ _ run, where k = "()" and client = "()"] by (auto simp: counted_def ex tryM_def)
  then show ?thesis unfolding run by auto
qed

end
