(* ===== verification/Ibm_Race.thy ===== *)
theory Ibm_Race
  imports Ibm_Cloud
begin

section \<open>Rotation of credentials, step by step (\<open>ibm/ibm_vpc_cloud.go\<close>)\<close>

text \<open>
  \<open>Ibm_Cloud\<close> takes \<open>InitCloudVpc\<close> and an event of the credential watcher as whole steps. Both access the variable \<open>persistentCloudVpc\<close> without a
  lock: \<open>InitCloudVpc\<close> looks at the variable, reads the credential file, makes the VPC object and stores it; the watcher reads the file and
  clears the variable. Here each access is one step, any number of threads run \<open>InitCloudVpc\<close>, and the file changes at any time. The VPC object is
  represented by the key it was made with.
\<close>

subsection \<open>States and steps\<close>

text \<open>The key that \<open>NewConfigVpc\<close> takes from the file, and what the watcher takes for a key.\<close>

definition credential_of :: "string \<Rightarrow> string" where
  "credential_of fileData = (let key = TrimSpace fileData in if Contains key '' '' then [] else key)"

definition usable :: "string \<Rightarrow> bool" where
  "usable fileData \<longleftrightarrow> \<not> Contains (TrimSpace fileData) '' ''"

text \<open>
  Where a thread in \<open>InitCloudVpc\<close> is. \<open>InitMissing\<close>: has found no VPC object; \<open>InitRead key\<close>: has read the file; \<open>InitReturned key\<close>: has
  returned a VPC object made with the key; \<open>InitFailed\<close>: has returned an error.
\<close>

datatype init_location = InitStart | InitMissing | InitRead string | InitReturned string | InitFailed

text \<open>
  \<open>rot_File\<close>: what is in the file, if it can be read; \<open>rot_Event\<close>: a write event is waiting in the channel of the watcher; \<open>rot_Reset\<close>: the watcher
  has read a usable key and is about to clear the variable.
\<close>

record rotation =
  rot_File :: "string option"
  rot_Event :: bool
  rot_Reset :: bool
  persistentCloudVpc :: "string option"
  rot_Threads :: "init_location list"

definition thread_at :: "rotation \<Rightarrow> nat \<Rightarrow> init_location \<Rightarrow> bool" where
  "thread_at s i l \<longleftrightarrow> i < length (rot_Threads s) \<and> rot_Threads s ! i = l"

definition move :: "nat \<Rightarrow> init_location \<Rightarrow> rotation \<Rightarrow> rotation" where
  "move i l s = s\<lparr>rot_Threads := (rot_Threads s)[i := l]\<rparr>"

inductive init_step :: "nat \<Rightarrow> rotation \<Rightarrow> rotation \<Rightarrow> bool" where
  found: "thread_at s i InitStart \<Longrightarrow> persistentCloudVpc s = Some key \<Longrightarrow> init_step i s (move i (InitReturned key) s)"
| missing: "thread_at s i InitStart \<Longrightarrow> persistentCloudVpc s = None \<Longrightarrow> init_step i s (move i InitMissing s)"
| unreadable: "thread_at s i InitMissing \<Longrightarrow> rot_File s = None \<Longrightarrow> init_step i s (move i InitFailed s)"
| read: "thread_at s i InitMissing \<Longrightarrow> rot_File s = Some fileData \<Longrightarrow> init_step i s (move i (InitRead (credential_of fileData)) s)"
| not_made: "thread_at s i (InitRead key) \<Longrightarrow> init_step i s (move i InitFailed s)"
| stored: "thread_at s i (InitRead key) \<Longrightarrow> init_step i s (move i (InitReturned key) (s\<lparr>persistentCloudVpc := Some key\<rparr>))"

text \<open>To receive the event and to read the file is one step: only reading touches what others change.\<close>

inductive watch_step :: "rotation \<Rightarrow> rotation \<Rightarrow> bool" where
  ignored: "rot_Event s \<Longrightarrow> \<not> rot_Reset s \<Longrightarrow> (case rot_File s of None \<Rightarrow> True | Some fileData \<Rightarrow> \<not> usable fileData) \<Longrightarrow>
    watch_step s (s\<lparr>rot_Event := False\<rparr>)"
| noticed: "rot_Event s \<Longrightarrow> \<not> rot_Reset s \<Longrightarrow> rot_File s = Some fileData \<Longrightarrow> usable fileData \<Longrightarrow>
    watch_step s (s\<lparr>rot_Event := False, rot_Reset := True\<rparr>)"
| reset: "rot_Reset s \<Longrightarrow> watch_step s (s\<lparr>rot_Reset := False, persistentCloudVpc := None\<rparr>)"

text \<open>The file is written, which raises an event, or becomes unreadable, which does not.\<close>

inductive file_step :: "rotation \<Rightarrow> rotation \<Rightarrow> bool" where
  written: "file_step s (s\<lparr>rot_File := Some fileData, rot_Event := True\<rparr>)"
| removed: "file_step s (s\<lparr>rot_File := None\<rparr>)"

text \<open>A write overlaps with an initialization when some thread has read the file and not yet returned.\<close>

definition between :: "init_location \<Rightarrow> bool" where
  "between l = (case l of InitRead _ \<Rightarrow> True | _ \<Rightarrow> False)"

definition overlapping :: "rotation \<Rightarrow> bool" where
  "overlapping s = list_ex between (rot_Threads s)"

inductive program_step :: "rotation \<Rightarrow> rotation \<Rightarrow> bool" where
  init: "init_step i s s' \<Longrightarrow> program_step s s'"
| watch: "watch_step s s' \<Longrightarrow> program_step s s'"

inductive rotation_step :: "rotation \<Rightarrow> rotation \<Rightarrow> bool" where
  program: "program_step s s' \<Longrightarrow> rotation_step s s'"
| changed: "file_step s s' \<Longrightarrow> rotation_step s s'"

inductive separate_step :: "rotation \<Rightarrow> rotation \<Rightarrow> bool" where
  program: "program_step s s' \<Longrightarrow> separate_step s s'"
| changed: "file_step s s' \<Longrightarrow> \<not> overlapping s \<Longrightarrow> separate_step s s'"

definition rotation_init :: "string \<Rightarrow> nat \<Rightarrow> rotation" where
  "rotation_init fileData n =
     \<lparr>rot_File = Some fileData, rot_Event = False, rot_Reset = False, persistentCloudVpc = None, rot_Threads = replicate n InitStart\<rparr>"

inductive_cases program_stepE: "program_step s s'"
inductive_cases init_stepE: "init_step i s s'"
inductive_cases watch_stepE: "watch_step s s'"
inductive_cases file_stepE: "file_step s s'"

subsection \<open>The whole operations\<close>

text \<open>The configuration has the key that \<open>read\<close> takes, and a write event is handled as by \<open>noticed\<close> and \<open>reset\<close>, or \<open>ignored\<close>.\<close>

lemma NewConfigVpc_credential:
  assumes "cloud_Config c = Some config" "prov_G2Credentials (cc_Prov config) \<noteq> []"
    and "pf_ReadFile pf (prov_G2Credentials (cc_Prov config)) s = (Inr fileData, s')"
  shows "\<exists>cfg. NewConfigVpc pf c b s = (Inr cfg, s') \<and> cfg_APIKeySecret cfg = credential_of fileData"
  using assms by (simp add: NewConfigVpc_def tryM_def Let_def credential_of_def)

lemma credentialEvent_usable:
  assumes "cloud_Config c = Some config" "pf_ReadFile pf (prov_G2Credentials (cc_Prov config)) (pr_World p) = (Inr fileData, s')"
  shows "pr_CloudVpc (snd (credentialEvent pf c True p)) = (if usable fileData then None else pr_CloudVpc p)"
  using assms by (simp add: credentialEvent_def tryM_def bindM_def inWorld_eq usable_def ResetCloudVpc_def)

subsection \<open>Without overlap\<close>

text \<open>
  The stored key is that of the file, or the watcher is about to clear it; a thread that has read the file has the key of the file.
\<close>

definition key_of_file :: "rotation \<Rightarrow> string \<Rightarrow> bool" where
  "key_of_file s key \<longleftrightarrow> (\<forall>fileData. rot_File s = Some fileData \<longrightarrow> usable fileData \<longrightarrow> key = credential_of fileData)"

definition rotation_inv :: "rotation \<Rightarrow> bool" where
  "rotation_inv s \<longleftrightarrow>
     (\<forall>key. persistentCloudVpc s = Some key \<longrightarrow> rot_Event s \<or> rot_Reset s \<or> key_of_file s key) \<and>
     (\<forall>i key. thread_at s i (InitRead key) \<longrightarrow> key_of_file s key)"

lemma move_simps [simp]:
  "rot_File (move i l s) = rot_File s" "rot_Event (move i l s) = rot_Event s" "rot_Reset (move i l s) = rot_Reset s"
  "persistentCloudVpc (move i l s) = persistentCloudVpc s" "rot_Threads (move i l s) = (rot_Threads s)[i := l]"
  "key_of_file (move i l s) = key_of_file s"
  by (simp_all add: move_def key_of_file_def fun_eq_iff)

lemma thread_at_move [simp]: "thread_at (move i l s) j l' \<longleftrightarrow> (if j = i then i < length (rot_Threads s) \<and> l = l' else thread_at s j l')"
  by (auto simp: thread_at_def)

lemma thread_at_update [simp]:
  "thread_at (s\<lparr>rot_Event := e\<rparr>) = thread_at s" "thread_at (s\<lparr>rot_Reset := r\<rparr>) = thread_at s"
  "thread_at (s\<lparr>persistentCloudVpc := v\<rparr>) = thread_at s" "thread_at (s\<lparr>rot_File := f\<rparr>) = thread_at s"
  "key_of_file (s\<lparr>rot_Event := e\<rparr>) = key_of_file s" "key_of_file (s\<lparr>rot_Reset := r\<rparr>) = key_of_file s"
  "key_of_file (s\<lparr>persistentCloudVpc := v\<rparr>) = key_of_file s"
  by (simp_all add: thread_at_def key_of_file_def fun_eq_iff)

lemma init_step_inv: "init_step i s s' \<Longrightarrow> rotation_inv s \<Longrightarrow> rotation_inv s'"
proof (induction rule: init_step.induct)
  case (read s i fileData)
  then show ?case by (auto simp: rotation_inv_def key_of_file_def)
qed (auto simp: rotation_inv_def)

lemma watch_step_inv: "watch_step s s' \<Longrightarrow> rotation_inv s \<Longrightarrow> rotation_inv s'"
  by (induction rule: watch_step.induct) (auto simp: rotation_inv_def key_of_file_def split: option.splits)

lemma not_overlapping: "\<not> overlapping s \<Longrightarrow> \<not> thread_at s i (InitRead key)"
  by (auto simp: thread_at_def overlapping_def list_ex_length between_def split: init_location.splits)

lemma separate_step_inv: "separate_step s s' \<Longrightarrow> rotation_inv s \<Longrightarrow> rotation_inv s'"
proof (induction rule: separate_step.induct)
  case (program s s')
  then show ?case by (auto elim: program_stepE intro: init_step_inv watch_step_inv)
next
  case (changed s s')
  from changed(1) show ?case
    by (cases rule: file_step.cases) (auto simp: rotation_inv_def not_overlapping[OF changed(2)] key_of_file_def)
qed

lemma separate_reachable_inv: "separate_step\<^sup>*\<^sup>* (rotation_init fileData n) s \<Longrightarrow> rotation_inv s"
proof (induction rule: rtranclp_induct)
  case base
  show ?case by (auto simp: rotation_inv_def rotation_init_def thread_at_def)
qed (rule separate_step_inv)

subsection \<open>With overlap\<close>

text \<open>A stale key that nothing is about to remove.\<close>

definition settled_on :: "string \<Rightarrow> rotation \<Rightarrow> bool" where
  "settled_on key s \<longleftrightarrow> persistentCloudVpc s = Some key \<and> \<not> rot_Event s \<and> \<not> rot_Reset s \<and>
     list_all (\<lambda>l. l = InitStart \<or> l = InitReturned key \<or> l = InitFailed) (rot_Threads s)"

lemma list_all_update: "list_all P xs \<Longrightarrow> P x \<Longrightarrow> list_all P (xs[i := x])"
  by (auto simp: list_all_iff dest: set_update_subset_insert[THEN subsetD])

lemma settled_on_step:
  assumes "program_step s s'" "settled_on key s"
  shows "settled_on key s'"
  using assms(1)
proof (cases rule: program_step.cases)
  case (init i)
  have l: "l = InitStart \<or> l = InitReturned key \<or> l = InitFailed" if "thread_at s i l" for l
    using that assms(2) by (auto simp: settled_on_def list_all_iff thread_at_def)
  from init assms(2) show ?thesis
    by (cases rule: init_step.cases) (auto dest!: l simp: settled_on_def intro!: list_all_update)
next
  case watch
  then show ?thesis using assms(2) by (cases rule: watch_step.cases) (auto simp: settled_on_def)
qed

lemma settled_on_stays: "program_step\<^sup>*\<^sup>* s s' \<Longrightarrow> settled_on key s \<Longrightarrow> settled_on key s'"
  by (induction rule: rtranclp_induct) (auto intro: settled_on_step)

subsection \<open>Properties\<close>

text \<open>C36: Credentials are rotated as intended as long as the credential file is not written while some thread is between reading it and returning
  its VPC object: in every interleaving of initializations, watcher and file, the stored VPC object has the key of the file, if the file holds a usable key,
  or the watcher is going to clear it.\<close>

theorem rotation_without_overlap:
  assumes "separate_step\<^sup>*\<^sup>* (rotation_init fileData0 n) s"
    and "persistentCloudVpc s = Some key" "rot_File s = Some fileData" "usable fileData"
  shows "key = credential_of fileData \<or> rot_Event s \<or> rot_Reset s"
  using separate_reachable_inv[OF assms(1)] assms(2-4) by (auto simp: rotation_inv_def key_of_file_def)

text \<open>One thread makes the VPC object with the key in the file.\<close>

definition ex_rotation :: rotation where
  "ex_rotation = \<lparr>rot_File = Some ''old'', rot_Event = False, rot_Reset = False, persistentCloudVpc = Some ''old'',
     rot_Threads = [InitReturned ''old'', InitStart]\<rparr>"

lemma program_stepI: "init_step i s s' \<Longrightarrow> program_step s s'" "watch_step s s' \<Longrightarrow> program_step s s'"
  by (auto intro: program_step.intros)

lemma credential_of_examples: "credential_of ''old'' = ''old''" "usable ''old''" "usable ''new''" "credential_of ''new'' = ''new''"
  by code_simp+

definition ex_start :: rotation where
  "ex_start = rotation_init ''old'' 2"

definition ex_missing :: rotation where
  "ex_missing = move 0 InitMissing ex_start"

definition ex_read :: rotation where
  "ex_read = move 0 (InitRead ''old'') ex_missing"

lemma ex_steps: "program_step ex_start ex_missing" "program_step ex_missing ex_read"
proof -
  have "thread_at ex_start 0 InitStart" "persistentCloudVpc ex_start = None" by (simp_all add: ex_start_def rotation_init_def thread_at_def)
  from program_stepI(1)[OF init_step.missing[OF this]] show "program_step ex_start ex_missing" by (simp add: ex_missing_def)
  have "thread_at ex_missing 0 InitMissing" "rot_File ex_missing = Some ''old''"
    by (simp_all add: ex_missing_def ex_start_def rotation_init_def)
  from program_stepI(1)[OF init_step.read[OF this]] show "program_step ex_missing ex_read" by (simp add: ex_read_def credential_of_examples)
qed

lemma ex_stored: "program_step ex_read ex_rotation"
proof -
  have "thread_at ex_read 0 (InitRead ''old'')" by (simp add: ex_read_def ex_missing_def ex_start_def rotation_init_def)
  from program_stepI(1)[OF init_step.stored[OF this]] show ?thesis
    by (simp add: ex_read_def ex_missing_def ex_start_def rotation_init_def move_def ex_rotation_def numeral_2_eq_2)
qed

theorem rotation_without_overlap_witness:
  "separate_step\<^sup>*\<^sup>* (rotation_init ''old'' 2) ex_rotation \<and> (''old'' = credential_of ''old'' \<or> rot_Event ex_rotation \<or> rot_Reset ex_rotation)"
proof -
  have run: "separate_step\<^sup>*\<^sup>* (rotation_init ''old'' 2) ex_rotation"
    unfolding ex_start_def[symmetric] using ex_steps ex_stored by (meson converse_rtranclp_into_rtranclp rtranclp.rtrancl_refl separate_step.program)
  moreover have "persistentCloudVpc ex_rotation = Some ''old''" "rot_File ex_rotation = Some ''old''" by (simp_all add: ex_rotation_def)
  ultimately show ?thesis using rotation_without_overlap[OF run _ _ credential_of_examples(2)] by blast
qed

text \<open>C37: The two accesses race. There is a run in which a thread reads the old key, the file gets a new usable key, the watcher handles the event
  and clears the variable, and then the thread stores its VPC object with the old key. From then on, whatever the threads and the watcher do, every
  initialization returns the object with the old key, until the file is written again.\<close>

theorem stale_credentials_race:
  "\<exists>s. rotation_step\<^sup>*\<^sup>* (rotation_init ''old'' 2) s \<and> rot_File s = Some ''new'' \<and> usable ''new'' \<and> settled_on ''old'' s \<and>
    thread_at s 1 InitStart \<and> (\<forall>s'. program_step\<^sup>*\<^sup>* s s' \<longrightarrow> settled_on ''old'' s')"
proof -
  define s1 where "s1 = ex_read\<lparr>rot_File := Some ''new'', rot_Event := True\<rparr>"
  define s2 where "s2 = s1\<lparr>rot_Event := False, rot_Reset := True\<rparr>"
  define s3 where "s3 = s2\<lparr>rot_Reset := False, persistentCloudVpc := None\<rparr>"
  define s4 where "s4 = ex_rotation\<lparr>rot_File := Some ''new''\<rparr>"
  note defs = s1_def s2_def s3_def s4_def ex_read_def ex_missing_def ex_start_def rotation_init_def move_def ex_rotation_def
  have 1: "rotation_step ex_read s1" unfolding s1_def by (rule rotation_step.changed[OF file_step.written])
  have 2: "rotation_step s1 s2" unfolding s2_def
    by (rule rotation_step.program[OF program_stepI(2)[OF watch_step.noticed[of _ "''new''"]]])
      (simp_all add: defs credential_of_examples)
  have 3: "rotation_step s2 s3" unfolding s3_def
    by (rule rotation_step.program[OF program_stepI(2)[OF watch_step.reset]]) (simp add: defs)
  have "thread_at s3 0 (InitRead ''old'')" by (simp add: thread_at_def defs)
  moreover have "move 0 (InitReturned ''old'') (s3\<lparr>persistentCloudVpc := Some ''old''\<rparr>) = s4" by (simp add: defs numeral_2_eq_2)
  ultimately have 4: "rotation_step s3 s4" using init_step.stored[of s3 0 "''old''"] by (auto intro: rotation_step.program program_stepI)
  have "rotation_step\<^sup>*\<^sup>* (rotation_init ''old'' 2) s4"
    unfolding ex_start_def[symmetric] using ex_steps 1 2 3 4
    by (meson converse_rtranclp_into_rtranclp rtranclp.rtrancl_refl rotation_step.program)
  moreover have "settled_on ''old'' s4" "rot_File s4 = Some ''new''" "thread_at s4 1 InitStart"
    by (simp_all add: settled_on_def thread_at_def s4_def ex_rotation_def)
  ultimately show ?thesis using credential_of_examples(3) settled_on_stays by blast
qed

theorem stale_credentials_race_witness:
  "\<exists>s s'. rotation_step\<^sup>*\<^sup>* (rotation_init ''old'' 2) s \<and> rot_File s = Some ''new'' \<and> program_step s s' \<and> thread_at s' 1 (InitReturned ''old'') \<and>
    settled_on ''old'' s'"
proof -
  obtain s where s: "rotation_step\<^sup>*\<^sup>* (rotation_init ''old'' 2) s" "rot_File s = Some ''new''" "settled_on ''old'' s" "thread_at s 1 InitStart"
    "\<forall>s'. program_step\<^sup>*\<^sup>* s s' \<longrightarrow> settled_on ''old'' s'" using stale_credentials_race by blast
  have "persistentCloudVpc s = Some ''old''" using s(3) by (simp add: settled_on_def)
  then have step: "program_step s (move 1 (InitReturned ''old'') s)" using s(4) by (intro program_stepI(1)[OF init_step.found])
  moreover have "thread_at (move 1 (InitReturned ''old'') s) 1 (InitReturned ''old'')" using s(4) by (simp add: thread_at_def)
  ultimately show ?thesis using s(1,2,5) r_into_rtranclp[of program_step, OF step] by blast
qed

end
