(* ===== verification/Ibm_Typing.thy ===== *)
theory Ibm_Typing
  imports Ibm_Cloud
begin

section \<open>The VPC object is well-formed\<close>

text \<open>
  Between calls the process keeps one VPC object. It is made from the configuration of the cloud provider and the credential file, checked and completed
  by \<open>ConfigVpc.initialize\<close>, and dropped when the credentials change. Here the configuration in it is given a type, and every call of the
  cloud object is shown to preserve it: the SDK is never used with a configuration that was not checked, or with the URLs not set.
\<close>

subsection \<open>Well-formed configurations\<close>

text \<open>What the rest of the program relies on: required settings are there, the key is one word, and URLs are those of the private endpoints if asked for.\<close>

definition wt_gen2 :: "ConfigVpc \<Rightarrow> bool" where
  "wt_gen2 c \<longleftrightarrow>
     [] \<notin> {cfg_AccountID c, cfg_APIKeySecret c, cfg_Region c, cfg_ResourceGroupName c, cfg_SubnetNames c, cfg_VpcName c} \<and>
     \<not> Contains (cfg_APIKeySecret c) '' '' \<and>
     HasSuffix (cfg_endpointURL c) ''/v1'' \<and> HasSuffix (cfg_tokenExchangeURL c) ''/identity/token'' \<and>
     (cfg_EnablePrivate c \<longrightarrow>
        (cfg_VpcEndpointOverride c = [] \<longrightarrow> HasPrefix (cfg_endpointURL c) (''https://'' @ cfg_Region c @ ''.private.'')) \<and>
        (cfg_IamEndpointOverride c = [] \<longrightarrow> HasPrefix (cfg_tokenExchangeURL c) ''https://private.''))"

definition wt_config :: "ConfigVpc \<Rightarrow> bool" where
  "wt_config c \<longleftrightarrow> cfg_ClusterID c \<noteq> [] \<and>
     (cfg_ProviderType c = VpcProviderTypeFake \<or> cfg_ProviderType c = VpcProviderTypeGen2 \<and> wt_gen2 c)"

definition wt_process :: "'s Process \<Rightarrow> bool" where
  "wt_process p = (case pr_CloudVpc p of None \<Rightarrow> True | Some vpc \<Rightarrow> wt_config (vpc_Config vpc))"

lemma HasSuffix_append [simp]: "HasSuffix (s @ t) t"
  by (simp add: HasSuffix_def)

text \<open>What \<open>initialize\<close> accepts and completes.\<close>

lemma config_initialize_wt:
  assumes "config_initialize c = Inr c'" "\<not> Contains (cfg_APIKeySecret c) '' ''"
  shows "wt_config c'"
proof (cases "cfg_ProviderType c = VpcProviderTypeFake")
  case True
  with assms(1) show ?thesis by (auto simp: config_initialize_def validate_def wt_config_def split: if_splits)
next
  case False
  with assms(1) have c': "c' = c\<lparr>cfg_endpointURL := getVpcEndpoint c @ ''/v1'', cfg_tokenExchangeURL := getIamEndpoint c @ ''/identity/token''\<rparr>"
    and set: "cfg_ClusterID c \<noteq> []" "cfg_ProviderType c = VpcProviderTypeGen2"
      "[] \<notin> {cfg_AccountID c, cfg_APIKeySecret c, cfg_Region c, cfg_ResourceGroupName c, cfg_SubnetNames c, cfg_VpcName c}"
    by (auto simp: config_initialize_def validate_def split: if_splits)
  have vpc: "HasPrefix (getVpcEndpoint c @ t) (''https://'' @ cfg_Region c @ ''.private.'')"
    if "cfg_EnablePrivate c" "cfg_VpcEndpointOverride c = []" for t
    using that by (auto simp: getVpcEndpoint_def Let_def HasPrefix_iff)
  have iam: "HasPrefix (getIamEndpoint c @ t) ''https://private.''" if "cfg_EnablePrivate c" "cfg_IamEndpointOverride c = []" for t
    using that by (auto simp: getIamEndpoint_def iamStagePrivateTokenExchangeURL_def iamPrivateTokenExchangeURL_def)
  have "wt_gen2 c'" using assms(2) set(3) vpc iam by (simp add: wt_gen2_def c')
  with set(1,2) show ?thesis by (simp add: wt_config_def c')
qed

lemma NewConfigVpc_key:
  assumes "NewConfigVpc pf c b s = (Inr config, s')"
  shows "\<not> Contains (cfg_APIKeySecret config) '' ''"
  using assms by (auto simp: NewConfigVpc_def Let_def tryM_def split: option.splits if_splits prod.splits sum.splits go_err.splits)

subsection \<open>Calls preserve the type\<close>

definition keeps :: "('p, 'a) io \<Rightarrow> ('p \<Rightarrow> bool) \<Rightarrow> bool" where
  "keeps m T \<longleftrightarrow> (\<forall>p. T p \<longrightarrow> T (snd (m p)))"

lemma keeps_basic: "keeps (returnM x) T" "keeps (raiseM e) T" "keeps (liftM r) T"
  by (auto simp: keeps_def liftM_def split: sum.split)

lemma keeps_bind: "keeps m T \<Longrightarrow> (\<And>x. keeps (f x) T) \<Longrightarrow> keeps (bindM m f) T"
  by (auto simp: keeps_def bindM_def split: prod.split sum.split)

lemma keeps_try: "keeps m T \<Longrightarrow> (\<And>e. keeps (h e) T) \<Longrightarrow> (\<And>x. keeps (f x) T) \<Longrightarrow> keeps (tryM m h f) T"
  by (auto simp: keeps_def tryM_def split: prod.split sum.split go_err.split)

lemma keeps_if: "(b \<Longrightarrow> keeps m T) \<Longrightarrow> (\<not> b \<Longrightarrow> keeps n T) \<Longrightarrow> keeps (if b then m else n) T"
  by simp

lemma keeps_inWorld: "keeps (inWorld m) wt_process"
  by (simp add: keeps_def inWorld_eq wt_process_def)

lemmas keeps_rules = keeps_basic keeps_bind keeps_try keeps_if keeps_inWorld

lemma keeps_config: "keeps (config_of c) T" "keeps (Cloud_isProviderVpc c) T" "keeps (vpcGetLoadBalancerName c service) T"
  unfolding config_of_def Cloud_isProviderVpc_def vpcGetLoadBalancerName_def
  by (auto intro!: keeps_rules simp del: io_simps simp: config_of_def split: option.split)

lemma keeps_InitCloudVpc: "keeps (InitCloudVpc pf c b) wt_process"
  unfolding keeps_def
proof (intro allI impI)
  fix p :: "'a Process"
  assume p: "wt_process p"
  show "wt_process (snd (InitCloudVpc pf c b p))"
  proof (cases "pr_CloudVpc p")
    case (Some vpc)
    with p show ?thesis by simp
  next
    case None
    obtain rc s1 where rc: "NewConfigVpc pf c b (pr_World p) = (rc, s1)" by (cases "NewConfigVpc pf c b (pr_World p)")
    show ?thesis
    proof (cases rc)
      case (Inl e)
      with None rc show ?thesis by (auto simp: InitCloudVpc_def GetCloudVpc_def bindM_def inWorld_eq wt_process_def)
    next
      case (Inr config)
      have key: "\<not> Contains (cfg_APIKeySecret config) '' ''" by (rule NewConfigVpc_key[OF rc[unfolded Inr]])
      obtain r new s2 where n: "NewCloudVpc (newVpcSdk pf) (pf_NewVpcSdkFake pf) (Some config) (cloud_recorder c) None s1 = ((r, new), s2)"
        by (metis prod.exhaust)
      have "InitCloudVpc pf c b p = (r, p\<lparr>pr_World := s2, pr_CloudVpc := new\<rparr>)"
        using None rc Inr n by (simp add: InitCloudVpc_def GetCloudVpc_def bindM_def inWorld_eq cloud_recorder_def)
      moreover have "case new of None \<Rightarrow> True | Some vpc \<Rightarrow> wt_config (vpc_Config vpc)"
        using n config_initialize_wt[OF _ key] by (auto simp: NewCloudVpc_def SetCloudVpc_def Let_def split: sum.splits prod.splits)
      ultimately show ?thesis by (simp add: wt_process_def)
    qed
  qed
qed

lemma keeps_withVpc:
  assumes "\<And>e. keeps (failed e) wt_process" "\<And>vpc. keeps (m vpc) wt_process"
  shows "keeps (withVpc pf c failed m) wt_process"
  using keeps_try[OF keeps_InitCloudVpc assms(1) assms(2)] by (simp add: withVpc_def keeps_def)

lemma keeps_supported: "keeps (isServiceConfigurationSupported c service) T"
  unfolding isServiceConfigurationSupported_def
  by (auto intro!: keeps_rules keeps_config simp del: io_simps split: option.split)

lemma keeps_filter: "keeps (filterLoadBalancersFromServiceList c services) T"
  by (induction services) (auto intro!: keeps_rules keeps_supported simp del: io_simps)

lemma keeps_steps:
  "keeps wakeWaiting wt_process"
  "keeps (\<lambda>p. (r, if pr_CreateUpdateChan p then p\<lparr>pr_World := w p\<rparr> else p)) wt_process"
  "keeps (credentialEvent pf c is_write) wt_process"
  "keeps Cloud_LoadBalancer wt_process"
proof -
  have "keeps (\<lambda>p. if b then (Inr () :: unit res, p) else (Inr (), p\<lparr>pr_CloudVpc := ResetCloudVpc (pr_CloudVpc p), pr_Metadata := g p\<rparr>)) wt_process" for b g
    by (simp add: keeps_def wt_process_def ResetCloudVpc_def)
  then show "keeps (credentialEvent pf c is_write) wt_process"
    unfolding credentialEvent_def by (auto intro!: keeps_rules keeps_config simp del: io_simps)
qed (simp_all add: keeps_def wakeWaiting_def Cloud_LoadBalancer_def wt_process_def)

lemma keeps_Vpc:
  "keeps (VpcEnsureLoadBalancer pf c service nodes) wt_process" "keeps (VpcUpdateLoadBalancer pf c service nodes) wt_process"
  "keeps (VpcEnsureLoadBalancerDeleted pf c service) wt_process" "keeps (VpcGetLoadBalancer pf c service) wt_process"
  "keeps (VpcMonitorLoadBalancers pf c services status) wt_process"
  unfolding VpcEnsureLoadBalancer_def VpcUpdateLoadBalancer_def VpcEnsureLoadBalancerDeleted_def VpcGetLoadBalancer_def VpcMonitorLoadBalancers_def
  by (intro keeps_rules keeps_config keeps_withVpc keeps_steps)+

text \<open>The calls that the Kubernetes controllers and the program itself make on the cloud object.\<close>

datatype call =
    EnsureCall Service "Node list"
  | UpdateCall Service "Node list"
  | DeleteCall Service
  | GetCall Service
  | LoadBalancerCall
  | MonitorRun LbStatus
  | CredentialWritten bool

fun run_call :: "'s Platform \<Rightarrow> 's Cloud \<Rightarrow> call \<Rightarrow> 's Process \<Rightarrow> 's Process" where
  "run_call pf c (EnsureCall service nodes) p = snd (Cloud_EnsureLoadBalancer pf c service nodes p)"
| "run_call pf c (UpdateCall service nodes) p = snd (Cloud_UpdateLoadBalancer pf c service nodes p)"
| "run_call pf c (DeleteCall service) p = snd (Cloud_EnsureLoadBalancerDeleted pf c service p)"
| "run_call pf c (GetCall service) p = snd (Cloud_GetLoadBalancer pf c service p)"
| "run_call pf c LoadBalancerCall p = snd (Cloud_LoadBalancer p)"
| "run_call pf c (MonitorRun data) p = snd (Cloud_MonitorLoadBalancers pf c data p)"
| "run_call pf c (CredentialWritten is_write) p = snd (credentialEvent pf c is_write p)"

lemma run_call_wt:
  assumes "wt_process p"
  shows "wt_process (run_call pf c call p)"
proof -
  have "keeps (Cloud_EnsureLoadBalancer pf c service nodes) wt_process" "keeps (Cloud_UpdateLoadBalancer pf c service nodes) wt_process"
    "keeps (Cloud_EnsureLoadBalancerDeleted pf c service) wt_process" "keeps (Cloud_GetLoadBalancer pf c service) wt_process"
    "keeps (Cloud_MonitorLoadBalancers pf c data) wt_process" for service nodes data
    unfolding Cloud_EnsureLoadBalancer_def Cloud_UpdateLoadBalancer_def Cloud_EnsureLoadBalancerDeleted_def Cloud_GetLoadBalancer_def
      Cloud_MonitorLoadBalancers_def classic_EnsureLoadBalancer_def classic_UpdateLoadBalancer_def classic_EnsureLoadBalancerDeleted_def
      classic_GetLoadBalancer_def classic_MonitorLoadBalancers_def
    by (intro keeps_rules keeps_config keeps_supported keeps_filter keeps_Vpc)+
  with assms keeps_steps(3,4) show ?thesis by (cases call) (auto simp: keeps_def)
qed

subsection \<open>Properties\<close>

text \<open>C35: The VPC object has its type. Whatever calls are made on the cloud object, in whatever order and with whatever outcome, and however often the
  credential file is written, the VPC object that the process keeps is made from a checked and completed configuration: a cluster ID and, for the
  VPC provider, account, region, resource group, subnets and VPC name are set, the API key is one non-empty word, the URLs end in the
  API version and the token path, and they are those of the private endpoints when these are enabled and not overridden.\<close>

theorem stored_vpc_object_typed:
  assumes "wt_process p"
  shows "wt_process (fold (run_call pf c) calls p)"
  using assms by (induction calls arbitrary: p) (auto intro: run_call_wt)

theorem stored_vpc_object_typed_witness:
  "case pr_CloudVpc (fold (run_call ex_platform ex_cloud_object) [CredentialWritten True, GetCall ex_web, LoadBalancerCall] ex_process) of
     None \<Rightarrow> False
   | Some vpc \<Rightarrow> wt_gen2 (vpc_Config vpc) \<and> cfg_APIKeySecret (vpc_Config vpc) = ''secret''"
proof -
  let ?p = "fold (run_call ex_platform ex_cloud_object) [CredentialWritten True, GetCall ex_web, LoadBalancerCall] ex_process"
  have "wt_process ex_process" by (simp add: wt_process_def ex_process_def)
  then have wt: "wt_process ?p" by (rule stored_vpc_object_typed)
  have "map_option (\<lambda>vpc. (cfg_ProviderType (vpc_Config vpc), cfg_APIKeySecret (vpc_Config vpc))) (pr_CloudVpc ?p) = Some (''g2'', ''secret'')"
    by code_simp
  with wt show ?thesis
    by (auto simp: wt_process_def wt_config_def VpcProviderTypeFake_def split: option.splits)
qed

end
