(* ===== verification/Ccm_Main.thy ===== *)
theory Ccm_Main
  imports Ibm_Cloud
begin

section \<open>The command (\<open>main.go\<close>, \<open>ibm/ibm_version.go\<close>) and the logger (\<open>pkg/klog/logger.go\<close>)\<close>

text \<open>
  The program around the cloud object: options, the command with its flags, the version flag, initialization of the cloud
  provider and the start of the controllers; and the logger of the packages. A routine may end the process, so its value is wrapped in
  \<open>ending\<close>. The libraries (the options and the application of \<open>k8s.io/cloud-provider\<close>, the command-line package, \<open>klog\<close>) are the fields of \<open>Ccm\<close>.
\<close>

subsection \<open>Formatting\<close>

text \<open>
  \<open>fmt.Sprintf\<close>: an argument is its type and its text for the verb it meets. A verb is a percent sign, plus signs and a letter; too few
  and too many arguments are reported in the text.
\<close>

type_synonym arg = "string \<times> string"

fun Sprintf :: "string \<Rightarrow> arg list \<Rightarrow> string" where
  "Sprintf [] args =
     (if args = [] then [] else ''%!(EXTRA '' @ Join '', '' (map (\<lambda>(t, v). t @ ''='' @ v) args) @ '')'')"
| "Sprintf (c # f) args =
     (if c \<noteq> CHR ''%'' then c # Sprintf f args
      else (case f of
          [] \<Rightarrow> ''%!(NOVERB)'' @ Sprintf [] args
        | d # g \<Rightarrow>
            if d = CHR ''%'' then d # Sprintf g args
            else if d = CHR ''+'' then Sprintf (c # g) args
            else (case args of
                [] \<Rightarrow> ''%!'' @ [d] @ ''(MISSING)'' @ Sprintf g []
              | (t, v) # rest \<Rightarrow> v @ Sprintf g rest)))"

subsection \<open>State\<close>

datatype level = InfoLog | WarningLog | ErrorLog | FatalLog

record 's Ccm_State =
  cs_World :: 's
  cs_Stdout :: string
  cs_Stderr :: string
  cs_Log :: "(level \<times> string) list"
  cs_logStdout :: bool
  cs_versionFlag :: bool

datatype 'a ending = Ret 'a | Exit int

type_synonym ('s, 'a) prog = "'s Ccm_State \<Rightarrow> 'a ending \<times> 's Ccm_State"

definition bindP :: "('s, 'a) prog \<Rightarrow> ('a \<Rightarrow> ('s, 'b) prog) \<Rightarrow> ('s, 'b) prog" where
  "bindP m f s = (case m s of (Ret x, s') \<Rightarrow> f x s' | (Exit n, s') \<Rightarrow> (Exit n, s'))"

definition returnP :: "'a \<Rightarrow> ('s, 'a) prog" where
  "returnP x s = (Ret x, s)"

definition exitP :: "int \<Rightarrow> ('s, 'a) prog" where
  "exitP n s = (Exit n, s)"

text \<open>A call outside; a panic ends the process with status 2.\<close>

definition callP :: "('s, 'a) io \<Rightarrow> ('s, 'a res) prog" where
  "callP m s = (case m (cs_World s) of (r, w) \<Rightarrow>
     (case r of Inl (Panic _) \<Rightarrow> Exit 2 | _ \<Rightarrow> Ret r, s\<lparr>cs_World := w\<rparr>))"

definition stdoutP :: "string \<Rightarrow> ('s, unit) prog" where
  "stdoutP text s = (Ret (), s\<lparr>cs_Stdout := cs_Stdout s @ text\<rparr>)"

definition stderrP :: "string \<Rightarrow> ('s, unit) prog" where
  "stderrP text s = (Ret (), s\<lparr>cs_Stderr := cs_Stderr s @ text\<rparr>)"

definition logP :: "level \<Rightarrow> string \<Rightarrow> ('s, unit) prog" where
  "logP level text s = (Ret (), s\<lparr>cs_Log := cs_Log s @ [(level, text)]\<rparr>)"

definition err_text :: "go_err \<Rightarrow> string" where
  "err_text e = (case e of Err msg \<Rightarrow> msg | Panic msg \<Rightarrow> msg)"

subsection \<open>The logger (\<open>pkg/klog/logger.go\<close>)\<close>

definition newline :: string where
  "newline = [CHR 0x0A]"

definition SetOutputToStdout :: "('s, unit) prog" where
  "SetOutputToStdout s = (Ret (), s\<lparr>cs_logStdout := True\<rparr>)"

definition Errorf :: "string \<Rightarrow> arg list \<Rightarrow> ('s, unit) prog" where
  "Errorf format v s =
     (if cs_logStdout s then stdoutP (Sprintf (''ERROR: '' @ format @ newline) v) s
      else logP ErrorLog (Sprintf format v) s)"

text \<open>\<open>clock\<close> is the time of day as \<open>15:04:05.0000\<close>.\<close>

definition Infof :: "('s \<Rightarrow> string) \<Rightarrow> string \<Rightarrow> arg list \<Rightarrow> ('s, unit) prog" where
  "Infof clock format v s =
     (if cs_logStdout s
      then (let timestamp = clock (cs_World s) in stdoutP (Sprintf (''INFO: ['' @ timestamp @ ''] '' @ format @ newline) v) s)
      else logP InfoLog (Sprintf format v) s)"

definition Warningf :: "string \<Rightarrow> arg list \<Rightarrow> ('s, unit) prog" where
  "Warningf format v s =
     (if cs_logStdout s then stdoutP (Sprintf (''WARNING: '' @ format @ newline) v) s
      else logP WarningLog (Sprintf format v) s)"

text \<open>The logger is what the SDK calls when a request fails; \<open>response\<close> is the status code and the body, if there was an answer (\<open>vpc_sdk_gen2.go\<close>).\<close>

definition logResponseError :: "('s \<Rightarrow> string) \<Rightarrow> (int \<times> string) option \<Rightarrow> ('s, unit) prog" where
  "logResponseError clock response s =
     (case response of
        None \<Rightarrow> (Ret (), s)
      | Some (statusCode, result) \<Rightarrow> Infof clock ''Response (%d): %+v'' [(''int'', show_int statusCode), (''map'', result)] s)"

subsection \<open>The version flag (\<open>ibm/ibm_version.go\<close>)\<close>

definition Version :: string where "Version = ''v1.32.0-alpha.2''"

text \<open>A flag: its name, its default and its help text; parsing a command line sets \<open>cs_versionFlag\<close> to the value given, or the default.\<close>

record Flag =
  flag_Name :: string
  flag_Default :: bool
  flag_Usage :: string

definition AddVersionFlag :: "Flag list \<Rightarrow> Flag list" where
  "AddVersionFlag fs = fs @ [\<lparr>flag_Name = ''version'', flag_Default = False, flag_Usage = ''Print version and exit''\<rparr>]"

definition PrintVersionAndExitIfRequested :: "('s, unit) prog" where
  "PrintVersionAndExitIfRequested s =
     (if cs_versionFlag s then bindP (stdoutP (Version @ newline)) (\<lambda>_. exitP 0) s else (Ret (), s))"

subsection \<open>The command (\<open>main.go\<close>)\<close>

text \<open>
  \<open>'o\<close>: options, \<open>'c\<close>: a completed configuration, \<open>'k\<close>: a cloud, \<open>'i\<close>: a constructor of a controller. \<open>lib_Config\<close> makes the configuration from the options and the
  names of the controllers and completes it; \<open>lib_InitCloudProvider\<close> makes the cloud that is registered under a name from a file, possibly
  nil; \<open>lib_Run\<close> constructs the controllers and runs them; \<open>lib_CliRun\<close> parses the command line and executes the command.
\<close>

record 's Command =
  cmd_Use :: string
  cmd_Long :: string
  cmd_RunE :: "string list \<Rightarrow> ('s, unit res) prog"
  cmd_Args :: "string list \<Rightarrow> unit res"
  cmd_Flags :: "(string \<times> Flag list) list"
  cmd_Usage :: "string \<Rightarrow> ('s, unit) prog"
  cmd_Help :: "string \<Rightarrow> ('s, unit) prog"

record ('s, 'o, 'c, 'k, 'i) Ccm =
  lib_NewOptions :: "('s, 'o) io"
  lib_SetCloudProviderName :: "string \<Rightarrow> 'o \<Rightarrow> 'o"
  lib_DefaultInitFuncConstructors :: "(string \<times> 'i) list"
  lib_Flags :: "'o \<Rightarrow> string list \<Rightarrow> (string \<times> Flag list) list"
  lib_GlobalFlags :: "Flag list"
  lib_PrintFlags :: "('s, unit) prog"
  lib_PrintSections :: "(string \<times> Flag list) list \<Rightarrow> string"
  lib_Config :: "'o \<Rightarrow> string list \<Rightarrow> ('s, 'c) io"
  lib_CloudProvider :: "'c \<Rightarrow> string \<times> string"
  lib_InitCloudProvider :: "string \<Rightarrow> string \<Rightarrow> ('s, 'k option) io"
  lib_Run :: "'c \<Rightarrow> 'k \<Rightarrow> (string \<times> 'i) list \<Rightarrow> ('s, unit) io"
  lib_CliRun :: "'s Command \<Rightarrow> ('s, int) prog"
  lib_FatalCode :: int

definition Fatalf :: "('s, 'o, 'c, 'k, 'i) Ccm \<Rightarrow> string \<Rightarrow> ('s, 'a) prog" where
  "Fatalf lib text = bindP (logP FatalLog text) (\<lambda>_. exitP (lib_FatalCode lib))"

definition IBMCloudInitializer :: "('s, 'o, 'c, 'k, 'i) Ccm \<Rightarrow> 'c \<Rightarrow> ('s, 'k) prog" where
  "IBMCloudInitializer lib config =
     (case lib_CloudProvider lib config of (name, configFile) \<Rightarrow>
        bindP (callP (lib_InitCloudProvider lib name configFile)) (\<lambda>r.
        case r of
          Inl err \<Rightarrow> Fatalf lib (''IBM Cloud provider could not be initialized: '' @ err_text err)
        | Inr None \<Rightarrow> Fatalf lib ''IBM Cloud provider is nil''
        | Inr (Some cloud) \<Rightarrow> returnP cloud))"

definition reportP :: "go_err \<Rightarrow> ('s, unit res) prog" where
  "reportP err = bindP (stderrP (err_text err @ newline)) (\<lambda>_. returnP (Inl err))"

definition RunE ::
  "('s, 'o, 'c, 'k, 'i) Ccm \<Rightarrow> 'o \<Rightarrow> ('c \<Rightarrow> ('s, 'k) prog) \<Rightarrow> (string \<times> 'i) list \<Rightarrow> string list \<Rightarrow> ('s, unit res) prog" where
  "RunE lib opts cloudInitializer initFuncConstructor args =
     bindP PrintVersionAndExitIfRequested (\<lambda>_.
     bindP (lib_PrintFlags lib) (\<lambda>_.
     bindP (callP (lib_Config lib opts (map fst initFuncConstructor))) (\<lambda>r.
     case r of
       Inl err \<Rightarrow> reportP err
     | Inr completedConfig \<Rightarrow>
         bindP (cloudInitializer completedConfig) (\<lambda>cloud.
         bindP (callP (lib_Run lib completedConfig cloud initFuncConstructor)) (\<lambda>r.
         case r of Inl err \<Rightarrow> reportP err | Inr _ \<Rightarrow> returnP (Inr ()))))))"

definition commandUse :: string where "commandUse = ''ibm-cloud-controller-manager''"

definition commandLong :: string where
  "commandLong = ''The IBM Cloud controller manager is a daemon that embeds'' @ newline @
     ''the cloud specific control loops shipped with Kubernetes.''"

text \<open>The command has no parent, so its path is its name.\<close>

definition checkArgs :: "string list \<Rightarrow> unit res" where
  "checkArgs args =
     (if list_ex (\<lambda>arg. length arg > 0) args
      then Inl (Err (Quote commandUse @ '' does not take any arguments, got ['' @ Join '' '' (map Quote args) @ '']''))
      else Inr ())"

definition NewCloudControllerManagerCommand ::
  "('s, 'o, 'c, 'k, 'i) Ccm \<Rightarrow> 'o \<Rightarrow> ('c \<Rightarrow> ('s, 'k) prog) \<Rightarrow> (string \<times> 'i) list \<Rightarrow> (string \<times> Flag list) list \<Rightarrow> 's Command" where
  "NewCloudControllerManagerCommand lib opts cloudInitializer initFuncConstructor additionalFlags =
     (let named = lib_Flags lib opts (map fst initFuncConstructor);
          global = AddVersionFlag (case map_of named ''global'' of None \<Rightarrow> [] | Some fs \<Rightarrow> fs) @ lib_GlobalFlags lib;
          namedFlagSets = AList.update ''global'' global named;
          usage = (\<lambda>useLine. ''Usage:'' @ newline @ ''  '' @ useLine @ newline)
      in \<lparr>cmd_Use = commandUse, cmd_Long = commandLong,
          cmd_RunE = RunE lib opts cloudInitializer initFuncConstructor,
          cmd_Args = checkArgs,
          cmd_Flags = namedFlagSets @ additionalFlags,
          cmd_Usage = (\<lambda>useLine. stderrP (usage useLine @ lib_PrintSections lib namedFlagSets)),
          cmd_Help = (\<lambda>useLine. stdoutP (commandLong @ newline @ newline @ usage useLine @ lib_PrintSections lib namedFlagSets))\<rparr>)"

definition main :: "('s, 'o, 'c, 'k, 'i) Ccm \<Rightarrow> ('s, unit) prog" where
  "main lib =
     bindP (callP (lib_NewOptions lib)) (\<lambda>r.
     case r of
       Inl err \<Rightarrow> Fatalf lib (''unable to initialize IBM Cloud controller manager command options: '' @ err_text err)
     | Inr opts \<Rightarrow>
         let ccmOptions = lib_SetCloudProviderName lib ProviderName opts;
             controllerInitializers = AList.delete ''route'' (lib_DefaultInitFuncConstructors lib);
             command = NewCloudControllerManagerCommand lib ccmOptions (IBMCloudInitializer lib) controllerInitializers []
         in bindP (lib_CliRun lib command) (\<lambda>code. if code \<noteq> 0 then exitP code else returnP ()))"

subsection \<open>Log lines\<close>

text \<open>How many arguments a format takes, if it does not end within a verb.\<close>

fun takes :: "string \<Rightarrow> nat option" where
  "takes [] = Some 0"
| "takes (c # f) =
     (if c \<noteq> CHR ''%'' then takes f
      else (case f of
          [] \<Rightarrow> None
        | d # g \<Rightarrow> if d = CHR ''%'' then takes g else if d = CHR ''+'' then takes (c # g) else map_option Suc (takes g)))"

lemma Sprintf_plain: "CHR ''%'' \<notin> set f \<Longrightarrow> Sprintf (f @ g) args = f @ Sprintf g args"
  by (induction f) auto

lemma Sprintf_append: "takes f = Some (length args) \<Longrightarrow> Sprintf (f @ g) args = Sprintf f args @ Sprintf g []"
proof (induction f arbitrary: args rule: takes.induct)
  case (2 c f)
  show ?case
  proof (cases "c = CHR ''%''")
    case False
    with 2 show ?thesis by simp
  next
    case percent: True
    with 2(5) obtain d h where f: "f = d # h" by (cases f) auto
    consider "d = CHR ''%''" | "d = CHR ''+''" | "d \<noteq> CHR ''%''" "d \<noteq> CHR ''+''" by blast
    then show ?thesis
    proof cases
      case 1
      with 2(2)[of d h args] 2(5) percent f show ?thesis by simp
    next
      case plus: 2
      with 2(3)[of d h args] 2(5) percent f show ?thesis by simp
    next
      case 3
      with 2(5) percent f obtain t v rest where "args = (t, v) # rest" "takes h = Some (length rest)" by (cases args) auto
      with 3 2(4)[of d h rest] percent f show ?thesis by simp
    qed
  qed
qed simp

lemma newline_plain: "CHR ''%'' \<notin> set newline"
  by (simp add: newline_def)

lemma Sprintf_line:
  assumes "CHR ''%'' \<notin> set before" "takes format = Some (length v)"
  shows "Sprintf (before @ format @ newline) v = before @ Sprintf format v @ newline"
  using assms Sprintf_plain[OF newline_plain, of "[]" "[]"] by (simp add: Sprintf_plain Sprintf_append)

subsection \<open>Running the command\<close>

text \<open>
  What the command-line package documents: the command is run with arguments that its check accepts, and the exit code tells whether it failed, or it is
  not run at all (a flag is wrong, or help was asked for). Parsing and printing do not touch the world.
\<close>

fun code_of :: "unit res ending \<Rightarrow> int ending" where
  "code_of (Exit n) = Exit n"
| "code_of (Ret (Inl _)) = Ret 1"
| "code_of (Ret (Inr _)) = Ret 0"

definition cli_documented :: "('s, 'o, 'c, 'k, 'i) Ccm \<Rightarrow> bool" where
  "cli_documented lib \<longleftrightarrow>
     (\<forall>cmd s r t. lib_CliRun lib cmd s = (r, t) \<longrightarrow>
        (\<exists>code. r = Ret code) \<and> cs_World t = cs_World s \<or>
        (\<exists>args s' r' t'. cs_World s' = cs_World s \<and> cmd_Args cmd args = Inr () \<and> cmd_RunE cmd args s' = (r', t') \<and>
           cs_World t = cs_World t' \<and> r = code_of r')) \<and>
     (\<forall>s. \<exists>t. lib_PrintFlags lib s = (Ret (), t) \<and> cs_World t = cs_World s)"

text \<open>The calls before the controllers are started.\<close>

definition prepares :: "('s, 'o, 'c, 'k, 'i) Ccm \<Rightarrow> ('s \<Rightarrow> bool) \<Rightarrow> bool" where
  "prepares lib idle \<longleftrightarrow> (\<forall>w. idle w \<longrightarrow> idle (snd (lib_NewOptions lib w)) \<and> (\<forall>opts ns. idle (snd (lib_Config lib opts ns w))) \<and>
     (\<forall>name path. idle (snd (lib_InitCloudProvider lib name path w))))"

text \<open>The controllers \<open>inits\<close> were run with a cloud that was initialized for the configuration, and ended in the world \<open>t\<close> with the result \<open>x\<close>.\<close>

definition ran :: "('s, 'o, 'c, 'k, 'i) Ccm \<Rightarrow> ('s \<Rightarrow> bool) \<Rightarrow> (string \<times> 'i) list \<Rightarrow> unit res \<Rightarrow> 's \<Rightarrow> bool" where
  "ran lib idle inits x t \<longleftrightarrow>
     (\<exists>config cloud w w'. idle w \<and> idle w' \<and>
        lib_InitCloudProvider lib (fst (lib_CloudProvider lib config)) (snd (lib_CloudProvider lib config)) w = (Inr (Some cloud), w') \<and>
        lib_Run lib config cloud inits w' = (x, t))"

lemma IBMCloudInitializer_outcome:
  assumes "prepares lib idle" "idle (cs_World s)" "IBMCloudInitializer lib config s = (r, t)"
  shows "idle (cs_World t) \<and> (\<forall>cloud. r = Ret cloud \<longrightarrow> lib_InitCloudProvider lib (fst (lib_CloudProvider lib config))
    (snd (lib_CloudProvider lib config)) (cs_World s) = (Inr (Some cloud), cs_World t))"
proof -
  obtain name path where np: "lib_CloudProvider lib config = (name, path)" by (cases "lib_CloudProvider lib config")
  obtain x w where x: "lib_InitCloudProvider lib name path (cs_World s) = (x, w)" by (cases "lib_InitCloudProvider lib name path (cs_World s)")
  have "idle (snd (lib_InitCloudProvider lib name path (cs_World s)))" using assms(1,2) by (auto simp: prepares_def)
  with x have "idle w" by simp
  with assms(3) np x show ?thesis
    by (auto simp: IBMCloudInitializer_def bindP_def callP_def Fatalf_def logP_def exitP_def returnP_def
        split: sum.splits go_err.splits option.splits)
qed

lemma RunE_outcome:
  assumes "cli_documented lib" "prepares lib idle" "idle (cs_World s)" "RunE lib opts (IBMCloudInitializer lib) inits args s = (r, t)"
  shows "idle (cs_World t) \<or> (\<exists>x. ran lib idle inits x (cs_World t) \<and> code_of r = (case x of Inr _ \<Rightarrow> Ret 0 | Inl (Err _) \<Rightarrow> Ret 1 | Inl (Panic _) \<Rightarrow> Exit 2))"
proof (cases "cs_versionFlag s")
  case True
  with assms(3,4) show ?thesis by (auto simp: RunE_def bindP_def PrintVersionAndExitIfRequested_def stdoutP_def exitP_def)
next
  case False
  obtain s1 where s1: "lib_PrintFlags lib s = (Ret (), s1)" "cs_World s1 = cs_World s" using assms(1) unfolding cli_documented_def by blast
  obtain rc w where rc: "lib_Config lib opts (map fst inits) (cs_World s) = (rc, w)" by (cases "lib_Config lib opts (map fst inits) (cs_World s)")
  have "idle (snd (lib_Config lib opts (map fst inits) (cs_World s)))" using assms(2,3) by (auto simp: prepares_def)
  with rc have w: "idle w" by simp
  show ?thesis
  proof (cases rc)
    case (Inl e)
    with assms(4) False s1 rc w show ?thesis
      by (auto simp: RunE_def bindP_def PrintVersionAndExitIfRequested_def callP_def reportP_def stderrP_def returnP_def split: go_err.splits)
  next
    case (Inr config)
    let ?s = "s1\<lparr>cs_World := w\<rparr>"
    obtain ri t1 where ri: "IBMCloudInitializer lib config ?s = (ri, t1)" by (cases "IBMCloudInitializer lib config ?s")
    have init: "idle (cs_World t1)" "\<And>cloud. ri = Ret cloud \<Longrightarrow> lib_InitCloudProvider lib (fst (lib_CloudProvider lib config))
        (snd (lib_CloudProvider lib config)) w = (Inr (Some cloud), cs_World t1)"
      using IBMCloudInitializer_outcome[OF assms(2) _ ri] w by auto
    have run: "bindP (\<lambda>_. (ri, t1)) (\<lambda>cloud. bindP (callP (lib_Run lib config cloud inits)) (\<lambda>r. case r of Inl err \<Rightarrow> reportP err | Inr _ \<Rightarrow> returnP (Inr ()))) ?s = (r, t)"
      using assms(4) False s1 rc Inr ri by (simp add: RunE_def bindP_def PrintVersionAndExitIfRequested_def callP_def)
    show ?thesis
    proof (cases ri)
      case (Exit n)
      with run init(1) show ?thesis by (simp add: bindP_def)
    next
      case (Ret cloud)
      obtain x w2 where x: "lib_Run lib config cloud inits (cs_World t1) = (x, w2)" by (cases "lib_Run lib config cloud inits (cs_World t1)")
      have "ran lib idle inits x w2" unfolding ran_def using w init(1) init(2)[OF Ret] x by blast
      with run Ret x show ?thesis
        by (intro disjI2 exI[of _ x])
          (auto simp: bindP_def callP_def reportP_def stderrP_def returnP_def split: sum.splits go_err.splits)
    qed
  qed
qed

fun main_result :: "unit res \<Rightarrow> unit ending" where
  "main_result (Inr _) = Ret ()"
| "main_result (Inl (Err _)) = Exit 1"
| "main_result (Inl (Panic _)) = Exit 2"

lemma delete_route: "''route'' \<notin> fst ` set (AList.delete ''route'' inits)" "n \<noteq> ''route'' \<Longrightarrow> map_of (AList.delete ''route'' inits) n = map_of inits n"
  by (auto simp: AList.delete_eq) (simp add: delete_conv flip: AList.delete_eq)

text \<open>The command, run by the command-line package.\<close>

lemma cli_outcome:
  assumes "cli_documented lib" "prepares lib idle" "idle (cs_World s)"
    and "lib_CliRun lib (NewCloudControllerManagerCommand lib opts (IBMCloudInitializer lib) inits flags) s = (r, t)"
  shows "idle (cs_World t) \<or> (\<exists>x. ran lib idle inits x (cs_World t) \<and>
    (case r of Exit n \<Rightarrow> Exit n | Ret code \<Rightarrow> if code \<noteq> 0 then Exit code else Ret ()) = main_result x)"
proof -
  let ?cmd = "NewCloudControllerManagerCommand lib opts (IBMCloudInitializer lib) inits flags"
  have cmd: "cmd_RunE ?cmd = RunE lib opts (IBMCloudInitializer lib) inits" by (simp add: NewCloudControllerManagerCommand_def Let_def)
  from assms(1,4) consider "cs_World t = cs_World s"
    | args s' r' t' where "cs_World s' = cs_World s" "cmd_RunE ?cmd args s' = (r', t')" "cs_World t = cs_World t'" "r = code_of r'"
    unfolding cli_documented_def by fastforce
  then show ?thesis
  proof cases
    case 1
    with assms(3) show ?thesis by simp
  next
    case (2 args s' r' t')
    from RunE_outcome[OF assms(1,2) _ 2(2)[unfolded cmd]] 2(1) assms(3) consider "idle (cs_World t')"
      | x where "ran lib idle inits x (cs_World t')" "code_of r' = (case x of Inr _ \<Rightarrow> Ret 0 | Inl (Err _) \<Rightarrow> Ret 1 | Inl (Panic _) \<Rightarrow> Exit 2)"
      by auto
    then show ?thesis
    proof cases
      case (2 x)
      then show ?thesis using \<open>cs_World t = cs_World t'\<close> \<open>r = code_of r'\<close>
        by (intro disjI2 exI[of _ x]) (auto split: sum.split go_err.split)
    qed (use \<open>cs_World t = cs_World t'\<close> in simp)
  qed
qed

subsection \<open>Properties\<close>

text \<open>C38: The program starts controllers only with a cloud. However the options, the command line, the configuration and the cloud provider turn out,
  either no controller was started (version, help, an argument, a bad configuration, a cloud that cannot be initialized or is nil), or exactly the
  default controllers except the one for routes were run, with a cloud that was initialized for the name and the file of the configuration,
  and the exit status tells whether they failed.\<close>

theorem controllers_need_cloud:
  assumes "cli_documented lib" "prepares lib idle" "idle (cs_World s)" "main lib s = (r, t)"
  shows "idle (cs_World t) \<or>
    (\<exists>inits x. ''route'' \<notin> fst ` set inits \<and> (\<forall>n. n \<noteq> ''route'' \<longrightarrow> map_of inits n = map_of (lib_DefaultInitFuncConstructors lib) n) \<and>
       ran lib idle inits x (cs_World t) \<and> r = main_result x)"
proof -
  obtain ro w where ro: "lib_NewOptions lib (cs_World s) = (ro, w)" by (cases "lib_NewOptions lib (cs_World s)")
  have "idle (snd (lib_NewOptions lib (cs_World s)))" using assms(2,3) by (auto simp: prepares_def)
  with ro have w: "idle w" by simp
  show ?thesis
  proof (cases ro)
    case (Inl e)
    with assms(4) ro w show ?thesis
      by (auto simp: main_def bindP_def callP_def Fatalf_def logP_def exitP_def split: go_err.splits)
  next
    case (Inr opts)
    let ?inits = "AList.delete ''route'' (lib_DefaultInitFuncConstructors lib)"
    let ?cmd = "NewCloudControllerManagerCommand lib (lib_SetCloudProviderName lib ProviderName opts) (IBMCloudInitializer lib) ?inits []"
    obtain rc t1 where rc: "lib_CliRun lib ?cmd (s\<lparr>cs_World := w\<rparr>) = (rc, t1)" by (cases "lib_CliRun lib ?cmd (s\<lparr>cs_World := w\<rparr>)")
    have "r = (case rc of Exit n \<Rightarrow> Exit n | Ret code \<Rightarrow> if code \<noteq> 0 then Exit code else Ret ())" "t = t1"
      using assms(4) ro Inr rc by (auto simp: main_def Let_def bindP_def callP_def exitP_def returnP_def split: ending.splits if_splits)
    with cli_outcome[OF assms(1,2) _ rc] w delete_route show ?thesis by fastforce
  qed
qed

text \<open>Libraries whose world is the list of calls made so far, and a command line without flags.\<close>

definition noted :: "string \<Rightarrow> 'a \<Rightarrow> (string list, 'a) io" where
  "noted what x w = (Inr x, w @ [what])"

definition ex_ccm :: "(string list, unit, string, string, nat) Ccm" where
  "ex_ccm = \<lparr>lib_NewOptions = noted ''options'' (), lib_SetCloudProviderName = (\<lambda>_ opts. opts),
     lib_DefaultInitFuncConstructors = [(''service'', 1), (''route'', 2), (''cloud-node'', 3)], lib_Flags = (\<lambda>_ _. [(''global'', [])]),
     lib_GlobalFlags = [], lib_PrintFlags = returnP (), lib_PrintSections = (\<lambda>_. []), lib_Config = (\<lambda>_ ns. noted ''config'' (''ibm'')),
     lib_CloudProvider = (\<lambda>c. (c, ''/etc/cloud.conf'')), lib_InitCloudProvider = (\<lambda>n f. noted ''init'' (Some n)),
     lib_Run = (\<lambda>c k is. noted (''run '' @ Join '','' (map fst is)) ()),
     lib_CliRun = (\<lambda>cmd s. case cmd_Args cmd [] of Inl _ \<Rightarrow> (Ret 1, s) | Inr _ \<Rightarrow> (case cmd_RunE cmd [] s of (r, t) \<Rightarrow> (code_of r, t))), lib_FatalCode = 255\<rparr>"

definition ex_ccm_state :: "string list Ccm_State" where
  "ex_ccm_state = \<lparr>cs_World = [], cs_Stdout = [], cs_Stderr = [], cs_Log = [], cs_logStdout = False, cs_versionFlag = False\<rparr>"

definition ex_idle :: "string list \<Rightarrow> bool" where
  "ex_idle w = list_all (\<lambda>c. \<not> HasPrefix c ''run '') w"

lemma ex_cli_documented: "cli_documented ex_ccm"
proof -
  have "(\<exists>code. r = Ret code) \<and> cs_World t = cs_World s \<or> (\<exists>args s' r' t'. cs_World s' = cs_World s \<and> cmd_Args cmd args = Inr () \<and>
      cmd_RunE cmd args s' = (r', t') \<and> cs_World t = cs_World t' \<and> r = code_of r')" if "lib_CliRun ex_ccm cmd s = (r, t)" for cmd s r t
  proof (cases "cmd_Args cmd []")
    case (Inl e)
    with that show ?thesis by (auto simp: ex_ccm_def)
  next
    case (Inr u)
    obtain r' t' where "cmd_RunE cmd [] s = (r', t')" by (cases "cmd_RunE cmd [] s")
    with that Inr show ?thesis by (intro disjI2 exI[of _ "[]"] exI[of _ s] exI[of _ r'] exI[of _ t']) (simp add: ex_ccm_def)
  qed
  moreover have "\<exists>t. lib_PrintFlags ex_ccm s = (Ret (), t) \<and> cs_World t = cs_World s" for s by (simp add: ex_ccm_def returnP_def)
  ultimately show ?thesis by (simp add: cli_documented_def)
qed

lemma ex_prepares: "prepares ex_ccm ex_idle"
  by (simp add: prepares_def ex_ccm_def noted_def ex_idle_def)

theorem controllers_need_cloud_witness:
  "\<exists>inits x. ''route'' \<notin> fst ` set inits \<and> ran ex_ccm ex_idle inits x [''options'', ''config'', ''init'', ''run service,cloud-node'']"
proof -
  obtain r t where run: "main ex_ccm ex_ccm_state = (r, t)" by (cases "main ex_ccm ex_ccm_state")
  have "cs_World (snd (main ex_ccm ex_ccm_state)) = [''options'', ''config'', ''init'', ''run service,cloud-node'']" by code_simp
  moreover have "\<not> ex_idle [''options'', ''config'', ''init'', ''run service,cloud-node'']" "ex_idle (cs_World ex_ccm_state)" by code_simp+
  ultimately show ?thesis using controllers_need_cloud[OF ex_cli_documented ex_prepares _ run] run by auto
qed

text \<open>The text of a log entry does not depend on where it goes. For a format that takes the arguments it is given, a message is one line on the standard
  output, after its level (and the time, which has no percent sign), or one entry of the log at its level, with the same text in both cases; nothing
  else changes.\<close>

lemma log_lines:
  assumes "takes format = Some (length v)" "CHR ''%'' \<notin> set (clock (cs_World s))"
  defines "text \<equiv> Sprintf format v"
  shows "Infof clock format v s = (Ret (), if cs_logStdout s
      then s\<lparr>cs_Stdout := cs_Stdout s @ ''INFO: ['' @ clock (cs_World s) @ ''] '' @ text @ newline\<rparr> else s\<lparr>cs_Log := cs_Log s @ [(InfoLog, text)]\<rparr>) \<and>
    Warningf format v s = (Ret (), if cs_logStdout s
      then s\<lparr>cs_Stdout := cs_Stdout s @ ''WARNING: '' @ text @ newline\<rparr> else s\<lparr>cs_Log := cs_Log s @ [(WarningLog, text)]\<rparr>) \<and>
    Errorf format v s = (Ret (), if cs_logStdout s
      then s\<lparr>cs_Stdout := cs_Stdout s @ ''ERROR: '' @ text @ newline\<rparr> else s\<lparr>cs_Log := cs_Log s @ [(ErrorLog, text)]\<rparr>)"
proof -
  have "Sprintf (''INFO: ['' @ clock (cs_World s) @ ''] '' @ format @ newline) v = ''INFO: ['' @ clock (cs_World s) @ ''] '' @ text @ newline"
    using Sprintf_line[OF _ assms(1), of "''INFO: ['' @ clock (cs_World s) @ ''] ''"] assms(2) unfolding text_def by simp
  moreover have "Sprintf (''WARNING: '' @ format @ newline) v = ''WARNING: '' @ text @ newline"
    "Sprintf (''ERROR: '' @ format @ newline) v = ''ERROR: '' @ text @ newline"
    using Sprintf_line[OF _ assms(1), of "''WARNING: ''"] Sprintf_line[OF _ assms(1), of "''ERROR: ''"] unfolding text_def by simp_all
  ultimately show ?thesis
    unfolding Infof_def Warningf_def Errorf_def Let_def by (simp only: stdoutP_def logP_def text_def if_distrib[where f = "Pair (Ret ())"])
qed

end
