(* ===== verification/Spec2Isabelle.thy ===== *)
theory Spec2Isabelle
  imports Vpc_Store Ibm_Race Ibm_Typing Ccm_Main
begin

text \<open>
  This development models and verifies the IBM Cloud provider for Kubernetes: the cloud controller that gives a Kubernetes service of
  type LoadBalancer a load balancer in an IBM Cloud VPC, keeps the two in agreement, and answers questions about nodes. All file names
  are relative to \<open>src/\<close>.

  \<^bold>\<open>The program.\<close> Kubernetes calls the methods of the object \<open>Cloud\<close> (\<open>ibm/*.go\<close>). Those on load balancers check the service, get
  the process-wide VPC object (making it from the configuration and the credentials file when there is none) and go on in \<open>pkg/vpcctl\<close>: the
  entry points of \<open>vpc_provider.go\<close> find the load balancer of the service and create, update or delete it with \<open>vpc_lbaas.go\<close>, which
  uses the filters and validations of \<open>vpc_config.go\<close> and the pool-name codec of \<open>vpc_sdk_base.go\<close> and calls the VPC through the interface
  \<open>CloudVpcSdk\<close>; the interface is implemented by \<open>vpc_sdk_gen2.go\<close> and by the mock \<open>vpc_sdk_fake.go\<close>. A task started by \<open>LoadBalancer\<close>
  (\<open>ibm_task.go\<close>) monitors the services every five minutes, deletes stale load balancers and records events. Questions about
  nodes are answered from labels or from the VPC, through a cache (\<open>ibm_metadata_service.go\<close>, \<open>ibm_vpc_client.go\<close>). A watcher resets the
  clients when the credentials change. The classic provider (\<open>pkg/classic\<close>) supports nothing. \<open>main.go\<close> is the command: it makes the cloud object
  from the options and starts the controllers of \<open>k8s.io/cloud-provider\<close> with it.

  \<^bold>\<open>Modelling.\<close> A routine with effects has type \<open>('s, 'a) io\<close>, which is \<open>'s \<Rightarrow> 'a res \<times> 's\<close>, where \<open>'s\<close> is the world behind the clients it calls;
  a result is an error \<open>Err msg\<close> with its text, a panic \<open>Panic msg\<close>, or a value. A nil dereference and an index out of range are panics.
  Integers are words of their width. A Go map over which the code ranges is an association list with the iteration order as a
  parameter (\<open>rt_range\<close> of \<open>Runtime\<close>), one that is only looked up is a map. Updates of an object behind a pointer return the updated
  object. Code outside the repository is an argument or a record of calls: the VPC API client (\<open>VpcV1\<close>), the resource manager
  (\<open>GroupLookup\<close>), the instance lookup (\<open>InstanceSdk\<close>), the Kubernetes calls (\<open>NodeApi\<close>, \<open>Platform\<close>), the readers of configuration
  files, the URL parser, the file watcher, the event broadcaster, the clock, the command-line and application libraries (\<open>Ccm\<close>). What the
  proofs need of it are hypotheses (\<open>vpc_service\<close>, \<open>client_ok\<close>, \<open>platform_ok\<close>, \<open>documented_api\<close>, \<open>documented_vpc\<close>, \<open>documented_cloud\<close>, \<open>cli_documented\<close>, \<open>prepares\<close>), and every property with hypotheses has a witness on concrete data.

  \<^bold>\<open>Theories.\<close>
  \<^item> \<open>Prelude\<close>: results, the state and error monad, the program logic \<open>safe Inv post m\<close> (from a state with \<open>Inv\<close> the
    routine keeps \<open>Inv\<close>, does not panic, and its value has \<open>post\<close>) with one rule per construct. \<open>Go_Strings\<close>: the routines of \<open>strings\<close>, \<open>strconv\<close>, \<open>sort\<close>
    and \<open>fmt\<close> that the sources call. \<open>K8s_Types\<close>: the API objects.
  \<^item> \<open>Vpc_Base\<close> (\<open>vpc_sdk_base.go\<close>), \<open>Vpc_Config\<close> (\<open>vpc_config.go\<close>): VPC objects, pool names, service options; configuration, filters, validation.
    Shown: a pool name is read back, a node selector is read back; what each entry of a subnets annotation stands for, by ID, name or CIDR
    block (\<open>denotes\<close>, \<open>stands_for\<close>), and that the annotation of an existing load balancer is accepted exactly when it is absent or stands for its subnets.
  \<^item> \<open>Vpc_Sdk\<close>: the interface \<open>CloudVpcSdk\<close> as a record of calls and its contract as the locale \<open>vpc_service\<close>. \<open>Vpc_Fake\<close> (\<open>vpc_sdk_fake.go\<close>)
    interprets it.
  \<^item> \<open>Vpc_Lbaas\<close> (\<open>vpc_lbaas.go\<close>): the code as it is, with its plan of text lines. \<open>Vpc_Plan\<close> restates the plan over a datatype of operations
    and shows that the text planner produces exactly its lines (each planning step is an interpretation of the locale \<open>planning_step\<close>) and that
    lines are decoded into the intended calls. \<open>Vpc_Converge\<close> is the abstract specification: the content of a load balancer, the
    effect of an operation with the conditions under which the VPC accepts it, and being in sync with a service; the plan can be carried
    out and ends in sync, and it is empty exactly for a load balancer in sync. \<open>Vpc_Update\<close>: the loop performs exactly the plan,
    each operation on a load balancer last seen ready, and stops at the first failure; no panics; malformed pool names.
  \<^item> \<open>Vpc_Provider\<close> (\<open>vpc_provider.go\<close>): the entry points and the monitor, on any SDK that meets its contract (locale \<open>vpc_cloud\<close>, an
    extension of \<open>vpc_service\<close>). Shown: no panics; a busy load balancer is not touched; failures are recorded; exactly the stale load
    balancers are deleted; statuses (of the load balancers under the names of the services that have the prefix of the cluster) and events of the monitor in any iteration order; generated names.
  \<^item> \<open>Vpc_Gen2\<close> (\<open>vpc_sdk_gen2.go\<close>): the SDK on the VPC API. Shown: its requests have the abstract effects of the
    operations, a created load balancer is in sync, all pages are collected, the contract holds, and create requests carry the ID of the one resource group
    that the resource manager names.
  \<^item> \<open>Vpc_Effects\<close>: the layers put together. The locale \<open>documented_api\<close> is a VPC service whose requests do what is documented, on
    the content of \<open>Vpc_Converge\<close>; the Gen2 SDK on it is a \<open>sublocale\<close> of \<open>effects_sdk\<close>, in which running a plan has the effects of its
    operations; a reference service interprets it. Shown: a failed update leaves what some first operations of its plan leave, a successful one
    leaves the load balancer in sync. \<open>in_sync\<close> asks for the proxy protocol of the service on listed pools only; \<open>brought\<close> says what is true of all:
    every pool whose name was there before has it, and pools that the update created have none, as \<open>CreateLoadBalancerPool\<close> does not send it.
  \<^item> \<open>Vpc_History\<close>: the life of a load balancer. The updates above start from a consistent load balancer; here consistency is an
    invariant of the inductive relation \<open>history\<close> (created, then updated by any first part of any plan), whatever order and identifiers the VPC
    lists things with (locale \<open>listing\<close>). Listings of such a load balancer are consistent, and what is planned for one in sync are updates of pools.
  \<^item> \<open>Vpc_Ensure\<close>: the entry points end to end. The locale \<open>documented_vpc\<close> extends \<open>documented_api\<close> with the list requests; the list operations of
    the Gen2 SDK return what such a service holds. Shown: \<open>EnsureLoadBalancer\<close> and \<open>EnsureLoadBalancerUpdated\<close> of a load balancer with a
    history leave one with a history whatever fails, and one that is \<open>brought\<close> to the service when they succeed. Creation is covered by \<open>Vpc_Gen2\<close>.
  \<^item> \<open>Vpc_Frame\<close>: the logic \<open>stays Inv post m\<close>, with which one proof shows that the entry points send changing requests to their own load balancer
    only (locales \<open>own_requests\<close> of an SDK, \<open>own_api_requests\<close> of a client of the VPC API, the first a \<open>sublocale\<close> over the second). \<open>Vpc_Reconcile\<close>: many
    services. The locale \<open>documented_cloud\<close> is a VPC with many load balancers, names and IDs, creation and deletion, and \<open>controller\<close> the entry points
    on it; \<open>run_lb_calls\<close> is any sequence of ensure, update and delete calls, failed ones included. \<open>Vpc_Store\<close>: an executable VPC that
    gives identifiers to what is created, and the interpretations of the locales on it: requests on the content that the controller knows, with some identifiers
    not known yet, agree with those on the stored one (\<open>sees\<close>, a simulation). Shown: the last successful call for a service decides what its
    load balancer is, whatever calls for other services come before and after; calls stay on their own load balancer; after any calls, failed ones
    included, what the Gen2 SDK lists is consistent and can be planned from; after two successful calls for a service \<open>planUpdates\<close> finds
    nothing to do, and after one at most updates of pools.
  \<^item> \<open>Ibm_Config\<close> (\<open>ibm.go\<close>), \<open>Ibm_Metadata\<close> (\<open>ibm_metadata_service.go\<close>, \<open>ibm_vpc_client.go\<close>, \<open>ibm_instances.go\<close>, \<open>ibm_zones.go\<close>, \<open>ibm_node_watch.go\<close>):
    the cache is an interpretation of the locale \<open>dropping_cache\<close>, whose hits are fresh in every history; sources of metadata.
  \<^item> \<open>Ibm_Sync\<close> (the channel and mutex of \<open>ibm_vpc_cloud.go\<close>) and \<open>Ibm_Tasks\<close> (\<open>ibm_task.go\<close>): step relations with invariants
    by rule induction and bounds on the length of runs. Of \<open>Ibm_Sync\<close> all interleavings are covered. \<open>StartTask\<close> and \<open>StopTask\<close> take no lock: one step per
    access, tasks are unique when calls do not overlap each other, and overlapping calls can break it, which is shown, too.
  \<^item> \<open>Ibm_Cloud\<close> (\<open>ibm.go\<close>, \<open>ibm_loadbalancer.go\<close>, \<open>ibm_vpc_cloud.go\<close>, \<open>ibm_eventrecorder.go\<close>, \<open>pkg/classic\<close>): the cloud object over
    all of the above. Shown: no call of the interface panics, the life of the VPC object, rotation of credentials, which
    services the monitor considers, what a new cloud object is.
  \<^item> \<open>Ibm_Race\<close>: \<open>InitCloudVpc\<close> and the credential watcher with one step per access of the shared variable and the file. Shown: if no call overlaps
    with a rotation then no VPC object of an older key stays; a run in which they overlap, and in which it stays.
  \<^item> \<open>Ibm_Typing\<close>: a type for the stored configuration, kept by every call of the cloud object: what is stored was validated and completed.
  \<^item> \<open>Ccm_Main\<close> (\<open>main.go\<close>, \<open>ibm_version.go\<close>, \<open>pkg/klog\<close>): the command, the version flag, the start of the controllers, the logger with
    \<open>fmt.Sprintf\<close>. Shown: controllers run only with a cloud object that was made and initialized, and otherwise the process ends with the reason.

  \<^bold>\<open>Bounds.\<close> Loops that count are recursions on their count: the wait for a ready load balancer polls a bounded number of times, which
  follows from its sleep and wait times; the wait for nodes is at most ten rounds. The paging loops of the Gen2 SDK run as
  long as the API names a next page; the model bounds them by \<open>gen2_fuel\<close>, and \<open>pages_collected\<close> shows that any bound that covers
  the pages gives all items, so the bound is never what ends the loop then.

  \<^bold>\<open>Not modelled.\<close> The routines of the logger are modelled, but their calls inside the other routines are left out, as nothing reads the log. The
  retry of a conflicting node-condition update is one call of the Kubernetes client. Reflection on the name of a task function
  (\<open>getCloudTaskName\<close>), a parameter. Constants that no code uses. Sharing: the mock hands out its own objects, and the planner marks deleted
  pools in place, which the model does on its own copy of the list; the model of the SDK object holds the configuration with
  the resource group resolved. Items collected before a list call fails are dropped, as its callers do not read them.
  Task functions return and do not panic; Go's own check of maps that are written and read at the same moment is left out.
  The operations of \<open>Ibm_Cloud\<close> are whole steps; what is interleaved is the channel protocol (\<open>Ibm_Sync\<close>), the tasks (\<open>Ibm_Tasks\<close>) and the
  accesses of the VPC object and the credential file (\<open>Ibm_Race\<close>). Memory models weaker than interleaving are not considered.
\<close>

end
